(* ===== verification/Prelude.thy ===== *)
theory Prelude
  imports Main "HOL-Library.Word" "HOL-Library.Sublist" "HOL-Library.Monad_Syntax"
    "HOL-Library.Code_Target_Numeral"
begin

text \<open>
  Shared vocabulary of the development: the machine integers of the Rust code, the error
  monad behind Rust's \<open>?\<close>, the lemma collections the components extend, and the list lemmas
  used by more than one component.

  A panicking computation is an \<^typ>\<open>'a option\<close> whose \<^term>\<open>None\<close> is the panic; a
  \<open>Result<T, E>\<close> is \<^typ>\<open>'e + 'a\<close> with \<^term>\<open>Inl\<close> for \<open>Err\<close>.
\<close>

named_theorems rust_simps \<open>evaluation rules for the modelled standard library\<close>
named_theorems http_simps \<open>laws of the HTTP library as rewrite rules\<close>
named_theorems store_simps \<open>effect of the store's statements on its tables\<close>

section \<open>Machine integers\<close>

type_synonym u8 = "8 word"
type_synonym u16 = "16 word"
type_synonym u32 = "32 word"
type_synonym u64 = "64 word"
type_synonym usize = "64 word"

text \<open>\<open>u16::from_be_bytes\<close>.\<close>

definition be16 :: "u8 \<Rightarrow> u8 \<Rightarrow> u16" where
  "be16 hi lo = push_bit 8 (ucast hi) + ucast lo"

lemma unat_be16 [simp]: "unat (be16 hi lo) = unat hi * 256 + unat lo"
proof -
  have h: "unat hi < 256" and l: "unat lo < 256"
    using unsigned_less [of hi] unsigned_less [of lo] by simp_all
  have c: "unat (ucast x :: u16) = unat x" if "unat x < 256" for x :: u8
    using that by (simp add: unsigned_ucast_eq take_bit_nat_eq_self)
  have "unat (push_bit 8 (ucast hi) :: u16) = unat hi * 256"
    using h by (simp add: push_bit_eq_mult unat_word_ariths c)
  then show ?thesis
    using h l by (simp add: be16_def unat_word_ariths c)
qed

text \<open>\<open>saturating_sub\<close> on \<open>u64\<close>.\<close>

definition saturating_sub :: "u64 \<Rightarrow> u64 \<Rightarrow> u64" where
  "saturating_sub a b = (if a < b then 0 else a - b)"

text \<open>
  \<open>+\<close> and \<open>*\<close> on \<open>u64\<close>: a build with overflow checks panics (\<^term>\<open>None\<close>), one without them wraps.
\<close>

definition add_u64 :: "bool \<Rightarrow> u64 \<Rightarrow> u64 \<Rightarrow> u64 option" where
  "add_u64 checks a b = (if checks \<and> 2 ^ 64 \<le> unat a + unat b then None else Some (a + b))"

definition mul_u64 :: "bool \<Rightarrow> u64 \<Rightarrow> u64 \<Rightarrow> u64 option" where
  "mul_u64 checks a b = (if checks \<and> 2 ^ 64 \<le> unat a * unat b then None else Some (a * b))"

lemma add_u64_ok: "unat c = unat a + unat b \<Longrightarrow> add_u64 checks a b = Some c"
  and mul_u64_ok: "unat c = unat a * unat b \<Longrightarrow> mul_u64 checks a b = Some c" for c :: u64
proof -
  have c: "unat c < 2 ^ 64" using unsigned_less [of c] by simp
  have "of_nat (unat a + unat b) = a + b" "of_nat (unat a * unat b) = a * b" "of_nat (unat c) = c"
    by simp_all
  then have "unat c = unat a + unat b \<Longrightarrow> a + b = c" "unat c = unat a * unat b \<Longrightarrow> a * b = c"
    by metis+
  with c show "unat c = unat a + unat b \<Longrightarrow> add_u64 checks a b = Some c"
    and "unat c = unat a * unat b \<Longrightarrow> mul_u64 checks a b = Some c"
    by (auto simp: add_u64_def mul_u64_def)
qed

section \<open>Results\<close>

text \<open>\<open>result_bind r f\<close> is \<open>f(r?)\<close>: the error is returned, the value is passed on.\<close>

definition result_bind :: "'e + 'a \<Rightarrow> ('a \<Rightarrow> 'e + 'b) \<Rightarrow> 'e + 'b" where
  "result_bind r f = (case r of Inl e \<Rightarrow> Inl e | Inr x \<Rightarrow> f x)"

lemma result_bind_simps [simp]:
  "result_bind (Inl e) f = Inl e"
  "result_bind (Inr x) f = f x"
  by (simp_all add: result_bind_def)

lemma result_bind_eq_Inr [simp]:
  "result_bind r f = Inr y \<longleftrightarrow> (\<exists>x. r = Inr x \<and> f x = Inr y)"
  by (cases r) simp_all

lemma result_bind_eq_Inl:
  "result_bind r f = Inl e \<longleftrightarrow> r = Inl e \<or> (\<exists>x. r = Inr x \<and> f x = Inl e)"
  by (cases r) simp_all

text \<open>A \<open>for\<close> loop whose body may \<open>return Err(..)\<close>: the first error stops the loop.\<close>

fun for_each :: "('a \<Rightarrow> 'e + unit) \<Rightarrow> 'a list \<Rightarrow> 'e + unit" where
  "for_each f [] = Inr ()"
| "for_each f (x # xs) = result_bind (f x) (\<lambda>_. for_each f xs)"

lemma for_each_ok [simp]: "for_each f xs = Inr () \<longleftrightarrow> (\<forall>x \<in> set xs. f x = Inr ())"
  by (induction xs) auto

lemma for_each_cong [fundef_cong]:
  "xs = ys \<Longrightarrow> (\<And>x. x \<in> set ys \<Longrightarrow> f x = g x) \<Longrightarrow> for_each f xs = for_each g ys"
  by (induction xs arbitrary: ys) auto

lemma for_each_err:
  "for_each f xs = Inl e \<Longrightarrow> \<exists>x \<in> set xs. f x = Inl e"
proof (induction xs)
  case (Cons x xs)
  then show ?case by (cases "f x") auto
qed simp

section \<open>Lists\<close>

text \<open>Strip the elements that satisfy \<open>P\<close> from both ends.\<close>

definition strip_by :: "('a \<Rightarrow> bool) \<Rightarrow> 'a list \<Rightarrow> 'a list" where
  "strip_by P xs = rev (dropWhile P (rev (dropWhile P xs)))"

lemma strip_by_Nil [simp]: "strip_by P [] = []"
  by (simp add: strip_by_def)

lemma set_strip_by: "set (strip_by P xs) \<subseteq> set xs"
  unfolding strip_by_def by (auto dest!: set_dropWhileD)

lemma strip_by_id: "xs = [] \<or> \<not> P (hd xs) \<and> \<not> P (last xs) \<Longrightarrow> strip_by P xs = xs"
proof -
  assume a: "xs = [] \<or> \<not> P (hd xs) \<and> \<not> P (last xs)"
  have "dropWhile P xs = xs" using a by (cases xs) auto
  moreover have "dropWhile P (rev xs) = rev xs"
    using a by (cases xs rule: rev_cases) auto
  ultimately show ?thesis by (simp add: strip_by_def)
qed

lemma strip_by_none: "\<forall>x \<in> set xs. \<not> P x \<Longrightarrow> strip_by P xs = xs"
  by (rule strip_by_id) (cases xs, auto)

lemma rstrip_Cons:
  "rev (dropWhile P (rev (x # xs))) =
     (if rev (dropWhile P (rev xs)) = [] then (if P x then [] else [x])
      else x # rev (dropWhile P (rev xs)))"
  by (auto simp: dropWhile_append dropWhile_eq_Nil_conv)

text \<open>The order of the two ends does not matter, so stripping commutes with reversal.\<close>

lemma strip_by_sym: "strip_by P xs = dropWhile P (rev (dropWhile P (rev xs)))"
proof (induction xs)
  case (Cons x xs)
  let ?g = "\<lambda>ys. rev (dropWhile P (rev ys))"
  show ?case
  proof (cases "P x")
    case True
    then have "dropWhile P (?g (x # xs)) = dropWhile P (?g xs)"
      by (subst rstrip_Cons) (simp del: rev_is_Nil_conv dropWhile_eq_Nil_conv)
    with True Cons show ?thesis by (simp add: strip_by_def)
  next
    case False
    then have "dropWhile P (?g (x # xs)) = ?g (x # xs)"
      by (subst (1 2) rstrip_Cons) simp
    with False show ?thesis by (simp add: strip_by_def)
  qed
qed simp

lemma strip_by_rev: "strip_by P (rev xs) = rev (strip_by P xs)"
  by (subst strip_by_sym) (simp add: strip_by_def)

lemma strip_by_Cons: "P x \<Longrightarrow> strip_by P (x # xs) = strip_by P xs"
  by (simp add: strip_by_def)

lemma strip_by_idem [simp]: "strip_by P (strip_by P xs) = strip_by P xs"
proof -
  let ?ys = "strip_by P xs"
  have "?ys \<noteq> [] \<Longrightarrow> \<not> P (hd ?ys)"
    by (subst (asm) strip_by_sym, subst strip_by_sym) (rule hd_dropWhile)
  moreover have "?ys \<noteq> [] \<Longrightarrow> \<not> P (last ?ys)"
    unfolding strip_by_def using hd_dropWhile [of P] by (fastforce simp: last_rev)
  ultimately show ?thesis by (intro strip_by_id) blast
qed

text \<open>Take from the right: the newest \<open>n\<close> elements of a log.\<close>

definition last_n :: "nat \<Rightarrow> 'a list \<Rightarrow> 'a list" where
  "last_n n xs = drop (length xs - n) xs"

lemma length_last_n [simp]: "length (last_n n xs) = min n (length xs)"
  by (simp add: last_n_def)

lemma last_n_all [simp]: "length xs \<le> n \<Longrightarrow> last_n n xs = xs"
  by (simp add: last_n_def)

lemma last_n_snoc: "0 < n \<Longrightarrow> last_n n (xs @ [x]) = last_n (n - 1) xs @ [x]"
  by (cases n) (simp_all add: last_n_def Suc_diff_le)

lemma last_n_last_n: "last_n n (last_n n xs @ ys) = last_n n (xs @ ys)"
proof (cases "n \<le> length xs")
  case True
  then have "length xs + length ys - (length xs - n + n) + (length xs - n) = length xs + length ys - n"
    by simp
  with True show ?thesis by (simp add: last_n_def)
qed simp

lemma find_SomeD: "find P xs = Some x \<Longrightarrow> x \<in> set xs \<and> P x"
  by (induction xs) (auto split: if_splits)

lemma find_append: "find P (xs @ ys) = (case find P xs of None \<Rightarrow> find P ys | Some x \<Rightarrow> Some x)"
  by (induction xs) auto

lemma Ball_set_filter_eq: "(\<forall>x \<in> set xs. P x) \<longleftrightarrow> filter P xs = xs"
  by (simp add: filter_id_conv)

section \<open>Runs of a step relation\<close>

inductive run_of :: "('s \<Rightarrow> 'e \<Rightarrow> 's \<Rightarrow> bool) \<Rightarrow> 's \<Rightarrow> 'e list \<Rightarrow> 's \<Rightarrow> bool" for step and s :: 's where
  run_Nil: "run_of step s [] s"
| run_snoc: "run_of step s es s' \<Longrightarrow> step s' e s'' \<Longrightarrow> run_of step s (es @ [e]) s''"

lemma run_Cons:
  assumes "step s e s'" "run_of step s' es s''"
  shows "run_of step s (e # es) s''"
  using assms(2)
proof (induction rule: run_of.induct)
  case run_Nil
  from run_snoc [of step s "[]", OF run_of.run_Nil assms(1)] show ?case by simp
next
  case (run_snoc es s1 e1 s2)
  from run_of.run_snoc [OF run_snoc.IH run_snoc.hyps(2)] show ?case by simp
qed

lemma run_append:
  assumes "run_of step s' fs s''" "run_of step s es s'"
  shows "run_of step s (es @ fs) s''"
  using assms(1)
proof (induction rule: run_of.induct)
  case run_Nil
  from assms(2) show ?case by simp
next
  case (run_snoc fs s1 f s2)
  from run_of.run_snoc [OF run_snoc.IH run_snoc.hyps(2)] show ?case by simp
qed

text \<open>
  A statement about a start, the events since and the present state that every step preserves; the
  events that do not respect \<open>ok\<close> are excluded.
\<close>

locale trace_invariant =
  fixes step :: "'s \<Rightarrow> 'e \<Rightarrow> 's \<Rightarrow> bool" and ok :: "'e \<Rightarrow> bool" and start :: "'s \<Rightarrow> bool"
    and inv :: "'s \<Rightarrow> 'e list \<Rightarrow> 's \<Rightarrow> bool"
  assumes inv_start: "start s \<Longrightarrow> inv s [] s"
    and inv_step: "inv s es s' \<Longrightarrow> ok e \<Longrightarrow> step s' e s'' \<Longrightarrow> inv s (es @ [e]) s''"
begin

lemma inv_run: "run_of step s es s' \<Longrightarrow> start s \<Longrightarrow> list_all ok es \<Longrightarrow> inv s es s'"
  by (induction rule: run_of.induct) (simp_all add: inv_start inv_step)

end

end
