(* ===== verification/Rust_Str.thy ===== *)
theory Rust_Str
  imports Prelude
begin

text \<open>
  Rust's \<open>str\<close>, as the code uses it. A \<open>str\<close> is a sequence of bytes that is valid UTF-8, so it is
  an Isabelle \<^typ>\<open>string\<close> (a list of bytes); \<open>len()\<close>, slicing, \<open>starts_with\<close>, \<open>find\<close> and the
  other operations on ASCII patterns work on the bytes. A Rust \<open>char\<close> is represented by its own
  UTF-8 encoding (\<^term>\<open>chars s\<close> cuts a string into these pieces), so \<open>len_utf8\<close> is \<^const>\<open>length\<close>
  and pushing a \<open>char\<close> appends its bytes. \<open>valid_utf8\<close> is the invariant of the type \<open>str\<close>.
\<close>

type_synonym rchar = string

section \<open>Bytes\<close>

definition ord :: "char \<Rightarrow> nat" where
  "ord c = of_char c"

lemma ord_less [simp]: "ord c < 256"
  by (simp add: ord_def)

lemma ord_inject [simp]: "ord c = ord d \<longleftrightarrow> c = d"
  by (simp add: ord_def)

lemma ord_char_of: "n < 256 \<Longrightarrow> ord (char_of n) = n"
  by (simp add: ord_def of_char_of)

definition is_ascii :: "char \<Rightarrow> bool" where
  "is_ascii b \<longleftrightarrow> ord b < 128"

definition is_digit :: "char \<Rightarrow> bool" where
  "is_digit b \<longleftrightarrow> 48 \<le> ord b \<and> ord b \<le> 57"

text \<open>\<open>is_ascii_alphanumeric\<close>.\<close>

definition is_alnum :: "char \<Rightarrow> bool" where
  "is_alnum b \<longleftrightarrow> is_digit b \<or> (65 \<le> ord b \<and> ord b \<le> 90) \<or> (97 \<le> ord b \<and> ord b \<le> 122)"

definition lower_byte :: "char \<Rightarrow> char" where
  "lower_byte b = (if 65 \<le> ord b \<and> ord b \<le> 90 then char_of (ord b + 32) else b)"

text \<open>\<open>to_ascii_lowercase\<close> leaves every byte outside \<open>A..Z\<close> alone, so it is bytewise.\<close>

definition lower :: "string \<Rightarrow> string" where
  "lower s = map lower_byte s"

definition eq_ignore_ascii_case :: "string \<Rightarrow> string \<Rightarrow> bool" where
  "eq_ignore_ascii_case s t \<longleftrightarrow> lower s = lower t"

lemma ord_lower_byte: "ord (lower_byte b) = (if 65 \<le> ord b \<and> ord b \<le> 90 then ord b + 32 else ord b)"
  by (simp add: lower_byte_def ord_char_of)

lemma lower_byte_idem [simp]: "lower_byte (lower_byte b) = lower_byte b"
  by (simp add: lower_byte_def ord_char_of)

lemma lower_idem [simp]: "lower (lower s) = lower s"
  by (simp add: lower_def)

lemma lower_Nil [simp]: "lower [] = []" and lower_Cons: "lower (b # s) = lower_byte b # lower s"
  by (simp_all add: lower_def)

lemma lower_append: "lower (s @ t) = lower s @ lower t"
  by (simp add: lower_def)

lemma length_lower [simp]: "length (lower s) = length s"
  by (simp add: lower_def)

lemma lower_eq_Nil [simp]: "lower s = [] \<longleftrightarrow> s = []"
  by (simp add: lower_def)

section \<open>Characters of a UTF-8 string\<close>

text \<open>Length of the encoding that starts with the byte \<open>b\<close>.\<close>

definition utf8_len :: "char \<Rightarrow> nat" where
  "utf8_len b =
     (let n = ord b in if n < 192 then 1 else if n < 224 then 2 else if n < 240 then 3 else 4)"

definition is_cont :: "char \<Rightarrow> bool" where
  "is_cont b \<longleftrightarrow> 128 \<le> ord b \<and> ord b < 192"

lemma utf8_len_pos [simp]: "0 < utf8_len b"
  by (simp add: utf8_len_def Let_def)

lemma utf8_len_ascii: "is_ascii b \<Longrightarrow> utf8_len b = 1"
  by (simp add: utf8_len_def is_ascii_def Let_def)

fun chars :: "string \<Rightarrow> rchar list" where
  "chars [] = []"
| "chars (b # bs) = (b # take (utf8_len b - 1) bs) # chars (drop (utf8_len b - 1) bs)"

text \<open>The encoding of one scalar value: a lead byte and the continuation bytes it announces.\<close>

definition valid_char :: "rchar \<Rightarrow> bool" where
  "valid_char c \<longleftrightarrow>
     c \<noteq> [] \<and> \<not> is_cont (hd c) \<and> length c = utf8_len (hd c) \<and> list_all is_cont (tl c)"

definition valid_utf8 :: "string \<Rightarrow> bool" where
  "valid_utf8 s \<longleftrightarrow> list_all valid_char (chars s)"

lemma concat_chars [simp]: "concat (chars s) = s"
  by (induction s rule: chars.induct) simp_all

lemma chars_eq_Nil [simp]: "chars s = [] \<longleftrightarrow> s = []"
  by (cases s) simp_all

lemma chars_nonempty: "c \<in> set (chars s) \<Longrightarrow> c \<noteq> []"
  by (induction s rule: chars.induct) auto

lemma chars_valid_append:
  assumes "valid_char c"
  shows "chars (c @ s) = c # chars s"
proof -
  obtain b r where c: "c = b # r" and l: "utf8_len b = Suc (length r)"
    using assms by (cases c) (auto simp: valid_char_def)
  show ?thesis by (simp add: c l)
qed

lemma chars_concat:
  "list_all valid_char cs \<Longrightarrow> chars (concat cs) = cs"
  by (induction cs) (simp_all add: chars_valid_append)

lemma valid_utf8_concat: "list_all valid_char cs \<Longrightarrow> valid_utf8 (concat cs)"
  by (simp add: valid_utf8_def chars_concat)

lemma chars_append_valid: "valid_utf8 s \<Longrightarrow> chars (s @ t) = chars s @ chars t"
proof -
  have "list_all valid_char cs \<Longrightarrow> chars (concat cs @ t) = cs @ chars t" for cs
    by (induction cs) (simp_all add: chars_valid_append)
  from this [of "chars s"] show "valid_utf8 s \<Longrightarrow> ?thesis"
    by (simp add: valid_utf8_def)
qed

lemma valid_char_ascii [simp]: "is_ascii b \<Longrightarrow> valid_char [b]"
  by (simp add: valid_char_def utf8_len_ascii is_cont_def is_ascii_def)

lemma chars_ascii: "list_all is_ascii s \<Longrightarrow> chars s = map (\<lambda>b. [b]) s"
  by (induction s) (simp_all add: utf8_len_ascii)

lemma valid_utf8_ascii: "list_all is_ascii s \<Longrightarrow> valid_utf8 s"
  by (simp add: valid_utf8_def chars_ascii list_all_iff)

lemma concat_singletons [simp]: "concat (map (\<lambda>b. [b]) s) = s"
  by (induction s) simp_all

text \<open>\<open>is_char_boundary(i)\<close>; slicing at another index panics.\<close>

definition is_char_boundary :: "string \<Rightarrow> nat \<Rightarrow> bool" where
  "is_char_boundary s i \<longleftrightarrow> i = 0 \<or> i = length s \<or> (i < length s \<and> \<not> is_cont (s ! i))"

text \<open>\<open>&s[..i]\<close>: \<^term>\<open>None\<close> is the panic.\<close>

definition slice_to :: "string \<Rightarrow> nat \<Rightarrow> string option" where
  "slice_to s i = (if is_char_boundary s i then Some (take i s) else None)"

text \<open>\<open>char::is_control\<close>: the categories Cc, that is \<open>U+0000..U+001F\<close>, \<open>U+007F..U+009F\<close>.\<close>

definition is_control :: "rchar \<Rightarrow> bool" where
  "is_control c \<longleftrightarrow>
     (\<exists>b. c = [b] \<and> (ord b < 32 \<or> ord b = 127)) \<or>
     (\<exists>b. c = [CHR 0xC2, b] \<and> 128 \<le> ord b \<and> ord b < 160)"

lemma is_control_code [code]:
  "is_control c =
     (case c of [b] \<Rightarrow> ord b < 32 \<or> ord b = 127
      | [l, b] \<Rightarrow> l = CHR 0xC2 \<and> 128 \<le> ord b \<and> ord b < 160
      | _ \<Rightarrow> False)"
  by (auto simp: is_control_def split: list.splits)

text \<open>\<open>char::is_whitespace\<close>: the code points with the property White\_Space.\<close>

definition ws_chars :: "rchar list" where
  "ws_chars =
     [[CHR 0x09], [CHR 0x0A], [CHR 0x0B], [CHR 0x0C], [CHR 0x0D], [CHR 0x20],
      [CHR 0xC2, CHR 0x85], [CHR 0xC2, CHR 0xA0], [CHR 0xE1, CHR 0x9A, CHR 0x80],
      [CHR 0xE2, CHR 0x80, CHR 0x80], [CHR 0xE2, CHR 0x80, CHR 0x81],
      [CHR 0xE2, CHR 0x80, CHR 0x82], [CHR 0xE2, CHR 0x80, CHR 0x83],
      [CHR 0xE2, CHR 0x80, CHR 0x84], [CHR 0xE2, CHR 0x80, CHR 0x85],
      [CHR 0xE2, CHR 0x80, CHR 0x86], [CHR 0xE2, CHR 0x80, CHR 0x87],
      [CHR 0xE2, CHR 0x80, CHR 0x88], [CHR 0xE2, CHR 0x80, CHR 0x89],
      [CHR 0xE2, CHR 0x80, CHR 0x8A], [CHR 0xE2, CHR 0x80, CHR 0xA8],
      [CHR 0xE2, CHR 0x80, CHR 0xA9], [CHR 0xE2, CHR 0x80, CHR 0xAF],
      [CHR 0xE2, CHR 0x81, CHR 0x9F], [CHR 0xE3, CHR 0x80, CHR 0x80]]"

definition is_whitespace :: "rchar \<Rightarrow> bool" where
  "is_whitespace c \<longleftrightarrow> c \<in> set ws_chars"

section \<open>Trimming\<close>

definition trim :: "string \<Rightarrow> string" where
  "trim s = concat (strip_by is_whitespace (chars s))"

definition trim_start :: "string \<Rightarrow> string" where
  "trim_start s = concat (dropWhile is_whitespace (chars s))"

text \<open>\<open>trim_matches\<close> with a closure that accepts ASCII characters only.\<close>

definition trim_matches :: "(char \<Rightarrow> bool) \<Rightarrow> string \<Rightarrow> string" where
  "trim_matches P s = strip_by P s"

text \<open>The white space a header value can hold: a space or a tab.\<close>

definition ascii_ws :: "char \<Rightarrow> bool" where
  "ascii_ws b \<longleftrightarrow> ord b = 32 \<or> (9 \<le> ord b \<and> ord b \<le> 13)"

lemma is_whitespace_single: "is_whitespace [b] \<longleftrightarrow> ascii_ws b"
proof -
  have e: "(ord b = n) = (b = d)" if "ord d = n" for d n
    using that by auto
  have r: "9 \<le> m \<and> m \<le> 13 \<longleftrightarrow> m = 9 \<or> m = 10 \<or> m = 11 \<or> m = 12 \<or> m = (13::nat)" for m
    by arith
  have o: "ord (CHR 0x20) = 32" "ord (CHR 0x09) = 9" "ord (CHR 0x0A) = 10" "ord (CHR 0x0B) = 11"
    "ord (CHR 0x0C) = 12" "ord (CHR 0x0D) = 13"
    by (simp_all add: ord_def)
  show ?thesis
    unfolding ascii_ws_def r o [THEN e] is_whitespace_def ws_chars_def by auto
qed

lemma dropWhile_map: "dropWhile P (map f xs) = map f (dropWhile (P \<circ> f) xs)"
  by (induction xs) auto

lemma strip_by_map: "strip_by P (map f xs) = map f (strip_by (P \<circ> f) xs)"
  by (simp add: strip_by_def rev_map dropWhile_map)

lemma trim_ascii: "list_all is_ascii s \<Longrightarrow> trim s = strip_by ascii_ws s"
  by (simp add: trim_def chars_ascii strip_by_map comp_def is_whitespace_single)

lemma trim_no_ws:
  "list_all is_ascii s \<Longrightarrow> \<forall>b \<in> set s. \<not> ascii_ws b \<Longrightarrow> trim s = s"
  by (simp add: trim_ascii strip_by_none)

lemma trim_Nil [simp]: "trim [] = []"
  by (simp add: trim_def)

lemma valid_utf8_trim: "valid_utf8 s \<Longrightarrow> valid_utf8 (trim s)"
  unfolding trim_def
  using set_strip_by [of is_whitespace "chars s"]
  by (intro valid_utf8_concat) (auto simp: valid_utf8_def list_all_iff)

section \<open>Searching and splitting\<close>

definition starts_with :: "string \<Rightarrow> string \<Rightarrow> bool" where
  "starts_with s p \<longleftrightarrow> prefix p s"

definition ends_with :: "string \<Rightarrow> string \<Rightarrow> bool" where
  "ends_with s p \<longleftrightarrow> suffix p s"

fun contains :: "string \<Rightarrow> string \<Rightarrow> bool" where
  "contains [] p = (p = [])"
| "contains (b # s) p = (prefix p (b # s) \<or> contains s p)"

lemma contains_iff_sublist: "contains s p \<longleftrightarrow> sublist p s"
  by (induction s p rule: contains.induct) (auto simp: sublist_Cons_right)

text \<open>\<open>find(c)\<close> on an ASCII character gives the prefix before the first occurrence.\<close>

definition before :: "char \<Rightarrow> string \<Rightarrow> string" where
  "before c s = takeWhile (\<lambda>b. b \<noteq> c) s"

lemma before_id [simp]: "c \<notin> set s \<Longrightarrow> before c s = s"
  unfolding before_def by (rule takeWhile_eq_all_conv [THEN iffD2]) auto

lemma not_in_before [simp]: "c \<notin> set (before c s)"
  unfolding before_def by (auto dest: set_takeWhileD)

fun split_by :: "(char \<Rightarrow> bool) \<Rightarrow> string \<Rightarrow> string list" where
  "split_by P [] = [[]]"
| "split_by P (b # s) =
     (if P b then [] # split_by P s
      else (b # hd (split_by P s)) # tl (split_by P s))"

definition split_on :: "char \<Rightarrow> string \<Rightarrow> string list" where
  "split_on c s = split_by (\<lambda>b. b = c) s"

lemma split_by_neq_Nil [simp]: "split_by P s \<noteq> []"
  by (cases s) auto

lemma split_on_neq_Nil [simp]: "split_on c s \<noteq> []"
  by (simp add: split_on_def)

lemma split_by_none: "\<forall>b \<in> set s. \<not> P b \<Longrightarrow> split_by P s = [s]"
  by (induction s) auto

lemma split_on_none [simp]: "c \<notin> set s \<Longrightarrow> split_on c s = [s]"
  unfolding split_on_def by (rule split_by_none) auto

lemma split_by_append_sep:
  "\<forall>b \<in> set s. \<not> P b \<Longrightarrow> P c \<Longrightarrow> split_by P (s @ c # t) = s # split_by P t"
  by (induction s) auto

lemma split_on_append_sep [simp]:
  "c \<notin> set s \<Longrightarrow> split_on c (s @ c # t) = s # split_on c t"
  unfolding split_on_def by (rule split_by_append_sep) auto

lemma split_by_pieces: "w \<in> set (split_by P s) \<Longrightarrow> b \<in> set w \<Longrightarrow> \<not> P b \<and> b \<in> set s"
proof (induction s arbitrary: w)
  case (Cons a s)
  have hd: "hd (split_by P s) \<in> set (split_by P s)" by simp
  have tl: "v \<in> set (tl (split_by P s)) \<Longrightarrow> v \<in> set (split_by P s)" for v
    by (meson list.set_sel(2) split_by_neq_Nil)
  from Cons.prems show ?case
    using Cons.IH [OF hd] Cons.IH [OF tl] Cons.IH by (auto split: if_splits)
qed simp

lemma split_on_pieces: "w \<in> set (split_on c s) \<Longrightarrow> c \<notin> set w \<and> set w \<subseteq> set s"
  unfolding split_on_def by (blast dest: split_by_pieces)

lemma hd_split_on: "hd (split_on c s) = before c s"
  unfolding split_on_def before_def by (induction s) auto

text \<open>
  Trimming the pieces of a split sees no difference between a string and its trimmed form, as
  long as the separator is not trimmed away.
\<close>

lemma split_by_snoc:
  "split_by Q (s @ [b]) =
     (if Q b then split_by Q s @ [[]]
      else butlast (split_by Q s) @ [last (split_by Q s) @ [b]])"
proof (induction s)
  case (Cons a s)
  obtain w ws where "split_by Q s = w # ws" by (cases "split_by Q s") auto
  with Cons show ?case by (cases ws) auto
qed simp

lemma split_by_rev: "split_by Q (rev s) = rev (map rev (split_by Q s))"
proof (induction s)
  case (Cons a s)
  obtain w ws where "split_by Q s = w # ws" by (cases "split_by Q s") auto
  with Cons show ?case by (simp add: split_by_snoc)
qed simp

lemma split_by_lstrip:
  assumes "\<And>b. P b \<Longrightarrow> \<not> Q b"
  shows "map (strip_by P) (split_by Q (dropWhile P s)) = map (strip_by P) (split_by Q s)"
proof (induction s)
  case (Cons a s)
  obtain w ws where "split_by Q s = w # ws" by (cases "split_by Q s") auto
  with Cons assms show ?case by (auto simp: strip_by_Cons)
qed simp

lemma split_by_strip:
  assumes "\<And>b. P b \<Longrightarrow> \<not> Q b"
  shows "map (strip_by P) (split_by Q (strip_by P s)) = map (strip_by P) (split_by Q s)"
proof -
  have c: "map (strip_by P) (split_by Q (rev u)) = rev (map rev (map (strip_by P) (split_by Q u)))" for u
    by (simp add: split_by_rev rev_map strip_by_rev comp_def)
  have "map (strip_by P) (split_by Q (strip_by P s)) =
      rev (map rev (map (strip_by P) (split_by Q (dropWhile P (rev (dropWhile P s))))))"
    by (simp only: strip_by_def [of P s] c)
  also have "\<dots> = rev (map rev (map (strip_by P) (split_by Q (rev (dropWhile P s)))))"
    by (simp only: split_by_lstrip [OF assms])
  also have "\<dots> = map (strip_by P) (split_by Q (dropWhile P s))"
    by (simp only: c [of "dropWhile P s"]) (simp add: rev_map comp_def)
  finally show ?thesis by (simp only: split_by_lstrip [OF assms])
qed

text \<open>\<open>join\<close>.\<close>

fun join :: "string \<Rightarrow> string list \<Rightarrow> string" where
  "join sep [] = []"
| "join sep [w] = w"
| "join sep (w # v # ws) = w @ sep @ join sep (v # ws)"

lemma join_Cons: "ws \<noteq> [] \<Longrightarrow> join sep (w # ws) = w @ sep @ join sep ws"
  by (cases ws) simp_all

lemma join_split_on [simp]: "join [c] (split_on c s) = s"
  unfolding split_on_def
proof (induction s)
  case (Cons b s)
  obtain w ws where s: "split_by (\<lambda>b. b = c) s = w # ws"
    by (cases "split_by (\<lambda>b. b = c) s") auto
  with Cons show ?case by (cases ws) (auto simp: join_Cons)
qed simp

lemma split_on_join:
  "ws \<noteq> [] \<Longrightarrow> \<forall>w \<in> set ws. c \<notin> set w \<Longrightarrow> split_on c (join [c] ws) = ws"
proof (induction ws)
  case (Cons w ws)
  then show ?case by (cases ws) (simp_all add: join_Cons)
qed simp

text \<open>\<open>split_once(c)\<close>.\<close>

definition split_once :: "char \<Rightarrow> string \<Rightarrow> (string \<times> string) option" where
  "split_once c s = (if c \<in> set s then Some (before c s, drop (length (before c s) + 1) s) else None)"

lemma split_once_Some:
  "split_once c s = Some (k, v) \<Longrightarrow> s = k @ c # v \<and> c \<notin> set k"
proof -
  assume a: "split_once c s = Some (k, v)"
  have d: "c \<in> set s \<Longrightarrow> s = before c s @ c # drop (length (before c s) + 1) s" for s
    unfolding before_def by (induction s) auto
  from a have "c \<in> set s" "k = before c s" "v = drop (length (before c s) + 1) s"
    by (auto simp: split_once_def split: if_splits)
  with d [of s] show ?thesis by simp
qed

lemma split_once_append [simp]: "c \<notin> set k \<Longrightarrow> split_once c (k @ c # v) = Some (k, v)"
proof -
  assume a: "c \<notin> set k"
  have "before c (k @ c # v) = k"
    using a unfolding before_def by (induction k) auto
  then show ?thesis by (simp add: split_once_def)
qed

lemma split_once_None [simp]: "c \<notin> set s \<Longrightarrow> split_once c s = None"
  by (simp add: split_once_def)

text \<open>\<open>strip_prefix\<close>.\<close>

definition strip_prefix :: "string \<Rightarrow> string \<Rightarrow> string option" where
  "strip_prefix p s = (if prefix p s then Some (drop (length p) s) else None)"

text \<open>\<open>split_whitespace\<close>: the non-empty pieces between white space characters.\<close>

fun split_chars :: "(rchar \<Rightarrow> bool) \<Rightarrow> rchar list \<Rightarrow> rchar list list" where
  "split_chars P [] = [[]]"
| "split_chars P (c # cs) =
     (if P c then [] # split_chars P cs
      else (c # hd (split_chars P cs)) # tl (split_chars P cs))"

definition split_whitespace :: "string \<Rightarrow> string list" where
  "split_whitespace s =
     map concat (filter (\<lambda>w. w \<noteq> []) (split_chars is_whitespace (chars s)))"

text \<open>\<open>replace(c, t)\<close> for one ASCII character \<open>c\<close>.\<close>

definition replace :: "char \<Rightarrow> string \<Rightarrow> string \<Rightarrow> string" where
  "replace c t s = concat (map (\<lambda>b. if b = c then t else [b]) s)"

lemma replace_Nil [simp]: "replace c t [] = []"
  and replace_Cons: "replace c t (b # s) = (if b = c then t else [b]) @ replace c t s"
  by (simp_all add: replace_def)

lemma replace_append [simp]: "replace c t (u @ v) = replace c t u @ replace c t v"
  by (simp add: replace_def)

section \<open>Numbers\<close>

text \<open>\<open>{}\<close> of an unsigned integer.\<close>

fun show_nat :: "nat \<Rightarrow> string" where
  "show_nat n =
     (if n < 10 then [char_of (48 + n)] else show_nat (n div 10) @ [char_of (48 + n mod 10)])"

declare show_nat.simps [simp del]

definition show_word :: "'a::len word \<Rightarrow> string" where
  "show_word w = show_nat (unat w)"

definition digits_value :: "string \<Rightarrow> nat" where
  "digits_value s = foldl (\<lambda>n b. n * 10 + (ord b - 48)) 0 s"

text \<open>
  \<open>parse::<u64>()\<close>: an optional \<open>+\<close>, then at least one decimal digit and nothing else, with a
  value below \<open>2 ^ 64\<close>; every other string is an error.
\<close>

definition parse_u64 :: "string \<Rightarrow> u64 option" where
  "parse_u64 s =
     (let ds = (case s of b # r \<Rightarrow> if b = CHR ''+'' then r else s | [] \<Rightarrow> [])
      in if ds \<noteq> [] \<and> list_all is_digit ds \<and> digits_value ds < 2 ^ 64
         then Some (of_nat (digits_value ds)) else None)"

lemma digits_value_snoc: "digits_value (s @ [b]) = digits_value s * 10 + (ord b - 48)"
  by (simp add: digits_value_def)

lemma show_nat_neq_Nil [simp]: "show_nat n \<noteq> []"
  by (subst show_nat.simps) simp

lemma show_nat_digits: "list_all is_digit (show_nat n)"
proof (induction n rule: show_nat.induct)
  case (1 n)
  have "is_digit (char_of (48 + d))" if "d < 10" for d :: nat
    using that by (simp add: is_digit_def ord_char_of)
  with 1 show ?case
    by (subst show_nat.simps) (simp add: list_all_iff ball_Un)
qed

lemma digits_value_show_nat [simp]: "digits_value (show_nat n) = n"
proof (induction n rule: show_nat.induct)
  case (1 n)
  show ?case
  proof (cases "n < 10")
    case True
    then show ?thesis
      by (subst show_nat.simps) (simp add: digits_value_def ord_char_of)
  next
    case False
    with 1 show ?thesis
      by (subst show_nat.simps) (simp add: digits_value_snoc ord_char_of)
  qed
qed

lemma parse_u64_show_word [simp]: "parse_u64 (show_word (w :: u64)) = Some w"
proof -
  have d: "list_all is_digit (show_word w)" by (simp add: show_word_def show_nat_digits)
  obtain b r where s: "show_word w = b # r" by (cases "show_word w") (simp_all add: show_word_def)
  with d have "b \<noteq> CHR ''+''" by (auto simp: is_digit_def ord_def)
  moreover have "digits_value (show_word w) = unat w" by (simp add: show_word_def)
  moreover have "unat w < 2 ^ 64" using unsigned_less [of w] by simp
  ultimately show ?thesis using d s by (simp add: parse_u64_def)
qed

lemma digit_props:
  "is_digit b \<Longrightarrow> is_ascii b" "is_digit b \<Longrightarrow> \<not> ascii_ws b" "is_digit b \<Longrightarrow> b \<noteq> CHR '',''"
  by (auto simp: is_digit_def is_ascii_def ascii_ws_def ord_def)

lemma show_word_digits: "list_all is_digit (show_word w)"
  by (simp add: show_word_def show_nat_digits)

lemma show_word_neq_Nil [simp]: "show_word w \<noteq> []"
  by (simp add: show_word_def)

lemma show_word_ascii: "list_all is_ascii (show_word w)"
  using show_word_digits [of w] by (auto simp: list_all_iff digit_props)

lemma trim_show_word [simp]: "trim (show_word w) = show_word w"
  using show_word_digits [of w]
  by (intro trim_no_ws show_word_ascii) (auto simp: list_all_iff digit_props)

lemma comma_not_in_show_word [simp]: "CHR '','' \<notin> set (show_word w)"
  using show_word_digits [of w] digit_props(3) by (auto simp: list_all_iff)

lemma split_on_show_word [simp]: "split_on CHR '','' (show_word w) = [show_word w]"
  by (rule split_on_none) simp

lemma parse_u64_None: "\<exists>b \<in> set s. \<not> is_digit b \<and> b \<noteq> CHR ''+'' \<Longrightarrow> parse_u64 s = None"
  by (cases s) (auto simp: parse_u64_def Let_def list_all_iff)

end
