(* ===== verification/Net_Addr.thy ===== *)
theory Net_Addr
  imports Rust_Str
begin

text \<open>
  \<open>std::net::IpAddr\<close> and \<open>SocketAddr\<close>: the parser and the printer of the standard library, which
  the quarantine tools, the configuration and the header code use. The printer's output consists
  of hexadecimal digits, dots and colons, so it is always a legal header value.
\<close>

section \<open>Addresses\<close>

datatype ip_addr =
    V4 u8 u8 u8 u8
  | V6 u16 u16 u16 u16 u16 u16 u16 u16

fun is_ipv4 :: "ip_addr \<Rightarrow> bool" where
  "is_ipv4 (V4 _ _ _ _) = True"
| "is_ipv4 (V6 _ _ _ _ _ _ _ _) = False"

text \<open>\<open>is_loopback\<close>: \<open>127.0.0.0/8\<close> or \<open>::1\<close>.\<close>

fun is_loopback :: "ip_addr \<Rightarrow> bool" where
  "is_loopback (V4 a _ _ _) = (a = 127)"
| "is_loopback (V6 a b c d e f g h) = ([a, b, c, d, e, f, g, h] = [0, 0, 0, 0, 0, 0, 0, 1])"

record socket_addr =
  sa_ip :: ip_addr
  sa_port :: u16

section \<open>Printing\<close>

definition hex_digit :: "nat \<Rightarrow> char" where
  "hex_digit d = (if d < 10 then char_of (48 + d) else char_of (87 + d))"

fun show_hex :: "nat \<Rightarrow> string" where
  "show_hex n = (if n < 16 then [hex_digit n] else show_hex (n div 16) @ [hex_digit (n mod 16)])"

declare show_hex.simps [simp del]

text \<open>The longest run of zero segments, the first one among equals: \<open>(start, len)\<close>.\<close>

fun zero_span :: "nat \<Rightarrow> nat \<times> nat \<Rightarrow> nat \<times> nat \<Rightarrow> u16 list \<Rightarrow> nat \<times> nat" where
  "zero_span i longest cur [] = longest"
| "zero_span i longest cur (s # ss) =
     (if s = 0 then
        let cur' = (if snd cur = 0 then i else fst cur, snd cur + 1);
            longest' = (if snd cur' > snd longest then cur' else longest)
        in zero_span (i + 1) longest' cur' ss
      else zero_span (i + 1) longest (0, 0) ss)"

definition show_segments :: "u16 list \<Rightarrow> string" where
  "show_segments ss = join '':'' (map (\<lambda>s. show_hex (unat s)) ss)"

definition show_octets :: "u8 \<Rightarrow> u8 \<Rightarrow> u8 \<Rightarrow> u8 \<Rightarrow> string" where
  "show_octets a b c d = join ''.'' (map show_word [a, b, c, d])"

definition hi_octet :: "u16 \<Rightarrow> u8" where
  "hi_octet s = ucast (drop_bit 8 s)"

definition lo_octet :: "u16 \<Rightarrow> u8" where
  "lo_octet s = ucast s"

fun show_ip :: "ip_addr \<Rightarrow> string" where
  "show_ip (V4 a b c d) = show_octets a b c d"
| "show_ip (V6 a b c d e f g h) =
     (let ss = [a, b, c, d, e, f, g, h];
          (start, len) = zero_span 0 (0, 0) (0, 0) ss
      in if [a, b, c, d, e, f] = [0, 0, 0, 0, 0, 0xFFFF]
         then ''::ffff:'' @ show_octets (hi_octet g) (lo_octet g) (hi_octet h) (lo_octet h)
         else if len > 1
         then show_segments (take start ss) @ ''::'' @ show_segments (drop (start + len) ss)
         else show_segments ss)"

definition ip_char :: "char \<Rightarrow> bool" where
  "ip_char c \<longleftrightarrow> is_digit c \<or> (97 \<le> ord c \<and> ord c \<le> 102) \<or> ord c = 46 \<or> ord c = 58"

lemma ip_char_digit [simp]: "is_digit c \<Longrightarrow> ip_char c"
  by (simp add: ip_char_def)

lemma ip_char_punct [simp]: "ip_char CHR ''.''" "ip_char CHR '':''" "ip_char CHR ''f''"
  by (simp_all add: ip_char_def ord_def is_digit_def)

lemma show_hex_ip_char: "list_all ip_char (show_hex n)"
proof (induction n rule: show_hex.induct)
  case (1 n)
  have "ip_char (hex_digit d)" if "d < 16" for d
    using that by (auto simp: ip_char_def hex_digit_def is_digit_def ord_char_of)
  with 1 show ?case
    by (subst show_hex.simps) (simp add: list_all_iff ball_Un)
qed

lemma join_list_all:
  "list_all P sep \<Longrightarrow> \<forall>w \<in> set ws. list_all P w \<Longrightarrow> list_all P (join sep ws)"
  by (induction sep ws rule: join.induct) simp_all

lemma show_word_ip_char: "list_all ip_char (show_word w)"
  unfolding show_word_def using show_nat_digits [of "unat w"]
  by (simp add: list_all_iff)

lemma show_octets_ip_char: "list_all ip_char (show_octets a b c d)"
  unfolding show_octets_def by (rule join_list_all) (simp_all add: show_word_ip_char)

lemma show_segments_ip_char: "list_all ip_char (show_segments ss)"
  unfolding show_segments_def by (rule join_list_all) (auto simp: show_hex_ip_char)

lemma show_ip_chars: "list_all ip_char (show_ip ip)"
  by (cases ip)
     (auto simp: Let_def show_octets_ip_char show_segments_ip_char split: prod.split)

section \<open>Parsing\<close>

definition to_digit :: "nat \<Rightarrow> char \<Rightarrow> nat option" where
  "to_digit radix c =
     (let v = (if is_digit c then ord c - 48
               else if 97 \<le> ord c \<and> ord c \<le> 122 then ord c - 87
               else if 65 \<le> ord c \<and> ord c \<le> 90 then ord c - 55 else 255)
      in if v < radix then Some v else None)"

text \<open>All digits at the front: their value, their number, and the rest of the input.\<close>

fun read_digits :: "nat \<Rightarrow> nat \<Rightarrow> nat \<Rightarrow> string \<Rightarrow> nat \<times> nat \<times> string" where
  "read_digits radix v n [] = (v, n, [])"
| "read_digits radix v n (c # s) =
     (case to_digit radix c of
        Some d \<Rightarrow> read_digits radix (v * radix + d) (n + 1) s
      | None \<Rightarrow> (v, n, c # s))"

text \<open>\<open>read_number(radix, Some(max_digits), allow_zero_prefix)\<close> for a type with bound \<open>bnd\<close>.\<close>

definition read_number :: "nat \<Rightarrow> nat \<Rightarrow> bool \<Rightarrow> nat \<Rightarrow> string \<Rightarrow> (nat \<times> string) option" where
  "read_number radix max_digits allow_zero bnd s =
     (case read_digits radix 0 0 s of (v, n, r) \<Rightarrow>
        if n = 0 \<or> n > max_digits then None
        else if \<not> allow_zero \<and> hd s = CHR ''0'' \<and> n > 1 then None
        else if v < bnd then Some (v, r) else None)"

definition read_char :: "char \<Rightarrow> string \<Rightarrow> string option" where
  "read_char c s = (case s of d # r \<Rightarrow> if d = c then Some r else None | [] \<Rightarrow> None)"

text \<open>\<open>read_separator(sep, index, ..)\<close>: the separator is read before every item but the first.\<close>

definition read_sep :: "char \<Rightarrow> nat \<Rightarrow> string \<Rightarrow> string option" where
  "read_sep sep i s = (if i > 0 then read_char sep s else Some s)"

definition read_octet :: "nat \<Rightarrow> string \<Rightarrow> (u8 \<times> string) option" where
  "read_octet i s =
     do { s1 \<leftarrow> read_sep CHR ''.'' i s;
          (v, r) \<leftarrow> read_number 10 3 False 256 s1;
          Some (of_nat v, r) }"

definition read_ipv4 :: "string \<Rightarrow> (u8 list \<times> string) option" where
  "read_ipv4 s =
     do { (a, s1) \<leftarrow> read_octet 0 s; (b, s2) \<leftarrow> read_octet 1 s1;
          (c, s3) \<leftarrow> read_octet 2 s2; (d, s4) \<leftarrow> read_octet 3 s3;
          Some ([a, b, c, d], s4) }"

text \<open>
  \<open>read_groups\<close>: up to \<open>limit\<close> groups of four hexadecimal digits; the last two may be written as
  an IPv4 address, and then the reading stops. The result is the groups, whether an IPv4 address
  ended them, and the rest of the input. The first argument counts down, so it also bounds the
  recursion.
\<close>

fun read_groups :: "nat \<Rightarrow> nat \<Rightarrow> string \<Rightarrow> u16 list \<times> bool \<times> string" where
  "read_groups 0 i s = ([], False, s)"
| "read_groups (Suc n) i s =
     (case (if n > 0 then do { s1 \<leftarrow> read_sep CHR '':'' i s; read_ipv4 s1 } else None) of
        Some (os, r) \<Rightarrow> ([be16 (os ! 0) (os ! 1), be16 (os ! 2) (os ! 3)], True, r)
      | None \<Rightarrow>
          (case do { s1 \<leftarrow> read_sep CHR '':'' i s; read_number 16 4 True 65536 s1 } of
             Some (v, r) \<Rightarrow>
               (case read_groups n (i + 1) r of (gs, b, r') \<Rightarrow> (of_nat v # gs, b, r'))
           | None \<Rightarrow> ([], False, s)))"

definition mk_v6 :: "u16 list \<Rightarrow> ip_addr" where
  "mk_v6 ss = V6 (ss ! 0) (ss ! 1) (ss ! 2) (ss ! 3) (ss ! 4) (ss ! 5) (ss ! 6) (ss ! 7)"

definition read_ipv6 :: "string \<Rightarrow> (ip_addr \<times> string) option" where
  "read_ipv6 s =
     (case read_groups 8 0 s of (head, head_ipv4, r) \<Rightarrow>
        if length head = 8 then Some (mk_v6 head, r)
        else if head_ipv4 then None
        else do { r1 \<leftarrow> read_char CHR '':'' r; r2 \<leftarrow> read_char CHR '':'' r1;
                  let limit = 8 - (length head + 1);
                  let (tail, _, r3) = read_groups limit 0 r2;
                  Some (mk_v6 (head @ replicate (8 - length head - length tail) 0 @ tail), r3) })"

text \<open>\<open>IpAddr::from_str\<close>: IPv4 first, then IPv6, and nothing may be left over.\<close>

definition parse_ip :: "string \<Rightarrow> ip_addr option" where
  "parse_ip s =
     (case (case read_ipv4 s of
              Some (os, r) \<Rightarrow> Some (V4 (os ! 0) (os ! 1) (os ! 2) (os ! 3), r)
            | None \<Rightarrow> read_ipv6 s) of
        Some (ip, []) \<Rightarrow> Some ip
      | _ \<Rightarrow> None)"

text \<open>
  \<open>SocketAddr::from_str\<close> and its printer: an IPv6 address stands in brackets. The scope of an IPv6
  address is read and dropped; addresses with a scope are not modelled.
\<close>

definition read_port :: "string \<Rightarrow> (u16 \<times> string) option" where
  "read_port s =
     do { s1 \<leftarrow> read_char CHR '':'' s; (v, r) \<leftarrow> read_number 10 (length s1) True 65536 s1; Some (of_nat v, r) }"

definition read_scope :: "string \<Rightarrow> string" where
  "read_scope s =
     (case do { s1 \<leftarrow> read_char CHR ''%'' s; read_number 10 (length s1) True (2 ^ 32) s1 } of
        Some (_, r) \<Rightarrow> r | None \<Rightarrow> s)"

definition read_socket_v4 :: "string \<Rightarrow> (socket_addr \<times> string) option" where
  "read_socket_v4 s =
     do { (os, s1) \<leftarrow> read_ipv4 s; (p, s2) \<leftarrow> read_port s1;
          Some (\<lparr>sa_ip = V4 (os ! 0) (os ! 1) (os ! 2) (os ! 3), sa_port = p\<rparr>, s2) }"

definition read_socket_v6 :: "string \<Rightarrow> (socket_addr \<times> string) option" where
  "read_socket_v6 s =
     do { s1 \<leftarrow> read_char CHR ''['' s; (ip, s2) \<leftarrow> read_ipv6 s1; s3 \<leftarrow> read_char CHR '']'' (read_scope s2);
          (p, s4) \<leftarrow> read_port s3; Some (\<lparr>sa_ip = ip, sa_port = p\<rparr>, s4) }"

definition parse_socket_addr :: "string \<Rightarrow> socket_addr option" where
  "parse_socket_addr s =
     (case (case read_socket_v4 s of Some x \<Rightarrow> Some x | None \<Rightarrow> read_socket_v6 s) of
        Some (a, []) \<Rightarrow> Some a
      | _ \<Rightarrow> None)"

definition show_addr :: "socket_addr \<Rightarrow> string" where
  "show_addr a =
     (if is_ipv4 (sa_ip a) then show_ip (sa_ip a) else ''['' @ show_ip (sa_ip a) @ '']'') @
     '':'' @ show_word (sa_port a)"

lemma parse_socket_addr_examples:
  "parse_socket_addr ''127.0.0.1:8999'' = Some \<lparr>sa_ip = V4 127 0 0 1, sa_port = 8999\<rparr>"
  "parse_socket_addr ''[2001:db8::1]:443'' = Some \<lparr>sa_ip = V6 0x2001 0xdb8 0 0 0 0 0 1, sa_port = 443\<rparr>"
  "parse_socket_addr ''127.0.0.1'' = None"
  "parse_socket_addr ''127.0.0.1:65536'' = None"
  by code_simp+

section \<open>Reading back what is printed\<close>

lemma to_digit_decimal: "is_digit c \<Longrightarrow> to_digit 10 c = Some (ord c - 48)"
  by (auto simp: to_digit_def is_digit_def Let_def)

lemma read_digits_run:
  "list_all is_digit ds \<Longrightarrow> r = [] \<or> to_digit 10 (hd r) = None \<Longrightarrow>
     read_digits 10 v n (ds @ r) = (foldl (\<lambda>n b. n * 10 + (ord b - 48)) v ds, n + length ds, r)"
proof (induction ds arbitrary: v n)
  case Nil
  then show ?case by (cases r) auto
next
  case (Cons d ds)
  then show ?case by (simp add: to_digit_decimal)
qed

lemma show_nat_length: "n < 10 ^ k \<Longrightarrow> 0 < k \<Longrightarrow> length (show_nat n) \<le> k"
proof (induction k arbitrary: n)
  case (Suc k)
  show ?case
  proof (cases "n < 10")
    case True
    then show ?thesis by (subst show_nat.simps) simp
  next
    case False
    with Suc.prems have k: "0 < k" by (cases k) simp_all
    have "n div 10 < 10 ^ k" using Suc.prems(1) by (simp add: less_mult_imp_div_less mult.commute)
    with Suc.IH [OF this k] False show ?thesis by (subst show_nat.simps) simp
  qed
qed simp

lemma show_nat_hd: "hd (show_nat n) = CHR ''0'' \<Longrightarrow> n = 0"
proof (induction n rule: show_nat.induct)
  case (1 n)
  show ?case
  proof (cases "n < 10")
    case True
    with 1(2) have "ord (char_of (48 + n)) = ord CHR ''0''" by (subst (asm) show_nat.simps) simp
    with True show ?thesis by (simp add: ord_char_of ord_def)
  next
    case False
    with 1(2) have "hd (show_nat (n div 10)) = CHR ''0''"
      by (subst (asm) show_nat.simps) simp
    with 1(1) False show ?thesis by auto
  qed
qed

text \<open>A printed number is read back, up to a character that is no digit.\<close>

lemma read_number_show:
  assumes "n < bnd" "length (show_nat n) \<le> k" "r = [] \<or> to_digit 10 (hd r) = None"
  shows "read_number 10 k allow bnd (show_nat n @ r) = Some (n, r)"
proof -
  have v: "foldl (\<lambda>n b. n * 10 + (ord b - 48)) 0 (show_nat n) = n"
    using digits_value_show_nat [of n] by (simp only: digits_value_def)
  have z: "hd (show_nat n @ r) = CHR ''0'' \<Longrightarrow> length (show_nat n) = 1"
    using show_nat_hd [of n] by (auto simp: hd_append) (subst show_nat.simps, simp)
  show ?thesis
    unfolding read_number_def read_digits_run [OF show_nat_digits assms(3)] v
    using assms(1,2) z by auto
qed

lemma separators: "to_digit 10 CHR ''.'' = None" "to_digit 10 CHR '':'' = None"
  by code_simp+

lemma read_octet_show:
  assumes "r = [] \<or> to_digit 10 (hd r) = None"
  shows "read_octet 0 (show_word (a :: u8) @ r) = Some (a, r)"
    and "0 < i \<Longrightarrow> read_octet i (CHR ''.'' # show_word a @ r) = Some (a, r)"
proof -
  have u: "unat a < 256" using unsigned_less [of a] by simp
  have "length (show_nat (unat a)) \<le> 3" using show_nat_length [of "unat a" 3] u by simp
  from read_number_show [OF u this assms, of False]
  show "read_octet 0 (show_word a @ r) = Some (a, r)" "0 < i \<Longrightarrow> read_octet i (CHR ''.'' # show_word a @ r) = Some (a, r)"
    by (simp_all add: read_octet_def read_sep_def read_char_def show_word_def)
qed

lemma read_ipv4_show:
  assumes "r = [] \<or> to_digit 10 (hd r) = None"
  shows "read_ipv4 (show_octets a b c d @ r) = Some ([a, b, c, d], r)"
  using assms by (simp add: show_octets_def read_ipv4_def read_octet_show separators)

lemma read_port_show: "read_port (CHR '':'' # show_word p) = Some (p, [])"
proof -
  have "unat p < 65536" using unsigned_less [of p] by simp
  from read_number_show [OF this, of "length (show_nat (unat p))" "[]" True] show ?thesis
    by (simp add: read_port_def read_char_def show_word_def)
qed

lemma parse_ip_show_v4: "parse_ip (show_ip (V4 a b c d)) = Some (V4 a b c d)"
  using read_ipv4_show [of "[]" a b c d] by (simp add: parse_ip_def)

lemma parse_show_addr:
  assumes "is_ipv4 (sa_ip a)"
  shows "parse_socket_addr (show_addr a) = Some a"
proof (cases "sa_ip a")
  case (V4 x y z w)
  have "read_socket_v4 (show_addr a) = Some (a, [])"
    using read_ipv4_show [of "CHR '':'' # show_word (sa_port a)" x y z w] V4 separators
    by (simp add: read_socket_v4_def show_addr_def read_port_show)
  then show ?thesis by (simp add: parse_socket_addr_def)
qed (use assms in simp)

lemma parse_ip_examples:
  "parse_ip ''198.51.100.7'' = Some (V4 198 51 100 7)"
  "parse_ip ''198.51.100.07'' = None"
  "parse_ip ''::1'' = Some (V6 0 0 0 0 0 0 0 1)"
  "parse_ip ''2001:db8::a:1'' = Some (V6 0x2001 0xdb8 0 0 0 0 0xa 1)"
  "parse_ip ''::ffff:10.0.0.1'' = Some (V6 0 0 0 0 0 0xffff 0x0a00 1)"
  "parse_ip ''1.2.3.4/8'' = None"
  by code_simp+

lemma show_ip_examples:
  "show_ip (V4 198 51 100 7) = ''198.51.100.7''"
  "show_ip (V6 0x2001 0xdb8 0 0 0 0 0xa 1) = ''2001:db8::a:1''"
  "show_ip (V6 0 0 0 0 0 0xffff 0x0a00 1) = ''::ffff:10.0.0.1''"
  by code_simp+

end
