(* ===== verification/Http_Lib.thy ===== *)
theory Http_Lib
  imports Net_Addr
begin

text \<open>
  The interface of the HTTP library (hyper and the http crate), which is not part of the
  repository. A header map is a value of an unknown type \<open>'h\<close>; the operations the code calls are
  the fields of \<open>L :: 'h http_lib\<close>, an argument of every definition that touches headers. What
  the code relies on is the documented behaviour stated by \<open>http_laws\<close>; the statements that need
  it have it as a hypothesis, and \<open>assoc_http\<close>, a header map kept as a list, satisfies it.

  Header names are compared without regard to case and \<open>iter\<close> yields them in lower case. Header
  values are bytes; \<open>to_str\<close> succeeds on visible ASCII and tabs, \<open>from_str\<close> rejects control bytes.
\<close>

record 'h http_lib =
  hm_empty :: 'h
  hm_contains_key :: "'h \<Rightarrow> string \<Rightarrow> bool"
  hm_get :: "'h \<Rightarrow> string \<Rightarrow> string option"
  hm_get_all :: "'h \<Rightarrow> string \<Rightarrow> string list"
  hm_iter :: "'h \<Rightarrow> (string \<times> string) list"
  hm_insert :: "'h \<Rightarrow> string \<Rightarrow> string \<Rightarrow> 'h"
  hm_remove :: "'h \<Rightarrow> string \<Rightarrow> 'h"
  hv_to_str :: "string \<Rightarrow> string option"
  hv_from_str :: "string \<Rightarrow> string option"

definition visible_byte :: "char \<Rightarrow> bool" where
  "visible_byte b \<longleftrightarrow> (32 \<le> ord b \<and> ord b < 127) \<or> ord b = 9"

definition value_byte :: "char \<Rightarrow> bool" where
  "value_byte b \<longleftrightarrow> (32 \<le> ord b \<and> ord b \<noteq> 127) \<or> ord b = 9"

definition http_laws :: "'h http_lib \<Rightarrow> bool" where
  "http_laws L \<longleftrightarrow>
     (\<forall>h n. hm_contains_key L h n \<longleftrightarrow> hm_get_all L h n \<noteq> []) \<and>
     (\<forall>h n. hm_get L h n = (case hm_get_all L h n of [] \<Rightarrow> None | v # _ \<Rightarrow> Some v)) \<and>
     (\<forall>h n. hm_get_all L h n = map snd (filter (\<lambda>(k, _). k = lower n) (hm_iter L h))) \<and>
     (\<forall>n. hm_get_all L (hm_empty L) n = []) \<and>
     (\<forall>h n v m. hm_get_all L (hm_insert L h n v) m =
                 (if lower m = lower n then [v] else hm_get_all L h m)) \<and>
     (\<forall>h n m. hm_get_all L (hm_remove L h n) m =
                 (if lower m = lower n then [] else hm_get_all L h m)) \<and>
     (\<forall>v. hv_to_str L v = (if list_all visible_byte v then Some v else None)) \<and>
     (\<forall>s. hv_from_str L s = (if list_all value_byte s then Some s else None))"

lemma http_laws_simps:
  assumes "http_laws L"
  shows contains_key_iff: "hm_contains_key L h n \<longleftrightarrow> hm_get_all L h n \<noteq> []"
    and get_eq: "hm_get L h n = (case hm_get_all L h n of [] \<Rightarrow> None | v # _ \<Rightarrow> Some v)"
    and get_all_empty: "hm_get_all L (hm_empty L) n = []"
    and get_all_insert: "hm_get_all L (hm_insert L h n v) m =
                           (if lower m = lower n then [v] else hm_get_all L h m)"
    and get_all_remove: "hm_get_all L (hm_remove L h n) m =
                           (if lower m = lower n then [] else hm_get_all L h m)"
    and to_str_eq: "hv_to_str L v = (if list_all visible_byte v then Some v else None)"
    and from_str_eq: "hv_from_str L s = (if list_all value_byte s then Some s else None)"
  using assms unfolding http_laws_def by blast+

lemma get_all_iter:
  "http_laws L \<Longrightarrow>
     hm_get_all L h n = map snd (filter (\<lambda>(k, _). k = lower n) (hm_iter L h))"
  unfolding http_laws_def by blast

lemmas [http_simps] =
  contains_key_iff get_eq get_all_empty get_all_insert get_all_remove to_str_eq from_str_eq

lemma visible_byte_ascii: "visible_byte b \<Longrightarrow> is_ascii b"
  by (auto simp: visible_byte_def is_ascii_def)

lemma visible_ascii: "list_all visible_byte s \<Longrightarrow> list_all is_ascii s"
  by (auto simp: list_all_iff visible_byte_ascii)

lemma visible_value_byte: "visible_byte b \<Longrightarrow> value_byte b"
  by (auto simp: visible_byte_def value_byte_def)

lemma ip_char_visible: "ip_char b \<Longrightarrow> visible_byte b"
  by (auto simp: ip_char_def visible_byte_def is_digit_def)

lemma show_ip_visible: "list_all visible_byte (show_ip ip)"
  using show_ip_chars [of ip] by (auto simp: list_all_iff ip_char_visible)

lemma show_ip_value: "list_all value_byte (show_ip ip)"
  using show_ip_visible [of ip] by (auto simp: list_all_iff visible_value_byte)

text \<open>Case-insensitive names that occur in the code are compared by evaluation.\<close>

lemma get_all_insert_same: "http_laws L \<Longrightarrow> hm_get_all L (hm_insert L h n v) n = [v]"
  by (simp add: get_all_insert)

lemma get_all_insert_other:
  "http_laws L \<Longrightarrow> lower m \<noteq> lower n \<Longrightarrow> hm_get_all L (hm_insert L h n v) m = hm_get_all L h m"
  by (simp add: get_all_insert)

section \<open>Messages\<close>

text \<open>
  Requests and responses: the parts the code reads and writes. A request's URI is its path, its
  optional query and, for an absolute-form or HTTP/2 request, its host.
\<close>

record 'h request =
  rq_method :: string
  rq_uri_host :: "string option"
  rq_path :: string
  rq_query :: "string option"
  rq_headers :: 'h

record 'h response =
  rs_status :: nat
  rs_headers :: 'h
  rs_body :: string

definition new_response :: "'h http_lib \<Rightarrow> string \<Rightarrow> 'h response" where
  "new_response L body = \<lparr>rs_status = 200, rs_headers = hm_empty L, rs_body = body\<rparr>"

lemma new_response_simps [simp]:
  "rs_status (new_response L b) = 200"
  "rs_headers (new_response L b) = hm_empty L"
  "rs_body (new_response L b) = b"
  by (simp_all add: new_response_def)

text \<open>\<open>res.headers_mut().insert(name, value)\<close>.\<close>

definition set_header :: "'h http_lib \<Rightarrow> string \<Rightarrow> string \<Rightarrow> 'h response \<Rightarrow> 'h response" where
  "set_header L n v r = r\<lparr>rs_headers := hm_insert L (rs_headers r) n v\<rparr>"

lemma set_header_simps [simp]:
  "rs_status (set_header L n v r) = rs_status r"
  "rs_body (set_header L n v r) = rs_body r"
  "rs_headers (set_header L n v r) = hm_insert L (rs_headers r) n v"
  by (simp_all add: set_header_def)

section \<open>A header map that satisfies the laws\<close>

type_synonym assoc_headers = "(string \<times> string) list"

definition ah_get_all :: "assoc_headers \<Rightarrow> string \<Rightarrow> string list" where
  "ah_get_all h n = map snd (filter (\<lambda>(k, _). k = lower n) h)"

definition assoc_http :: "assoc_headers http_lib" where
  "assoc_http =
     \<lparr>hm_empty = [],
      hm_contains_key = (\<lambda>h n. ah_get_all h n \<noteq> []),
      hm_get = (\<lambda>h n. case ah_get_all h n of [] \<Rightarrow> None | v # _ \<Rightarrow> Some v),
      hm_get_all = ah_get_all,
      hm_iter = (\<lambda>h. h),
      hm_insert = (\<lambda>h n v. filter (\<lambda>(k, _). k \<noteq> lower n) h @ [(lower n, v)]),
      hm_remove = (\<lambda>h n. filter (\<lambda>(k, _). k \<noteq> lower n) h),
      hv_to_str = (\<lambda>v. if list_all visible_byte v then Some v else None),
      hv_from_str = (\<lambda>s. if list_all value_byte s then Some s else None)\<rparr>"

lemma ah_filter_other:
  "map snd (filter (\<lambda>(k, _). k = m) (filter (\<lambda>(k, _). k \<noteq> n) h)) =
     (if m = n then [] else map snd (filter (\<lambda>(k, _). k = m) h))"
  by (induction h) auto

lemma assoc_http_laws: "http_laws assoc_http"
  unfolding http_laws_def assoc_http_def ah_get_all_def
  by (simp add: ah_filter_other del: filter_filter)

end
