(* ===== verification/Framing_Guard.thy ===== *)
theory Framing_Guard
  imports Http_Lib
begin

text \<open>
  \<open>src/framing_guard/mod.rs\<close>: the request framing guard. The violations and their responses, the
  validation of \<open>Content-Length\<close> and \<open>Transfer-Encoding\<close>, the header hygiene check and the
  sanitisation of the identity headers. The lemmas show that an accepted request has one framing:
  no request with both headers passes, all declared lengths are the same number within the limit,
  and no header carries a control byte.
\<close>

section \<open>Violations\<close>

datatype framing_violation =
    ConflictingFraming
  | MultipleContentLengths
  | MalformedContentLength string
  | UnsupportedTransferEncoding string
  | IllegalHeaderCharacter string
  | PayloadTooLarge (limit: u64) (requested: u64)

text \<open>The \<open>Display\<close> text; the section sign is two bytes of UTF-8.\<close>

definition section_sign :: string where
  "section_sign = [CHR 0xC2, CHR 0xA7]"

fun violation_message :: "framing_violation \<Rightarrow> string" where
  "violation_message ConflictingFraming =
     ''RFC 9112 '' @ section_sign @ ''6.1 / RFC 7230 '' @ section_sign @
     ''3.3.3: Request contains conflicting Transfer-Encoding and Content-Length headers (HTTP Desync Attack)''"
| "violation_message MultipleContentLengths =
     ''Multiple conflicting Content-Length headers detected''"
| "violation_message (MalformedContentLength s) =
     ''Malformed Content-Length header: '' @ [CHR 0x27] @ s @ [CHR 0x27]"
| "violation_message (UnsupportedTransferEncoding s) =
     ''Unsupported or malformed Transfer-Encoding: '' @ [CHR 0x27] @ s @ [CHR 0x27]"
| "violation_message (IllegalHeaderCharacter s) =
     ''Illegal control character (NUL, ANSI ESC, or bare CR/LF) detected in header '' @
     [CHR 0x27] @ s @ [CHR 0x27]"
| "violation_message (PayloadTooLarge l r) =
     ''Payload exceeds maximum allowable body size: '' @ show_word r @ '' bytes > '' @
     show_word l @ '' bytes''"

fun violation_status :: "framing_violation \<Rightarrow> nat" where
  "violation_status (PayloadTooLarge _ _) = 413"
| "violation_status _ = 400"

definition public_response :: "'h http_lib \<Rightarrow> framing_violation \<Rightarrow> 'h response" where
  "public_response L v =
     set_header L ''content-type'' ''text/plain; charset=utf-8''
       ((new_response L (''400 Bad Request: '' @ violation_message v @ [CHR 0x0A]))
          \<lparr>rs_status := violation_status v\<rparr>)"

section \<open>The guard\<close>

record framing_guard =
  max_body_bytes :: u64

definition default_guard :: framing_guard where
  "default_guard = \<lparr>max_body_bytes = 10 * 1024 * 1024\<rparr>"

definition new_guard :: "u64 \<Rightarrow> framing_guard" where
  "new_guard n = \<lparr>max_body_bytes = n\<rparr>"

definition bad_header_byte :: "char \<Rightarrow> bool" where
  "bad_header_byte b \<longleftrightarrow> (ord b < 32 \<and> b \<noteq> CHR 0x09) \<or> ord b = 127"

definition check_header_value_bytes :: "string \<Rightarrow> string \<Rightarrow> framing_violation + unit" where
  "check_header_value_bytes name bytes =
     (if list_ex bad_header_byte bytes then Inl (IllegalHeaderCharacter name) else Inr ())"

definition cl_to_str :: "'h http_lib \<Rightarrow> string \<Rightarrow> framing_violation + string" where
  "cl_to_str L v =
     (case hv_to_str L v of
        None \<Rightarrow> Inl (MalformedContentLength ''Non-ASCII Content-Length'')
      | Some s \<Rightarrow> Inr s)"

text \<open>
  \<open>validate_content_length\<close>. It runs only when the header is present, so \<open>cl_values[0]\<close> exists:
  the list is not empty.
\<close>

definition validate_content_length ::
  "'h http_lib \<Rightarrow> framing_guard \<Rightarrow> 'h \<Rightarrow> framing_violation + unit" where
  "validate_content_length L g h =
     (let cl_values = hm_get_all L h ''content-length'' in
      result_bind
        (if length cl_values > 1 then
           result_bind (cl_to_str L (hd cl_values)) (\<lambda>first.
             for_each (\<lambda>val. result_bind (cl_to_str L val) (\<lambda>s.
                 if trim s \<noteq> trim first then Inl MultipleContentLengths else Inr ()))
               (tl cl_values))
         else Inr ())
        (\<lambda>_. result_bind (cl_to_str L (hd cl_values)) (\<lambda>cl_str.
          result_bind
            (if CHR '','' \<in> set cl_str then
               let parts = map trim (split_on CHR '','' cl_str) in
               for_each (\<lambda>part. if part \<noteq> hd parts then Inl MultipleContentLengths else Inr ())
                 (tl parts)
             else Inr ())
            (\<lambda>_. case parse_u64 (trim (hd (split_on CHR '','' cl_str))) of
                   None \<Rightarrow> Inl (MalformedContentLength cl_str)
                 | Some parsed_len \<Rightarrow>
                     if parsed_len > max_body_bytes g
                     then Inl (PayloadTooLarge (max_body_bytes g) parsed_len)
                     else Inr ()))))"

definition check_transfer_encoding :: "'h http_lib \<Rightarrow> string \<Rightarrow> framing_violation + unit" where
  "check_transfer_encoding L te =
     (case hv_to_str L te of
        None \<Rightarrow> Inl (UnsupportedTransferEncoding ''Non-ASCII Transfer-Encoding'')
      | Some te_str \<Rightarrow>
          if \<not> ends_with (lower (trim te_str)) ''chunked''
          then Inl (UnsupportedTransferEncoding te_str) else Inr ())"

definition check_get_length :: "'h http_lib \<Rightarrow> 'h \<Rightarrow> framing_violation + unit" where
  "check_get_length L h =
     (case Option.bind (hm_get L h ''content-length'') (hv_to_str L) of
        None \<Rightarrow> Inr ()
      | Some cl_val \<Rightarrow>
          (case parse_u64 (trim cl_val) of
             None \<Rightarrow> Inr ()
           | Some len \<Rightarrow>
               if len > 0
               then Inl (MalformedContentLength
                      (''GET/HEAD method carries Content-Length > 0 ('' @ show_word len @ '' bytes)''))
               else Inr ()))"

definition validate_headers ::
  "'h http_lib \<Rightarrow> framing_guard \<Rightarrow> 'h \<Rightarrow> string \<Rightarrow> framing_violation + unit" where
  "validate_headers L g h rmethod =
     (let has_cl = hm_contains_key L h ''content-length'';
          has_te = hm_contains_key L h ''transfer-encoding'' in
      if has_cl \<and> has_te then Inl ConflictingFraming
      else
        result_bind (if has_cl then validate_content_length L g h else Inr ()) (\<lambda>_.
        result_bind
          (if has_te then for_each (check_transfer_encoding L) (hm_get_all L h ''transfer-encoding'')
           else Inr ()) (\<lambda>_.
        result_bind
          (for_each (\<lambda>(name, val). check_header_value_bytes name val) (hm_iter L h)) (\<lambda>_.
        if (rmethod = ''GET'' \<or> rmethod = ''HEAD'') \<and> has_cl then check_get_length L h
        else Inr ()))))"

section \<open>Sanitisation of the identity headers\<close>

definition untrusted_headers :: "string list" where
  "untrusted_headers =
     [''X-Forwarded-For'', ''X-Forwarded-Proto'', ''X-Forwarded-Host'', ''X-Real-IP'',
      ''X-Client-IP'', ''CF-Connecting-IP'', ''True-Client-IP'']"

definition sanitize_ingress_headers :: "'h http_lib \<Rightarrow> 'h \<Rightarrow> ip_addr \<Rightarrow> 'h" where
  "sanitize_ingress_headers L h client_ip =
     (let h1 = fold (\<lambda>n h. hm_remove L h n) untrusted_headers h;
          h2 = (case hv_from_str L (show_ip client_ip) of
                  Some hv \<Rightarrow> hm_insert L (hm_insert L h1 ''X-Forwarded-For'' hv) ''X-Real-IP'' hv
                | None \<Rightarrow> h1)
      in hm_insert L h2 ''X-Forwarded-Proto'' ''https'')"

section \<open>The framing contract\<close>

text \<open>
  The lengths a request declares: one for each comma-separated member of each \<open>Content-Length\<close>
  field, \<^term>\<open>None\<close> for a member that is not a number.
\<close>

definition declared_lengths :: "'h http_lib \<Rightarrow> 'h \<Rightarrow> u64 option list" where
  "declared_lengths L h =
     map (\<lambda>p. parse_u64 (trim p))
       (concat (map (split_on CHR '','') (hm_get_all L h ''content-length'')))"

definition framing_ok :: "'h http_lib \<Rightarrow> framing_guard \<Rightarrow> 'h \<Rightarrow> bool" where
  "framing_ok L g h \<longleftrightarrow>
     (hm_get_all L h ''content-length'' = [] \<or> hm_get_all L h ''transfer-encoding'' = []) \<and>
     (hm_get_all L h ''content-length'' \<noteq> [] \<longrightarrow>
        (\<exists>n \<le> max_body_bytes g. \<forall>d \<in> set (declared_lengths L h). d = Some n)) \<and>
     (\<forall>te \<in> set (hm_get_all L h ''transfer-encoding'').
        ends_with (lower (trim te)) ''chunked'') \<and>
     (\<forall>(name, val) \<in> set (hm_iter L h). \<forall>b \<in> set val. \<not> bad_header_byte b)"

lemma cl_to_str_Inr:
  "http_laws L \<Longrightarrow> cl_to_str L v = Inr s \<longleftrightarrow> s = v \<and> list_all visible_byte v"
  by (auto simp: cl_to_str_def to_str_eq)

lemma trim_visible: "list_all visible_byte s \<Longrightarrow> trim s = strip_by ascii_ws s"
  by (rule trim_ascii) (rule visible_ascii)

lemma split_on_visible:
  "list_all visible_byte s \<Longrightarrow> p \<in> set (split_on c s) \<Longrightarrow> list_all visible_byte p"
  using split_on_pieces [of p c s] by (auto simp: list_all_iff)

text \<open>Two field values that agree after trimming have the same trimmed members.\<close>

lemma trimmed_members_cong:
  assumes "list_all visible_byte s" "list_all visible_byte t" "trim s = trim t"
  shows "map trim (split_on CHR '','' s) = map trim (split_on CHR '','' t)"
proof -
  have m: "map trim (split_on CHR '','' u) =
      map (strip_by ascii_ws) (split_by (\<lambda>b. b = CHR '','') (strip_by ascii_ws u))"
    if "list_all visible_byte u" for u
  proof -
    have "map trim (split_on CHR '','' u) = map (strip_by ascii_ws) (split_on CHR '','' u)"
      using that by (auto simp: trim_visible split_on_visible)
    then show ?thesis
      by (subst split_by_strip) (auto simp: split_on_def ascii_ws_def ord_def)
  qed
  show ?thesis using assms by (simp add: m trim_visible)
qed

lemma content_length_accepted:
  assumes L: "http_laws L" and ne: "hm_get_all L h ''content-length'' \<noteq> []"
    and ok: "validate_content_length L g h = Inr ()"
  shows "\<exists>n \<le> max_body_bytes g. \<forall>d \<in> set (declared_lengths L h). d = Some n"
proof -
  obtain v vs where vs: "hm_get_all L h ''content-length'' = v # vs"
    using ne by (cases "hm_get_all L h ''content-length''") auto
  let ?ps = "map trim (split_on CHR '','' v)"
  have vis: "list_all visible_byte v" and
    eq: "\<And>w. w \<in> set vs \<Longrightarrow> list_all visible_byte w \<and> trim w = trim v" and
    parts: "\<And>p. CHR '','' \<in> set v \<Longrightarrow> p \<in> set (tl ?ps) \<Longrightarrow> p = hd ?ps"
    using ok L by (auto simp: validate_content_length_def vs Let_def cl_to_str_Inr split: if_splits)
  obtain n where n: "parse_u64 (trim (hd (split_on CHR '','' v))) = Some n" "n \<le> max_body_bytes g"
    using ok L by (auto simp: validate_content_length_def vs Let_def cl_to_str_Inr
        split: option.splits if_splits)
  have hd: "hd ?ps = trim (hd (split_on CHR '','' v))"
    by (simp add: hd_map)
  have all: "p = hd ?ps" if "p \<in> set ?ps" for p
  proof (cases "CHR '','' \<in> set v")
    case True
    have "?ps \<noteq> []" by simp
    with that have "p = hd ?ps \<or> p \<in> set (tl ?ps)"
      by (cases ?ps) auto
    with parts [OF True] show ?thesis by blast
  next
    case False
    with that show ?thesis by simp
  qed
  have "map trim (split_on CHR '','' w) = ?ps" if "w \<in> set (v # vs)" for w
    using that eq vis trimmed_members_cong [of w v] by auto
  then have "trim p \<in> set ?ps" if "w \<in> set (v # vs)" "p \<in> set (split_on CHR '','' w)" for w p
    using that by (metis image_eqI image_set)
  then have "\<forall>d \<in> set (declared_lengths L h). d = Some n"
    using all hd n(1) unfolding declared_lengths_def vs by fastforce
  with n(2) show ?thesis by blast
qed

lemma check_transfer_encoding_ok:
  "http_laws L \<Longrightarrow> check_transfer_encoding L te = Inr () \<longleftrightarrow>
     list_all visible_byte te \<and> ends_with (lower (trim te)) ''chunked''"
  by (auto simp: check_transfer_encoding_def to_str_eq)

lemma check_header_value_bytes_ok [simp]:
  "check_header_value_bytes n v = Inr () \<longleftrightarrow> (\<forall>b \<in> set v. \<not> bad_header_byte b)"
  by (auto simp: check_header_value_bytes_def list_ex_iff)

lemma validate_ok:
  assumes "http_laws L" and "validate_headers L g h m = Inr ()"
  shows "framing_ok L g h"
proof -
  let ?cl = "hm_get_all L h ''content-length''" and ?te = "hm_get_all L h ''transfer-encoding''"
  from assms have c: "?cl = [] \<or> ?te = []"
    by (auto simp: validate_headers_def Let_def contains_key_iff split: if_splits)
  from assms have te: "\<forall>te \<in> set ?te. ends_with (lower (trim te)) ''chunked''"
    by (auto simp: validate_headers_def Let_def contains_key_iff check_transfer_encoding_ok
        split: if_splits)
  from assms have cl: "?cl \<noteq> [] \<longrightarrow> validate_content_length L g h = Inr ()"
    by (auto simp: validate_headers_def Let_def contains_key_iff split: if_splits)
  from assms have hy: "\<forall>(n, v) \<in> set (hm_iter L h). \<forall>b \<in> set v. \<not> bad_header_byte b"
    by (auto simp: validate_headers_def Let_def split: if_splits)
  from c te cl hy content_length_accepted [OF assms(1)] show ?thesis
    unfolding framing_ok_def by blast
qed



section \<open>Completeness on well-formed requests\<close>

lemma show_word_visible: "list_all visible_byte (show_word w)"
  using show_word_digits [of w]
  by (auto simp: list_all_iff is_digit_def visible_byte_def)

lemma validate_content_length_canonical:
  assumes "http_laws L" "hm_get_all L h ''content-length'' = [show_word n]"
  shows "validate_content_length L g h =
    (if n > max_body_bytes g then Inl (PayloadTooLarge (max_body_bytes g) n) else Inr ())"
  using assms
  by (simp add: validate_content_length_def Let_def cl_to_str_def to_str_eq show_word_visible)

lemma check_get_length_canonical:
  assumes "http_laws L" "hm_get_all L h ''content-length'' = [show_word (n :: u64)]"
  shows "check_get_length L h = Inr () \<longleftrightarrow> n = 0"
  using assms
  by (simp add: check_get_length_def get_eq to_str_eq show_word_visible word_gt_0)

definition clean_headers :: "'h http_lib \<Rightarrow> 'h \<Rightarrow> bool" where
  "clean_headers L h \<longleftrightarrow> (\<forall>(n, v) \<in> set (hm_iter L h). \<forall>b \<in> set v. \<not> bad_header_byte b)"

lemma hygiene_iff:
  "for_each (\<lambda>(n, v). check_header_value_bytes n v) (hm_iter L h) = Inr () \<longleftrightarrow> clean_headers L h"
  by (auto simp: clean_headers_def)

lemma chunked_ok: "http_laws L \<Longrightarrow> check_transfer_encoding L ''chunked'' = Inr ()"
proof -
  have "list_all visible_byte ''chunked'' \<and> ends_with (lower (trim ''chunked'')) ''chunked''"
    by code_simp
  then show "http_laws L \<Longrightarrow> ?thesis" by (simp add: check_transfer_encoding_ok)
qed

text \<open>C34: requests in canonical form are let through: clean headers and either one decimal
  \<open>Content-Length\<close> within the limit (zero for \<open>GET\<close> and \<open>HEAD\<close>) and no \<open>Transfer-Encoding\<close>, or no
  \<open>Content-Length\<close> and only \<open>Transfer-Encoding: chunked\<close> fields.\<close>

theorem framing_accepts_canonical:
  fixes n :: u64
  assumes "http_laws L" and "clean_headers L h"
    and "(hm_get_all L h ''transfer-encoding'' = [] \<and>
          hm_get_all L h ''content-length'' = [show_word n] \<and> n \<le> max_body_bytes g \<and>
          (m = ''GET'' \<or> m = ''HEAD'' \<longrightarrow> n = 0)) \<or>
         (hm_get_all L h ''content-length'' = [] \<and>
          set (hm_get_all L h ''transfer-encoding'') \<subseteq> {''chunked''})"
  shows "validate_headers L g h m = Inr ()"
  using assms(3)
proof (elim disjE conjE)
  assume "hm_get_all L h ''transfer-encoding'' = []"
    and cl: "hm_get_all L h ''content-length'' = [show_word n]"
    and "n \<le> max_body_bytes g" "m = ''GET'' \<or> m = ''HEAD'' \<longrightarrow> n = 0"
  with assms(1,2) validate_content_length_canonical [OF assms(1) cl]
    check_get_length_canonical [OF assms(1) cl]
  show ?thesis
    by (auto simp: validate_headers_def Let_def contains_key_iff hygiene_iff simp del: for_each_ok
        dest: leD)
next
  assume "hm_get_all L h ''content-length'' = []"
    and te: "set (hm_get_all L h ''transfer-encoding'') \<subseteq> {''chunked''}"
  moreover have "for_each (check_transfer_encoding L) (hm_get_all L h ''transfer-encoding'') = Inr ()"
    using te chunked_ok [OF assms(1)] by auto
  ultimately show ?thesis
    using assms(1,2)
    by (simp add: validate_headers_def Let_def contains_key_iff hygiene_iff del: for_each_ok)
qed

theorem framing_accepts_canonical_witness:
  "validate_headers assoc_http (new_guard 1024) [(''content-length'', show_word (1024 :: u64))] ''POST''
     = Inr ()"
  by (rule framing_accepts_canonical [where n = 1024, OF assoc_http_laws])
     (simp_all add: clean_headers_def assoc_http_def ah_get_all_def new_guard_def lower_def
        lower_byte_def ord_def bad_header_byte_def, code_simp)

section \<open>Every rejection has its cause\<close>

fun violation_holds ::
  "'h http_lib \<Rightarrow> framing_guard \<Rightarrow> 'h \<Rightarrow> string \<Rightarrow> framing_violation \<Rightarrow> bool" where
  "violation_holds L g h m ConflictingFraming =
     (hm_get_all L h ''content-length'' \<noteq> [] \<and> hm_get_all L h ''transfer-encoding'' \<noteq> [])"
| "violation_holds L g h m MultipleContentLengths =
     ((\<exists>v \<in> set (hm_get_all L h ''content-length'').
       \<exists>w \<in> set (hm_get_all L h ''content-length''). trim v \<noteq> trim w) \<or>
      (\<exists>v \<in> set (hm_get_all L h ''content-length''). \<exists>p \<in> set (split_on CHR '','' v).
       \<exists>q \<in> set (split_on CHR '','' v). trim p \<noteq> trim q))"
| "violation_holds L g h m (MalformedContentLength s) =
     ((\<exists>v \<in> set (hm_get_all L h ''content-length''). \<not> list_all visible_byte v) \<or>
      None \<in> set (declared_lengths L h) \<or>
      (m \<in> {''GET'', ''HEAD''} \<and>
       (\<exists>v \<in> set (hm_get_all L h ''content-length''). \<exists>n > 0. parse_u64 (trim v) = Some n)))"
| "violation_holds L g h m (UnsupportedTransferEncoding s) =
     (\<exists>te \<in> set (hm_get_all L h ''transfer-encoding'').
        \<not> list_all visible_byte te \<or> \<not> ends_with (lower (trim te)) ''chunked'')"
| "violation_holds L g h m (IllegalHeaderCharacter nm) =
     (\<exists>v. (nm, v) \<in> set (hm_iter L h) \<and> (\<exists>b \<in> set v. bad_header_byte b))"
| "violation_holds L g h m (PayloadTooLarge l r) =
     (l = max_body_bytes g \<and> l < r \<and> Some r \<in> set (declared_lengths L h))"

lemma declared_first:
  "hm_get_all L h ''content-length'' = v # vs \<Longrightarrow>
     parse_u64 (trim (hd (split_on CHR '','' v))) \<in> set (declared_lengths L h)"
  by (cases "split_on CHR '','' v") (simp_all add: declared_lengths_def)

lemma cl_to_str_Inl:
  "http_laws L \<Longrightarrow> cl_to_str L v = Inl e \<longleftrightarrow>
     \<not> list_all visible_byte v \<and> e = MalformedContentLength ''Non-ASCII Content-Length''"
  by (auto simp: cl_to_str_def to_str_eq)

lemma content_length_chain:
  assumes "result_bind (if A then result_bind a F else Inr ())
     (\<lambda>_. result_bind a (\<lambda>s. result_bind (if B s then P s else Inr ())
       (\<lambda>_. case N s of None \<Rightarrow> Inl (M s) | Some n \<Rightarrow> if n > mx then Inl (T n) else Inr ()))) = Inl e"
    and "\<And>s. a = Inr s \<Longrightarrow> s = v"
  shows "a = Inl e \<or> F v = Inl e \<or> P v = Inl e \<or> (N v = None \<and> e = M v) \<or>
    (\<exists>n. N v = Some n \<and> n > mx \<and> e = T n)"
  using assms by (cases a) (auto simp: result_bind_eq_Inl split: if_splits option.splits)

lemma content_length_error:
  assumes L: "http_laws L" and ne: "hm_get_all L h ''content-length'' = v # vs"
    and err: "validate_content_length L g h = Inl e"
  shows "violation_holds L g h m e"
proof -
  have hd: "hd (map trim (split_on CHR '','' v)) = trim (hd (split_on CHR '','' v))"
    by (simp add: hd_map)
  have hd_in: "hd (split_on CHR '','' v) \<in> set (split_on CHR '','' v)" by simp
  obtain w ws where sv: "split_on CHR '','' v = w # ws"
    by (cases "split_on CHR '','' v") auto
  have tl_in: "\<exists>q \<in> set (split_on CHR '','' v). p = trim q"
    if "p \<in> set (tl (map trim (split_on CHR '','' v)))" for p
    using that unfolding sv by auto
  from err consider
      (field) "for_each (\<lambda>val. result_bind (cl_to_str L val) (\<lambda>s.
                 if trim s \<noteq> trim v then Inl MultipleContentLengths else Inr ())) vs = Inl e"
    | (ascii) "cl_to_str L v = Inl e"
    | (part) "for_each (\<lambda>part. if part \<noteq> hd (map trim (split_on CHR '','' v))
                 then Inl MultipleContentLengths else Inr ())
                 (tl (map trim (split_on CHR '','' v))) = Inl e"
    | (number) s where "parse_u64 (trim (hd (split_on CHR '','' v))) = None"
        "e = MalformedContentLength s"
    | (large) n where "parse_u64 (trim (hd (split_on CHR '','' v))) = Some n"
        "n > max_body_bytes g" "e = PayloadTooLarge (max_body_bytes g) n"
    using content_length_chain [OF err [unfolded validate_content_length_def ne Let_def list.sel],
        of v] cl_to_str_Inr [OF L, of v] by blast
  then show ?thesis
  proof cases
    case field
    then show ?thesis
      using L ne by (auto dest!: for_each_err simp: result_bind_eq_Inl cl_to_str_Inl cl_to_str_Inr
          split: if_splits)
  next
    case ascii
    then show ?thesis using L ne by (auto simp: cl_to_str_Inl)
  next
    case part
    from for_each_err [OF part] obtain p where
      p: "p \<in> set (tl (map trim (split_on CHR '','' v)))"
      and i: "(if p \<noteq> hd (map trim (split_on CHR '','' v))
               then Inl MultipleContentLengths else Inr ()) = Inl e"
      by blast
    from i have "p \<noteq> trim (hd (split_on CHR '','' v))" and e: "e = MultipleContentLengths"
      unfolding hd by (simp_all split: if_splits)
    moreover from tl_in [OF p] obtain q where "q \<in> set (split_on CHR '','' v)" "p = trim q"
      by blast
    ultimately have "\<exists>v \<in> set (hm_get_all L h ''content-length'').
        \<exists>p \<in> set (split_on CHR '','' v). \<exists>q \<in> set (split_on CHR '','' v). trim p \<noteq> trim q"
      unfolding ne using hd_in by (metis list.set_intros(1))
    then show ?thesis unfolding e by simp
  next
    case number
    then show ?thesis using declared_first [OF ne] by auto
  next
    case large
    then show ?thesis using declared_first [OF ne] by auto
  qed
qed

lemma get_length_error:
  assumes "http_laws L" "check_get_length L h = Inl e" "m \<in> {''GET'', ''HEAD''}"
  shows "violation_holds L g h m e"
  using assms by (cases "hm_get_all L h ''content-length''")
    (auto simp: check_get_length_def get_eq to_str_eq split: option.splits if_splits)

text \<open>The stages of the validation: an error comes from one of them.\<close>

lemma guard_chain:
  assumes "(if A \<and> B then Inl c
     else result_bind (if A then x else Inr ()) (\<lambda>_. result_bind (if B then y else Inr ()) (\<lambda>_.
          result_bind z (\<lambda>_. if C \<and> A then w else Inr ())))) = Inl e"
  shows "(A \<and> B \<and> e = c) \<or> (A \<and> x = Inl e) \<or> y = Inl e \<or> z = Inl e \<or> (C \<and> w = Inl e)"
  using assms by (auto simp: result_bind_eq_Inl split: if_splits)

text \<open>C33: every rejection is justified: the violation the guard reports is a fact about the
  request (both framing headers present, two lengths that differ, a field or member that is not a
  number, a length above the limit, an encoding that does not end in \<open>chunked\<close>, a control byte in
  the named header).\<close>

theorem framing_rejects_with_cause:
  assumes "http_laws L" and "validate_headers L g h m = Inl e"
  shows "violation_holds L g h m e"
proof -
  let ?cl = "hm_get_all L h ''content-length''" and ?te = "hm_get_all L h ''transfer-encoding''"
  let ?hy = "for_each (\<lambda>(n, v). check_header_value_bytes n v) (hm_iter L h)"
  have unfold: "validate_headers L g h m =
      (if ?cl \<noteq> [] \<and> ?te \<noteq> [] then Inl ConflictingFraming
       else result_bind (if ?cl \<noteq> [] then validate_content_length L g h else Inr ()) (\<lambda>_.
         result_bind (if ?te \<noteq> [] then for_each (check_transfer_encoding L) ?te else Inr ()) (\<lambda>_.
         result_bind ?hy (\<lambda>_.
         if (m = ''GET'' \<or> m = ''HEAD'') \<and> ?cl \<noteq> [] then check_get_length L h else Inr ()))))"
    by (simp only: validate_headers_def Let_def contains_key_iff [OF assms(1)])
  consider
      (both) "?cl \<noteq> []" "?te \<noteq> []" "e = ConflictingFraming"
    | (cl) "?cl \<noteq> []" "validate_content_length L g h = Inl e"
    | (te) "for_each (check_transfer_encoding L) ?te = Inl e"
    | (hygiene) "?hy = Inl e"
    | (get) "m \<in> {''GET'', ''HEAD''}" "check_get_length L h = Inl e"
    using guard_chain [OF assms(2) [unfolded unfold]] by blast
  then show ?thesis
  proof cases
    case both
    then show ?thesis by simp
  next
    case cl
    then show ?thesis
      using content_length_error [OF assms(1)] by (cases ?cl) auto
  next
    case te
    then show ?thesis using assms(1)
      by (fastforce dest!: for_each_err simp: check_transfer_encoding_def to_str_eq split: if_splits)
  next
    case hygiene
    then show ?thesis
      by (fastforce dest!: for_each_err simp: check_header_value_bytes_def list_ex_iff split: if_splits)
  next
    case get
    then show ?thesis using get_length_error [OF assms(1)] by blast
  qed
qed

theorem framing_rejects_with_cause_witness:
  "validate_headers assoc_http default_guard [(''x-a'', [CHR 0x1B])] ''GET''
     = Inl (IllegalHeaderCharacter ''x-a'') \<and>
   violation_holds assoc_http default_guard [(''x-a'', [CHR 0x1B])] ''GET''
     (IllegalHeaderCharacter ''x-a'')"
proof -
  have v: "validate_headers assoc_http default_guard [(''x-a'', [CHR 0x1B])] ''GET''
     = Inl (IllegalHeaderCharacter ''x-a'')"
    by code_simp
  show ?thesis using v framing_rejects_with_cause [OF assoc_http_laws v] by simp
qed

section \<open>The list form of a length\<close>

text \<open>The rule that a \<open>GET\<close> or \<open>HEAD\<close> must not declare a body holds for the plain form of the
  length only. A positive \<open>Content-Length: n\<close> is rejected, while the same length written as the list
  \<open>n, n\<close> is let through, because the method check parses the whole field as one number and ignores
  a failure.\<close>

theorem framing_get_list_length:
  assumes "http_laws L" and "0 < n" and "n \<le> max_body_bytes g"
    and "m = ''GET'' \<or> m = ''HEAD''"
    and "hm_get_all L h ''content-length'' = [show_word n @ '', '' @ show_word n]"
    and "clean_headers L h" and "hm_get_all L h ''transfer-encoding'' = []"
    and "hm_get_all L h' ''content-length'' = [show_word n]"
    and "clean_headers L h'" and "hm_get_all L h' ''transfer-encoding'' = []"
  shows "validate_headers L g h m = Inr () \<and>
    (\<exists>s. validate_headers L g h' m = Inl (MalformedContentLength s))"
proof
  let ?v = "show_word n @ '', '' @ show_word n"
  have vis: "list_all visible_byte ?v"
    using show_word_visible [of n] by (simp add: visible_byte_def ord_def)
  have ends: "?v \<noteq> []" "\<not> ascii_ws (hd ?v)" "\<not> ascii_ws (last ?v)"
    using show_word_digits [of n] by (auto simp: list_all_iff digit_props)
  have tv: "trim ?v = ?v"
    using ends by (simp only: trim_visible [OF vis], intro strip_by_id) blast
  have split: "split_on CHR '','' ?v = [show_word n, '' '' @ show_word n]"
    using split_on_append_sep [of "CHR '',''" "show_word n" "'' '' @ show_word n"]
    by (simp add: split_on_none)
  have t2: "trim ('' '' @ show_word n) = show_word n"
  proof -
    have "list_all visible_byte ('' '' @ show_word n)" using vis by simp
    then show ?thesis
      using trim_show_word [of n] trim_visible [OF show_word_visible, of n]
      by (simp add: trim_visible strip_by_Cons ascii_ws_def ord_def)
  qed
  have vcl: "validate_content_length L g h = Inr ()"
    using assms(1,3,5) vis split t2
    by (auto simp: validate_content_length_def Let_def cl_to_str_def to_str_eq not_less)
  have "parse_u64 ?v = None"
    by (rule parse_u64_None) (auto simp: is_digit_def ord_def)
  then have "check_get_length L h = Inr ()"
    using assms(1,5) vis tv by (simp add: check_get_length_def get_eq to_str_eq)
  then show "validate_headers L g h m = Inr ()"
    using assms(1,5-7) vcl
    by (simp add: validate_headers_def Let_def contains_key_iff hygiene_iff del: for_each_ok)
  have "validate_content_length L g h' = Inr ()"
    using assms(3) validate_content_length_canonical [OF assms(1,8)] by (auto dest: leD)
  moreover have "\<exists>s. check_get_length L h' = Inl (MalformedContentLength s)"
    using assms(1,2,8) by (simp add: check_get_length_def get_eq to_str_eq show_word_visible)
  moreover have "for_each (\<lambda>(n, v). check_header_value_bytes n v) (hm_iter L h') = Inr ()"
    using assms(9) by (simp only: hygiene_iff)
  ultimately show "\<exists>s. validate_headers L g h' m = Inl (MalformedContentLength s)"
    using assms(1,4,8,10)
    by (auto simp: validate_headers_def Let_def contains_key_iff simp del: for_each_ok)
qed

theorem framing_get_list_length_witness:
  "validate_headers assoc_http default_guard
     [(''content-length'', show_word (5 :: u64) @ '', '' @ show_word (5 :: u64))] ''GET'' = Inr () \<and>
   (\<exists>s. validate_headers assoc_http default_guard
     [(''content-length'', show_word (5 :: u64))] ''GET'' = Inl (MalformedContentLength s))"
proof (rule framing_get_list_length [OF assoc_http_laws, where n = 5])
  show "(0 :: u64) < 5" "(5 :: u64) \<le> max_body_bytes default_guard"
    by (simp_all add: default_guard_def)
qed code_simp+

text \<open>
  The encoding test is a suffix test on the whole field, so a coding whose name merely ends in
  \<open>chunked\<close> passes it.
\<close>

lemma transfer_encoding_suffix_accepted:
  "validate_headers assoc_http default_guard [(''transfer-encoding'', ''not-chunked'')] ''POST''
     = Inr ()"
  by code_simp

text \<open>The response to a violation carries status 413 exactly for an oversized payload and 400 for
  every other violation, its content type is plain text, and its body starts with
  \<open>400 Bad Request: \<close> for every violation, so for an oversized payload the body contradicts the
  status.\<close>

theorem public_response_contract:
  assumes "http_laws L"
  shows "rs_status (public_response L v) = (case v of PayloadTooLarge _ _ \<Rightarrow> 413 | _ \<Rightarrow> 400) \<and>
    hm_get_all L (rs_headers (public_response L v)) ''Content-Type'' = [''text/plain; charset=utf-8''] \<and>
    rs_body (public_response L v) = ''400 Bad Request: '' @ violation_message v @ [CHR 0x0A]"
proof -
  have "lower ''Content-Type'' = lower ''content-type''" by code_simp
  with assms show ?thesis
    by (cases v) (simp_all add: public_response_def get_all_insert)
qed

theorem public_response_contract_witness:
  "rs_status (public_response assoc_http (PayloadTooLarge 1024 2048)) = 413 \<and>
   hm_get_all assoc_http (rs_headers (public_response assoc_http (PayloadTooLarge 1024 2048)))
     ''Content-Type'' = [''text/plain; charset=utf-8''] \<and>
   rs_body (public_response assoc_http (PayloadTooLarge 1024 2048)) =
     ''400 Bad Request: '' @ violation_message (PayloadTooLarge 1024 2048) @ [CHR 0x0A]"
  using public_response_contract [OF assoc_http_laws, of "PayloadTooLarge 1024 2048"] by simp

section \<open>The sanitised identity headers\<close>

lemma get_all_fold_remove:
  "http_laws L \<Longrightarrow> hm_get_all L (fold (\<lambda>n h. hm_remove L h n) ns h) m =
     (if lower m \<in> lower ` set ns then [] else hm_get_all L h m)"
  by (induction ns arbitrary: h) (auto simp: get_all_remove)

lemma lower_untrusted:
  "lower ` set untrusted_headers =
     {''x-forwarded-for'', ''x-forwarded-proto'', ''x-forwarded-host'', ''x-real-ip'',
      ''x-client-ip'', ''cf-connecting-ip'', ''true-client-ip''}"
proof -
  have "map lower untrusted_headers =
     [''x-forwarded-for'', ''x-forwarded-proto'', ''x-forwarded-host'', ''x-real-ip'',
      ''x-client-ip'', ''cf-connecting-ip'', ''true-client-ip'']"
    by code_simp
  then have "set (map lower untrusted_headers) =
     set [''x-forwarded-for'', ''x-forwarded-proto'', ''x-forwarded-host'', ''x-real-ip'',
      ''x-client-ip'', ''cf-connecting-ip'', ''true-client-ip'']"
    by (rule arg_cong)
  then show ?thesis by (simp only: set_map list.set)
qed

lemma lower_identity_names:
  "lower ''X-Forwarded-For'' = ''x-forwarded-for''"
  "lower ''X-Real-IP'' = ''x-real-ip''"
  "lower ''X-Forwarded-Proto'' = ''x-forwarded-proto''"
  by code_simp+

text \<open>The headers after the sanitisation, name by name: the forwarding address and the real
  address are the socket peer's and nothing else, the protocol is \<open>https\<close>, the other identity
  headers a client could have sent are gone, and every other header is as it was.\<close>

lemma get_all_sanitize:
  assumes "http_laws L"
  shows "hm_get_all L (sanitize_ingress_headers L h ip) n =
    (if lower n = ''x-forwarded-for'' \<or> lower n = ''x-real-ip'' then [show_ip ip]
     else if lower n = ''x-forwarded-proto'' then [''https'']
     else if lower n \<in> {''x-forwarded-host'', ''x-client-ip'', ''cf-connecting-ip'', ''true-client-ip''}
     then [] else hm_get_all L h n)"
  using assms
  by (simp add: sanitize_ingress_headers_def Let_def from_str_eq show_ip_value get_all_insert
      get_all_fold_remove lower_untrusted lower_identity_names)

end
