(* ===== verification/Config.thy ===== *)
theory Config
  imports Net_Addr
begin

text \<open>
  \<open>src/config/mod.rs\<close> and \<open>src/config/route.rs\<close>: the configuration records with their default
  values, the resolution of a route's upstreams and the validation of a loaded file. The TOML
  deserialiser and the file system are arguments. The lemmas characterise which configurations are
  valid and what the resolved upstream list of a route is.
\<close>

section \<open>Records and defaults\<close>

record route_config =
  rc_domains :: "string list"
  rc_upstream :: "socket_addr option"
  rc_upstreams :: "socket_addr list option"
  rc_cert :: string
  rc_key :: string
  rc_websocket :: bool
  rc_hedged_racing :: "bool option"

record server_config =
  http_bind :: socket_addr
  https_bind :: socket_addr
  acme_webroot :: "string option"
  worker_threads :: "usize option"

record security_config =
  enable_defense :: bool
  abuseipdb_api_key :: "string option"
  webhook_url :: "string option"
  syslog_cef :: bool
  server_banner :: string
  hsts :: bool
  frame_options :: string
  quarantine_db :: "string option"
  control_socket :: "string option"
  persist_quarantine :: bool
  trusted_cidrs :: "string list"

record maintenance_settings =
  hygiene_interval_secs :: u64
  max_telemetry_records :: usize
  memory_vacuum :: bool

record propylea_config =
  cfg_server :: server_config
  cfg_security :: security_config
  cfg_maintenance :: maintenance_settings
  cfg_routes :: "route_config list"

definition default_server :: server_config where
  "default_server =
     \<lparr>http_bind = \<lparr>sa_ip = V4 0 0 0 0, sa_port = 80\<rparr>,
      https_bind = \<lparr>sa_ip = V4 0 0 0 0, sa_port = 443\<rparr>,
      acme_webroot = Some ''/var/www/letsencrypt'',
      worker_threads = None\<rparr>"

definition default_security :: security_config where
  "default_security =
     \<lparr>enable_defense = True, abuseipdb_api_key = None, webhook_url = None, syslog_cef = False,
      server_banner = ''Propylea-Edge-Gateway/1.0'', hsts = True, frame_options = ''DENY'',
      quarantine_db = None, control_socket = None, persist_quarantine = True,
      trusted_cidrs = []\<rparr>"

definition default_maintenance :: maintenance_settings where
  "default_maintenance =
     \<lparr>hygiene_interval_secs = 300, max_telemetry_records = 10000, memory_vacuum = True\<rparr>"

definition default_config :: propylea_config where
  "default_config =
     \<lparr>cfg_server = default_server, cfg_security = default_security,
      cfg_maintenance = default_maintenance, cfg_routes = []\<rparr>"

section \<open>Paths\<close>

text \<open>\<open>PathBuf::join\<close> on Unix: an absolute argument replaces the base.\<close>

definition path_join :: "string \<Rightarrow> string \<Rightarrow> string" where
  "path_join p q =
     (if starts_with q ''/'' then q
      else if p = [] \<or> last p = CHR ''/'' then p @ q else p @ ''/'' @ q)"

text \<open>
  What the code asks of the environment: whether a directory can be created, and \<open>$HOME\<close>.
\<close>

record env =
  can_create :: "string \<Rightarrow> bool"
  home_var :: "string option"

definition resolved_quarantine_db :: "env \<Rightarrow> security_config \<Rightarrow> string" where
  "resolved_quarantine_db e c =
     (case quarantine_db c of
        Some p \<Rightarrow> p
      | None \<Rightarrow>
          if can_create e ''/var/lib/propylea'' then ''/var/lib/propylea/quarantine.db''
          else case home_var e of
                 Some home \<Rightarrow> path_join home ''.local/share/propylea/quarantine.db''
               | None \<Rightarrow> ''./data/quarantine.db'')"

definition resolved_control_socket :: "env \<Rightarrow> security_config \<Rightarrow> string" where
  "resolved_control_socket e c =
     (case control_socket c of
        Some p \<Rightarrow> p
      | None \<Rightarrow>
          if can_create e ''/run/propylea'' then ''/run/propylea/control.sock''
          else ''/tmp/propylea_control.sock'')"

section \<open>Routes\<close>

datatype config_error =
    ConfigIo string string
  | ConfigToml string
  | ConfigValidation string

fun config_error_message :: "config_error \<Rightarrow> string" where
  "config_error_message (ConfigIo p e) =
     ''I/O error reading config file '' @ [CHR 0x27] @ p @ [CHR 0x27] @ '': '' @ e"
| "config_error_message (ConfigToml e) = ''TOML syntax/deserialization error: '' @ e"
| "config_error_message (ConfigValidation m) = ''Validation error: '' @ m"

definition push_new :: "'a list \<Rightarrow> 'a \<Rightarrow> 'a list" where
  "push_new xs u = (if u \<in> set xs then xs else xs @ [u])"

definition upstream_list :: "route_config \<Rightarrow> socket_addr list" where
  "upstream_list r =
     foldl push_new
       (case rc_upstream r of Some u \<Rightarrow> [u] | None \<Rightarrow> [])
       (case rc_upstreams r of Some ups \<Rightarrow> ups | None \<Rightarrow> [])"

definition resolved_upstreams :: "route_config \<Rightarrow> config_error + socket_addr list" where
  "resolved_upstreams r =
     (let xs = upstream_list r in
      if xs = [] then
        Inl (ConfigValidation
          (''Route must specify either '' @ [CHR 0x27] @ ''upstream'' @ [CHR 0x27] @ '' or '' @
           [CHR 0x27] @ ''upstreams'' @ [CHR 0x27]))
      else Inr xs)"

definition fallback_upstream :: socket_addr where
  "fallback_upstream = \<lparr>sa_ip = V4 127 0 0 1, sa_port = 8080\<rparr>"

definition primary_upstream :: "route_config \<Rightarrow> socket_addr" where
  "primary_upstream r =
     (case resolved_upstreams r of
        Inr (u # _) \<Rightarrow> u
      | _ \<Rightarrow> fallback_upstream)"

definition single_route ::
  "string list \<Rightarrow> socket_addr \<Rightarrow> string \<Rightarrow> string \<Rightarrow> bool \<Rightarrow> route_config" where
  "single_route domains upstream cert key websocket =
     \<lparr>rc_domains = domains, rc_upstream = Some upstream, rc_upstreams = None, rc_cert = cert,
      rc_key = key, rc_websocket = websocket, rc_hedged_racing = None\<rparr>"

section \<open>Validation and loading\<close>

definition validate_route :: "nat \<times> route_config \<Rightarrow> config_error + unit" where
  "validate_route = (\<lambda>(i, r).
     if rc_domains r = [] then
       Inl (ConfigValidation (''Route['' @ show_nat i @ ''] has no domains configured''))
     else case resolved_upstreams r of
       Inl e \<Rightarrow> Inl (ConfigValidation
         (''Route['' @ show_nat i @ ''] invalid upstream configuration: '' @ config_error_message e))
     | Inr _ \<Rightarrow> Inr ())"

definition validate_config :: "propylea_config \<Rightarrow> config_error + unit" where
  "validate_config c =
     (if cfg_routes c = [] then
        Inl (ConfigValidation ''At least one [[routes]] entry must be defined'')
      else for_each validate_route (enumerate 0 (cfg_routes c)))"

text \<open>\<open>toml\<close> is the deserialiser, \<open>read\<close> the file system.\<close>

definition config_from_str ::
  "(string \<Rightarrow> string + propylea_config) \<Rightarrow> string \<Rightarrow> config_error + propylea_config" where
  "config_from_str toml s =
     (case toml s of
        Inl e \<Rightarrow> Inl (ConfigToml e)
      | Inr c \<Rightarrow> result_bind (validate_config c) (\<lambda>_. Inr c))"

definition load_from_file ::
  "(string \<Rightarrow> string + string) \<Rightarrow> (string \<Rightarrow> string + propylea_config) \<Rightarrow> string
     \<Rightarrow> config_error + propylea_config" where
  "load_from_file read toml p =
     (case read p of
        Inl e \<Rightarrow> Inl (ConfigIo p e)
      | Inr content \<Rightarrow> config_from_str toml content)"

section \<open>What the validation guarantees\<close>

definition valid_route :: "route_config \<Rightarrow> bool" where
  "valid_route r \<longleftrightarrow>
     rc_domains r \<noteq> [] \<and>
     (rc_upstream r \<noteq> None \<or> (\<exists>ups. rc_upstreams r = Some ups \<and> ups \<noteq> []))"

definition valid_config :: "propylea_config \<Rightarrow> bool" where
  "valid_config c \<longleftrightarrow> cfg_routes c \<noteq> [] \<and> (\<forall>r \<in> set (cfg_routes c). valid_route r)"

lemma set_foldl_push_new: "set (foldl push_new xs ys) = set xs \<union> set ys"
  by (induction ys arbitrary: xs) (auto simp: push_new_def)

lemma distinct_foldl_push_new: "distinct xs \<Longrightarrow> distinct (foldl push_new xs ys)"
  by (induction ys arbitrary: xs) (auto simp: push_new_def)

lemma foldl_push_new_prefix: "prefix xs (foldl push_new xs ys)"
proof (induction ys arbitrary: xs)
  case (Cons y ys)
  have "prefix xs (push_new xs y)" by (simp add: push_new_def)
  then show ?case using Cons [of "push_new xs y"] by (simp add: prefix_order.trans)
qed simp

lemma set_upstream_list:
  "set (upstream_list r) =
     set_option (rc_upstream r) \<union> (case rc_upstreams r of Some ups \<Rightarrow> set ups | None \<Rightarrow> {})"
  by (auto simp: upstream_list_def set_foldl_push_new split: option.splits)

lemma upstream_list_Nil:
  "upstream_list r = [] \<longleftrightarrow>
     rc_upstream r = None \<and> (\<forall>ups. rc_upstreams r = Some ups \<longrightarrow> ups = [])"
proof -
  have "upstream_list r = [] \<longleftrightarrow> set (upstream_list r) = {}" by simp
  then show ?thesis unfolding set_upstream_list by (auto split: option.splits)
qed

lemma resolved_upstreams_Inr:
  "resolved_upstreams r = Inr xs \<longleftrightarrow> xs = upstream_list r \<and> xs \<noteq> []"
  by (auto simp: resolved_upstreams_def Let_def)

lemma validate_route_ok: "validate_route (i, r) = Inr () \<longleftrightarrow> valid_route r"
  by (auto simp: validate_route_def resolved_upstreams_def Let_def valid_route_def upstream_list_Nil
      split: sum.splits if_splits)

lemma validate_config_ok: "validate_config c = Inr () \<longleftrightarrow> valid_config c"
proof -
  have "set (cfg_routes c) = snd ` set (enumerate 0 (cfg_routes c))"
    by (simp only: set_map [symmetric] map_snd_enumerate)
  moreover have "validate_route p = Inr () \<longleftrightarrow> valid_route (snd p)" for p
    by (cases p) (simp add: validate_route_ok)
  ultimately show ?thesis by (simp add: validate_config_def valid_config_def)
qed

text \<open>A configuration passes the validation exactly when it has at least one route and every
  route has a domain and an upstream, given by \<open>upstream\<close> or by a non-empty \<open>upstreams\<close> pool.\<close>

theorem validate_config_iff:
  "validate_config c = Inr () \<longleftrightarrow>
     cfg_routes c \<noteq> [] \<and>
     (\<forall>r \<in> set (cfg_routes c). rc_domains r \<noteq> [] \<and>
        (rc_upstream r \<noteq> None \<or> (\<exists>ups. rc_upstreams r = Some ups \<and> ups \<noteq> [])))"
  unfolding validate_config_ok valid_config_def valid_route_def by (rule refl)

theorem validate_config_iff_witness:
  "validate_config (default_config\<lparr>cfg_routes := [single_route [''a''] fallback_upstream [] [] True]\<rparr>)
     = Inr ()"
  by (subst validate_config_iff) (simp add: single_route_def)

text \<open>The resolved upstreams of a route are its configured addresses without duplicates: every
  configured address and no other, the primary \<open>upstream\<close> first when there is one, and it is an
  error exactly when no address is configured.\<close>

theorem resolved_upstreams_spec:
  "case resolved_upstreams r of
     Inl e \<Rightarrow> rc_upstream r = None \<and> rc_upstreams r \<in> {None, Some []}
   | Inr xs \<Rightarrow> xs \<noteq> [] \<and> distinct xs \<and>
       set xs = set_option (rc_upstream r) \<union> (case rc_upstreams r of Some ups \<Rightarrow> set ups | None \<Rightarrow> {}) \<and>
       (case rc_upstream r of Some u \<Rightarrow> hd xs = u | None \<Rightarrow> True) \<and> primary_upstream r = hd xs"
proof (cases "upstream_list r")
  case Nil
  then show ?thesis
    by (cases "rc_upstreams r") (auto simp: resolved_upstreams_def upstream_list_Nil)
next
  case (Cons u us)
  have "distinct (upstream_list r)"
    unfolding upstream_list_def
    by (rule distinct_foldl_push_new) (simp split: option.splits)
  moreover have "hd (upstream_list r) = v" if "rc_upstream r = Some v" for v
    using that foldl_push_new_prefix [of "[v]" "case rc_upstreams r of Some ups \<Rightarrow> ups | None \<Rightarrow> []"]
    unfolding upstream_list_def by (auto simp: prefix_def)
  ultimately show ?thesis
    using Cons set_upstream_list [of r]
    by (auto simp: resolved_upstreams_def primary_upstream_def split: option.splits)
qed

end
