(* ===== verification/Router.thy ===== *)
theory Router
  imports Config
begin

text \<open>
  \<open>src/router.rs\<close>: the host router. Built without the \<open>hedged-racing\<close> feature (it is off by
  default), so a target has no racer. The lemmas show which route a host resolves to, that ports and
  case do not matter, and that with a validated configuration every host resolves.
\<close>

record upstream_target =
  ut_addr :: socket_addr
  ut_addrs :: "socket_addr list"
  ut_websocket_allowed :: bool
  ut_primary_host :: string
  ut_hedged_racing :: bool

record upstream_router =
  ur_routes :: "string \<rightharpoonup> upstream_target"
  ur_default :: "upstream_target option"

definition route_target :: "route_config \<Rightarrow> upstream_target" where
  "route_target r =
     (let primary_host = (case rc_domains r of d # _ \<Rightarrow> d | [] \<Rightarrow> []);
          addrs = (case resolved_upstreams r of Inr xs \<Rightarrow> xs | Inl _ \<Rightarrow> [primary_upstream r]);
          primary_addr = (case addrs of u # _ \<Rightarrow> u | [] \<Rightarrow> primary_upstream r);
          hedged = (case rc_hedged_racing r of Some b \<Rightarrow> b | None \<Rightarrow> length addrs > 1)
      in \<lparr>ut_addr = primary_addr, ut_addrs = addrs, ut_websocket_allowed = rc_websocket r,
          ut_primary_host = primary_host, ut_hedged_racing = hedged\<rparr>)"

definition domain_key :: "string \<Rightarrow> string" where
  "domain_key host = lower (trim host)"

definition add_route :: "upstream_router \<Rightarrow> route_config \<Rightarrow> upstream_router" where
  "add_route ur r =
     (let target = route_target r in
      \<lparr>ur_routes = foldl (\<lambda>m host. m(domain_key host \<mapsto> target)) (ur_routes ur) (rc_domains r),
       ur_default = (case ur_default ur of None \<Rightarrow> Some target | Some t \<Rightarrow> Some t)\<rparr>)"

definition new_router :: "route_config list \<Rightarrow> upstream_router" where
  "new_router routes = foldl add_route \<lparr>ur_routes = Map.empty, ur_default = None\<rparr> routes"

definition clean_host :: "string \<Rightarrow> string" where
  "clean_host raw = lower (before CHR '':'' (trim raw))"

definition resolve :: "upstream_router \<Rightarrow> string \<Rightarrow> upstream_target option" where
  "resolve ur raw_host =
     (case ur_routes ur (clean_host raw_host) of
        Some t \<Rightarrow> Some t
      | None \<Rightarrow> ur_default ur)"

section \<open>Which route a host resolves to\<close>

definition route_matches :: "string \<Rightarrow> route_config \<Rightarrow> bool" where
  "route_matches key r \<longleftrightarrow> key \<in> domain_key ` set (rc_domains r)"

definition matching_route :: "route_config list \<Rightarrow> string \<Rightarrow> route_config option" where
  "matching_route routes key = find (route_matches key) (rev routes)"

lemma foldl_domains:
  "foldl (\<lambda>m host. m(domain_key host \<mapsto> t)) m ds k =
     (if k \<in> domain_key ` set ds then Some t else m k)"
  by (induction ds arbitrary: m) auto

lemma new_router_snoc: "new_router (routes @ [r]) = add_route (new_router routes) r"
  by (simp add: new_router_def)

lemma router_lookup:
  "ur_routes (new_router routes) k = map_option route_target (matching_route routes k)"
proof (induction routes rule: rev_induct)
  case (snoc r routes)
  then show ?case
    by (simp add: new_router_snoc add_route_def Let_def foldl_domains matching_route_def
        route_matches_def)
qed (simp add: new_router_def matching_route_def)

lemma router_default:
  "ur_default (new_router routes) = (case routes of [] \<Rightarrow> None | r # _ \<Rightarrow> Some (route_target r))"
proof (induction routes rule: rev_induct)
  case (snoc r routes)
  then show ?case
    unfolding new_router_snoc by (cases routes) (simp_all add: add_route_def Let_def)
qed (simp add: new_router_def)

lemma resolve_eq:
  "resolve (new_router routes) raw =
     (case find (\<lambda>r. \<exists>d \<in> set (rc_domains r). lower (trim d) = clean_host raw) (rev routes) of
        Some r \<Rightarrow> Some (route_target r)
      | None \<Rightarrow> (case routes of [] \<Rightarrow> None | r # _ \<Rightarrow> Some (route_target r)))"
proof -
  have "route_matches (clean_host raw) =
      (\<lambda>r. \<exists>d \<in> set (rc_domains r). lower (trim d) = clean_host raw)"
    by (auto simp: route_matches_def domain_key_def fun_eq_iff intro: rev_image_eqI)
  then show ?thesis
    unfolding resolve_def router_lookup router_default matching_route_def
    by (simp split: option.splits)
qed

text \<open>C36: a host resolves to the last configured route that lists it, up to case, surrounding white
  space and the port of the request; a host no route lists falls back to the first route; nothing
  resolves when there are no routes.\<close>

theorem resolve_spec:
  "resolve (new_router routes) raw =
     (case find (\<lambda>r. \<exists>d \<in> set (rc_domains r). lower (trim d) = clean_host raw) (rev routes) of
        Some r \<Rightarrow> Some (route_target r)
      | None \<Rightarrow> (case routes of [] \<Rightarrow> None | r # _ \<Rightarrow> Some (route_target r)))"
  by (rule resolve_eq)

lemma valid_resolves:
  assumes "validate_config c = Inr ()"
  shows "\<exists>r \<in> set (cfg_routes c). resolve (new_router (cfg_routes c)) raw = Some (route_target r) \<and>
    resolved_upstreams r = Inr (ut_addrs (route_target r)) \<and>
    ut_addr (route_target r) = hd (ut_addrs (route_target r))"
proof -
  have v: "valid_config c" using assms by (simp add: validate_config_ok)
  obtain r where r: "r \<in> set (cfg_routes c)"
    "resolve (new_router (cfg_routes c)) raw = Some (route_target r)"
  proof (cases "find (\<lambda>r. \<exists>d \<in> set (rc_domains r). lower (trim d) = clean_host raw)
      (rev (cfg_routes c))")
    case None
    then show ?thesis using that v unfolding resolve_eq
      by (cases "cfg_routes c") (auto simp: valid_config_def)
  next
    case (Some r)
    then have "r \<in> set (cfg_routes c)" by (auto dest: find_SomeD)
    with Some that show ?thesis unfolding resolve_eq by auto
  qed
  with v have "upstream_list r \<noteq> []"
    by (auto simp: valid_config_def valid_route_def upstream_list_Nil)
  then have "resolved_upstreams r = Inr (ut_addrs (route_target r)) \<and>
      ut_addr (route_target r) = hd (ut_addrs (route_target r))"
    by (cases "upstream_list r")
       (simp_all add: route_target_def Let_def resolved_upstreams_def)
  with r show ?thesis by blast
qed

text \<open>With a configuration that passed the validation, every \<open>Host\<close> value resolves, to the target
  of one of the configured routes, with at least one upstream address; so the proxy's answer for
  an unrecognised host cannot occur.\<close>

theorem resolve_total:
  assumes "validate_config c = Inr ()"
  shows "\<exists>r \<in> set (cfg_routes c). resolve (new_router (cfg_routes c)) raw = Some (route_target r) \<and>
    resolved_upstreams r = Inr (ut_addrs (route_target r)) \<and>
    ut_addr (route_target r) = hd (ut_addrs (route_target r))"
  by (rule valid_resolves [OF assms])

theorem resolve_total_witness:
  "\<exists>r \<in> {single_route [''a.example''] fallback_upstream [] [] True}.
     resolve (new_router [single_route [''a.example''] fallback_upstream [] [] True]) ''b.example:443''
       = Some (route_target r)"
proof -
  let ?c = "default_config\<lparr>cfg_routes := [single_route [''a.example''] fallback_upstream [] [] True]\<rparr>"
  have "valid_config ?c"
    by (simp add: valid_config_def valid_route_def single_route_def)
  then have "validate_config ?c = Inr ()" by (simp only: validate_config_ok)
  from resolve_total [OF this, of "''b.example:443''"] show ?thesis by simp
qed

section \<open>The resolver contract\<close>

text \<open>
  What the proxy relies on: the result depends on the cleaned host only, and cleaning ignores the
  port and the case of an ASCII host name.
\<close>

locale host_resolver =
  fixes clean :: "string \<Rightarrow> string" and res :: "string \<Rightarrow> 't option"
  assumes res_clean: "clean h = clean h' \<Longrightarrow> res h = res h'"
    and clean_case: "list_all is_ascii h \<Longrightarrow> clean (lower h) = clean h"
    and clean_port: "list_all is_ascii (h @ p) \<Longrightarrow> h \<noteq> [] \<Longrightarrow> \<forall>b \<in> set h. \<not> ascii_ws b \<Longrightarrow>
      clean (h @ CHR '':'' # p) = clean h"
begin

lemma res_case: "list_all is_ascii h \<Longrightarrow> res (lower h) = res h"
  by (rule res_clean) (rule clean_case)

lemma res_port:
  "list_all is_ascii (h @ p) \<Longrightarrow> h \<noteq> [] \<Longrightarrow> \<forall>b \<in> set h. \<not> ascii_ws b \<Longrightarrow>
     res (h @ CHR '':'' # p) = res h"
  by (rule res_clean) (rule clean_port)

lemma res_case_port:
  assumes "list_all is_ascii (h @ p)" "h \<noteq> []" "\<forall>b \<in> set h. \<not> ascii_ws b"
  shows "res (lower (h @ CHR '':'' # p)) = res h"
proof -
  have "list_all is_ascii (h @ CHR '':'' # p)"
    using assms(1) by (simp add: is_ascii_def ord_def)
  then show ?thesis using res_case res_port [OF assms] by metis
qed

end

lemma is_ascii_lower_byte: "is_ascii b \<Longrightarrow> is_ascii (lower_byte b)"
  by (simp add: is_ascii_def ord_lower_byte)

lemma ascii_lower: "list_all is_ascii s \<Longrightarrow> list_all is_ascii (lower s)"
  by (auto simp: list_all_iff lower_def is_ascii_lower_byte)

lemma ascii_ws_lower_byte: "ascii_ws (lower_byte b) = ascii_ws b"
  by (auto simp: ascii_ws_def ord_lower_byte)

lemma lower_byte_colon: "lower_byte b = CHR '':'' \<longleftrightarrow> b = CHR '':''"
proof -
  have "ord (CHR '':'') = 58" by (simp add: ord_def)
  then have "x = CHR '':'' \<longleftrightarrow> ord x = 58" for x by (metis ord_inject)
  then show ?thesis by (simp add: ord_lower_byte)
qed

lemma trim_lower: "list_all is_ascii s \<Longrightarrow> trim (lower s) = lower (trim s)"
  by (simp add: trim_ascii ascii_lower lower_def strip_by_map comp_def ascii_ws_lower_byte
      ascii_lower [unfolded lower_def])

lemma before_lower: "before CHR '':'' (lower s) = lower (before CHR '':'' s)"
  unfolding before_def lower_def by (induction s) (simp_all add: lower_byte_colon)

lemma clean_host_case: "list_all is_ascii h \<Longrightarrow> clean_host (lower h) = clean_host h"
  by (simp add: clean_host_def trim_lower before_lower)

lemma strip_by_left: "xs \<noteq> [] \<Longrightarrow> \<not> P (hd xs) \<Longrightarrow> \<not> P y \<Longrightarrow>
  strip_by P (xs @ y # ys) = xs @ y # rev (dropWhile P (rev ys))"
proof -
  assume a: "xs \<noteq> []" "\<not> P (hd xs)" "\<not> P y"
  then have "dropWhile P (xs @ y # ys) = xs @ y # ys" by (cases xs) auto
  moreover have "dropWhile P (rev (xs @ y # ys)) = dropWhile P (rev ys) @ y # rev xs"
    using a(3) by (induction "rev ys" arbitrary: ys) (auto simp: dropWhile_append)
  ultimately show ?thesis by (simp add: strip_by_def)
qed

lemma before_append_sep: "c \<notin> set u \<Longrightarrow> before c (u @ c # v) = u"
  unfolding before_def by (induction u) auto

lemma before_append_cong: "before c (u @ c # v) = before c (u @ c # w)"
  unfolding before_def by (induction u) auto

lemma before_sep_stop: "before c (u @ c # v) = before c u"
  unfolding before_def by (induction u) auto

lemma clean_host_port:
  assumes "list_all is_ascii (h @ p)" "h \<noteq> []" "\<forall>b \<in> set h. \<not> ascii_ws b"
  shows "clean_host (h @ CHR '':'' # p) = clean_host h"
proof -
  have a: "list_all is_ascii (h @ CHR '':'' # p)"
    using assms(1) by (simp add: is_ascii_def ord_def)
  have "trim (h @ CHR '':'' # p) = h @ CHR '':'' # rev (dropWhile ascii_ws (rev p))"
    using assms by (simp only: trim_ascii [OF a], intro strip_by_left)
      (auto simp: ascii_ws_def ord_def)
  moreover have "trim h = h" using assms by (intro trim_no_ws) auto
  ultimately show ?thesis by (simp add: clean_host_def before_sep_stop)
qed

interpretation rr: host_resolver clean_host "resolve (new_router routes)" for routes
  by unfold_locales (simp_all add: resolve_def clean_host_case clean_host_port)

text \<open>The port and the case of the \<open>Host\<close> header do not influence the routing of an ASCII host
  name.\<close>

theorem resolve_ignores_port_and_case:
  assumes "list_all is_ascii (h @ p)" and "h \<noteq> []" and "\<forall>b \<in> set h. \<not> ascii_ws b"
  shows "resolve (new_router routes) (lower (h @ CHR '':'' # p)) = resolve (new_router routes) h"
  using assms by (rule rr.res_case_port)

theorem resolve_ignores_port_and_case_witness:
  "resolve (new_router [single_route [''api.example.com''] fallback_upstream [] [] True])
       (lower (''Api.Example.COM'' @ CHR '':'' # ''8443'')) =
     resolve (new_router [single_route [''api.example.com''] fallback_upstream [] [] True])
       ''Api.Example.COM''"
  by (rule resolve_ignores_port_and_case) (code_simp, simp, code_simp)

text \<open>
  A domain that is configured with a port is a key the lookup never asks for: the cleaned host
  contains no colon.
\<close>

lemma domain_with_port_unreachable:
  assumes "CHR '':'' \<in> set (lower (trim d))"
  shows "clean_host raw \<noteq> domain_key d"
proof -
  have "b \<noteq> CHR '':''" if "b \<in> set (before CHR '':'' (trim raw))" for b
    using that not_in_before [of "CHR '':''" "trim raw"] by auto
  then have "lower_byte b \<noteq> CHR '':''" if "b \<in> set (before CHR '':'' (trim raw))" for b
    using that by (simp only: lower_byte_colon not_False_eq_True)
  then have "CHR '':'' \<notin> set (clean_host raw)"
    by (metis clean_host_def imageE lower_def list.set_map)
  with assms show ?thesis by (auto simp: domain_key_def)
qed

end
