(* ===== verification/Headers.thy ===== *)
theory Headers
  imports Framing_Guard Config
begin

text \<open>
  \<open>src/headers.rs\<close>: the headers added to the upstream request and the hardening headers of every
  response. The lemmas give the resulting value of every header name, and compose the preparation
  with the sanitisation of \<open>framing_guard\<close> as the proxy does.
\<close>

section \<open>Operations\<close>

definition prepare_upstream_headers :: "'h http_lib \<Rightarrow> 'h \<Rightarrow> ip_addr \<Rightarrow> 'h" where
  "prepare_upstream_headers L h client_ip =
     (let ip_str = show_ip client_ip;
          h1 = (case Option.bind (hm_get L h ''x-forwarded-for'') (hv_to_str L) of
                  Some existing \<Rightarrow>
                    (case hv_from_str L (existing @ '', '' @ ip_str) of
                       Some hv \<Rightarrow> hm_insert L h ''x-forwarded-for'' hv
                     | None \<Rightarrow> h)
                | None \<Rightarrow>
                    (case hv_from_str L ip_str of
                       Some hv \<Rightarrow> hm_insert L h ''x-forwarded-for'' hv
                     | None \<Rightarrow> h));
          h2 = (case hv_from_str L ip_str of
                  Some hv \<Rightarrow> hm_insert L h1 ''x-real-ip'' hv
                | None \<Rightarrow> h1)
      in hm_insert L (hm_insert L h2 ''x-forwarded-proto'' ''https'')
           ''via'' ''1.1 Propylea-Boundary'')"

definition inject_downstream_security_headers :: "'h http_lib \<Rightarrow> 'h \<Rightarrow> security_config \<Rightarrow> 'h" where
  "inject_downstream_security_headers L h s =
     (let h1 = (case hv_from_str L (server_banner s) of
                  Some hv \<Rightarrow> hm_insert L h ''server'' hv | None \<Rightarrow> h);
          h2 = (if hsts s then hm_insert L h1 ''strict-transport-security''
                                 ''max-age=31536000; includeSubDomains; preload''
                else h1);
          h3 = hm_insert L h2 ''x-content-type-options'' ''nosniff'';
          h4 = (case hv_from_str L (frame_options s) of
                  Some hv \<Rightarrow> hm_insert L h3 ''x-frame-options'' hv | None \<Rightarrow> h3)
      in hm_insert L h4 ''referrer-policy'' ''strict-origin-when-cross-origin'')"

definition inject_response_security_headers ::
  "'h http_lib \<Rightarrow> 'h response \<Rightarrow> security_config \<Rightarrow> 'h response" where
  "inject_response_security_headers L res s =
     res\<lparr>rs_headers := inject_downstream_security_headers L (rs_headers res) s\<rparr>"

lemma inject_response_simps [simp]:
  "rs_status (inject_response_security_headers L res s) = rs_status res"
  "rs_body (inject_response_security_headers L res s) = rs_body res"
  "rs_headers (inject_response_security_headers L res s) =
     inject_downstream_security_headers L (rs_headers res) s"
  by (simp_all add: inject_response_security_headers_def)

section \<open>The upstream request\<close>

lemma lower_prepared_names:
  "lower ''x-forwarded-for'' = ''x-forwarded-for''"
  "lower ''x-real-ip'' = ''x-real-ip''"
  "lower ''x-forwarded-proto'' = ''x-forwarded-proto''"
  "lower ''via'' = ''via''"
  by code_simp+

lemma comma_space_value: "list_all value_byte '', ''"
  by code_simp

text \<open>The header values after the preparation, name by name.\<close>

lemma get_all_prepare:
  assumes "http_laws L"
  shows "hm_get_all L (prepare_upstream_headers L h ip) n =
    (if lower n = ''x-forwarded-for'' then
       (case hm_get_all L h ''x-forwarded-for'' of
          v # vs \<Rightarrow> if list_all visible_byte v then [v @ '', '' @ show_ip ip] else [show_ip ip]
        | [] \<Rightarrow> [show_ip ip])
     else if lower n = ''x-real-ip'' then [show_ip ip]
     else if lower n = ''x-forwarded-proto'' then [''https'']
     else if lower n = ''via'' then [''1.1 Propylea-Boundary'']
     else hm_get_all L h n)"
proof -
  have v: "list_all value_byte (v @ '', '' @ show_ip ip)" if "list_all visible_byte v" for v
    using that comma_space_value show_ip_value [of ip]
    by (auto simp: list_all_iff visible_value_byte)
  show ?thesis
    using assms v
    by (auto simp: prepare_upstream_headers_def Let_def from_str_eq to_str_eq get_eq show_ip_value
        get_all_insert lower_prepared_names split: list.splits)
qed

text \<open>What a client puts into the identity headers does not reach the upstream. After the
  sanitisation and the preparation, the forwarding address, the real address and the protocol are
  functions of the socket peer alone, the remaining identity headers are absent, and the headers
  that are no identity headers pass through. The forwarding header names the peer twice: the
  sanitisation already put the address there when the preparation appends it.\<close>

theorem upstream_identity_headers:
  assumes "http_laws L"
  shows "hm_get_all L (prepare_upstream_headers L (sanitize_ingress_headers L h ip) ip) n =
    (if lower n = ''x-forwarded-for'' then [show_ip ip @ '', '' @ show_ip ip]
     else if lower n = ''x-real-ip'' then [show_ip ip]
     else if lower n = ''x-forwarded-proto'' then [''https'']
     else if lower n = ''via'' then [''1.1 Propylea-Boundary'']
     else if lower n \<in> {''x-forwarded-host'', ''x-client-ip'', ''cf-connecting-ip'', ''true-client-ip''}
     then [] else hm_get_all L h n)"
  using assms
  by (simp add: get_all_prepare get_all_sanitize lower_prepared_names show_ip_visible)

theorem upstream_identity_headers_witness:
  "hm_get_all assoc_http
     (prepare_upstream_headers assoc_http
        (sanitize_ingress_headers assoc_http
           [(''x-forwarded-for'', ''6.6.6.6''), (''x-client-ip'', ''6.6.6.6'')] (V4 198 51 100 7))
        (V4 198 51 100 7)) ''x-forwarded-for''
   = [show_ip (V4 198 51 100 7) @ '', '' @ show_ip (V4 198 51 100 7)]"
  by (subst upstream_identity_headers [OF assoc_http_laws]) (simp add: lower_prepared_names)

section \<open>The response\<close>

lemma lower_hardening_names:
  "lower ''server'' = ''server''"
  "lower ''strict-transport-security'' = ''strict-transport-security''"
  "lower ''x-content-type-options'' = ''x-content-type-options''"
  "lower ''x-frame-options'' = ''x-frame-options''"
  "lower ''referrer-policy'' = ''referrer-policy''"
  by code_simp+

lemma get_all_inject:
  "http_laws L \<Longrightarrow> hm_get_all L (inject_downstream_security_headers L h s) n =
    (if lower n = ''referrer-policy'' then [''strict-origin-when-cross-origin'']
     else if lower n = ''x-content-type-options'' then [''nosniff'']
     else if lower n = ''x-frame-options'' \<and> list_all value_byte (frame_options s) then [frame_options s]
     else if lower n = ''strict-transport-security'' \<and> hsts s
       then [''max-age=31536000; includeSubDomains; preload'']
     else if lower n = ''server'' \<and> list_all value_byte (server_banner s) then [server_banner s]
     else hm_get_all L h n)"
  by (simp add: inject_downstream_security_headers_def Let_def from_str_eq get_all_insert
      lower_hardening_names)

text \<open>The hardening of a response, name by name. The sniffing and referrer policies are always
  set, \<open>Strict-Transport-Security\<close> when configured, the banner and the frame options whenever the
  configured text is a legal header value; upstream values of these headers are overwritten and all
  other headers pass through.\<close>

theorem inject_downstream_spec:
  assumes "http_laws L"
  shows "hm_get_all L (inject_downstream_security_headers L h s) n =
    (if lower n = ''referrer-policy'' then [''strict-origin-when-cross-origin'']
     else if lower n = ''x-content-type-options'' then [''nosniff'']
     else if lower n = ''x-frame-options'' \<and> list_all value_byte (frame_options s) then [frame_options s]
     else if lower n = ''strict-transport-security'' \<and> hsts s
       then [''max-age=31536000; includeSubDomains; preload'']
     else if lower n = ''server'' \<and> list_all value_byte (server_banner s) then [server_banner s]
     else hm_get_all L h n)"
  by (rule get_all_inject [OF assms])

theorem inject_downstream_spec_witness:
  "hm_get_all assoc_http
     (inject_downstream_security_headers assoc_http [(''server'', ''nginx'')] default_security)
     ''Server'' = [''Propylea-Edge-Gateway/1.0'']"
proof -
  have "lower ''Server'' = ''server''" "list_all value_byte (server_banner default_security)"
    by code_simp+
  then show ?thesis
    using inject_downstream_spec [OF assoc_http_laws, of "[(''server'', ''nginx'')]" default_security "''Server''"]
    by (simp add: default_security_def)
qed

end
