(* ===== verification/Sanitize.thy ===== *)
theory Sanitize
  imports Rust_Str
begin

text \<open>
  \<open>src/sanitize.rs\<close>: the scrubber for terminal escape sequences and control characters, the host
  banner and the spreadsheet formula neutraliser. The scrubber's contract is the locale
  \<open>text_scrubber\<close>: bounded, free of control characters, the identity on clean short text, hence
  idempotent.
\<close>

section \<open>The scrubber\<close>

definition max_banner_bytes :: nat where
  "max_banner_bytes = 4096"

definition max_hostname_bytes :: nat where
  "max_hostname_bytes = 253"

abbreviation esc :: rchar where "esc \<equiv> [CHR 0x1B]"
abbreviation bel :: rchar where "bel \<equiv> [CHR 0x07]"
abbreviation tab :: rchar where "tab \<equiv> [CHR 0x09]"

text \<open>The final byte of a CSI sequence.\<close>

definition csi_final :: "rchar \<Rightarrow> bool" where
  "csi_final c = (case c of [b] \<Rightarrow> 0x40 \<le> ord b \<and> ord b \<le> 0x7E | _ \<Rightarrow> False)"

fun skip_csi :: "rchar list \<Rightarrow> rchar list" where
  "skip_csi [] = []"
| "skip_csi (c # cs) = (if csi_final c then cs else skip_csi cs)"

text \<open>An OSC sequence ends with BEL or with ESC and a backslash.\<close>

fun skip_osc :: "rchar list \<Rightarrow> rchar list" where
  "skip_osc [] = []"
| "skip_osc (c # cs) =
     (if c = bel then cs
      else if c = esc \<and> cs \<noteq> [] \<and> hd cs = [CHR 0x5C] then tl cs
      else skip_osc cs)"

lemma length_skip_csi: "length (skip_csi cs) \<le> length cs"
  by (induction cs rule: skip_csi.induct) auto

lemma length_skip_osc: "length (skip_osc cs) \<le> length cs"
  by (induction cs rule: skip_osc.induct) auto

function scrub_loop :: "nat \<Rightarrow> string \<Rightarrow> rchar list \<Rightarrow> string" where
  "scrub_loop m out [] = out"
| "scrub_loop m out (ch # cs) =
     (if length out \<ge> m then out
      else if ch = esc then
        (case cs of
           [] \<Rightarrow> scrub_loop m out []
         | c # cs' \<Rightarrow>
             if c = ''['' then scrub_loop m out (skip_csi cs')
             else if c = '']'' then scrub_loop m out (skip_osc cs')
             else scrub_loop m out cs')
      else if is_control ch then scrub_loop m (if ch = tab then out @ '' '' else out) cs
      else if length out + length ch > m then out
      else scrub_loop m (out @ ch) cs)"
  by pat_completeness auto
termination
  by (relation "measure (\<lambda>(m, out, cs). length cs)")
     (auto simp: less_Suc_eq_le intro: le_trans [OF length_skip_csi] le_trans [OF length_skip_osc])

definition scrub_ansi_and_control :: "string \<Rightarrow> nat \<Rightarrow> string" where
  "scrub_ansi_and_control input max_bytes = scrub_loop max_bytes [] (chars input)"

section \<open>The scrubber's contract\<close>

definition printable :: "rchar \<Rightarrow> bool" where
  "printable c \<longleftrightarrow> valid_char c \<and> \<not> is_control c"

definition clean_text :: "string \<Rightarrow> bool" where
  "clean_text s \<longleftrightarrow> list_all printable (chars s)"

locale text_scrubber =
  fixes scrub :: "string \<Rightarrow> nat \<Rightarrow> string"
  assumes scrub_bounded: "length (scrub s m) \<le> m"
    and scrub_clean: "valid_utf8 s \<Longrightarrow> clean_text (scrub s m)"
    and scrub_id: "clean_text s \<Longrightarrow> length s \<le> m \<Longrightarrow> scrub s m = s"
begin

lemma scrub_idem: "valid_utf8 s \<Longrightarrow> scrub (scrub s m) m = scrub s m"
  by (intro scrub_id scrub_clean scrub_bounded)

lemma scrub_fixpoint_iff: "valid_utf8 s \<Longrightarrow> scrub s m = s \<longleftrightarrow> clean_text s \<and> length s \<le> m"
  using scrub_clean scrub_id scrub_bounded by metis

lemma scrub_monotone_id: "valid_utf8 s \<Longrightarrow> m \<le> n \<Longrightarrow> scrub (scrub s m) n = scrub s m"
  using scrub_bounded le_trans by (intro scrub_id scrub_clean) blast+

end

lemma skip_csi_valid: "list_all P cs \<Longrightarrow> list_all P (skip_csi cs)"
  by (induction cs rule: skip_csi.induct) auto

lemma skip_osc_valid: "list_all P cs \<Longrightarrow> list_all P (skip_osc cs)"
proof (induction cs rule: skip_osc.induct)
  case (2 c cs)
  then show ?case by (cases cs) auto
qed simp

lemma is_ascii_codes [simp]: "is_ascii (CHR 0x1B)" "is_ascii (CHR 0x07)" "is_ascii (CHR 0x09)"
  "is_ascii (CHR '' '')" "is_ascii (CHR 0x27)"
  by code_simp+

lemma printable_space: "printable '' ''"
  by (simp add: printable_def is_control_code ord_def)

lemma esc_control: "is_control esc"
  by (simp add: is_control_code ord_def)

text \<open>The loop's invariant: the output is a sequence of printable characters within the bound.\<close>

lemma scrub_loop_inv:
  fixes os :: "rchar list"
  assumes "list_all valid_char cs" "list_all printable os" "out = concat os" "length out \<le> m"
  shows "\<exists>rs. scrub_loop m out cs = concat rs \<and> list_all printable rs"
  using assms
proof (induction m out cs arbitrary: os rule: scrub_loop.induct)
  case (1 m out)
  then show ?case by auto
next
  case (2 m out ch cs)
  consider (full) "length out \<ge> m"
    | (esc) "\<not> length out \<ge> m" "ch = esc"
    | (tab) "\<not> length out \<ge> m" "ch \<noteq> esc" "is_control ch" "ch = tab"
    | (ctl) "\<not> length out \<ge> m" "ch \<noteq> esc" "is_control ch" "ch \<noteq> tab"
    | (long) "\<not> length out \<ge> m" "ch \<noteq> esc" "\<not> is_control ch" "length out + length ch > m"
    | (push) "\<not> length out \<ge> m" "ch \<noteq> esc" "\<not> is_control ch" "length out + length ch \<le> m"
    by linarith
  then show ?case
  proof cases
    case full
    with 2 show ?thesis by auto
  next
    case esc
    show ?thesis
    proof (cases cs)
      case Nil
      with esc 2 show ?thesis by auto
    next
      case (Cons c r)
      consider "c = ''[''" | "c = '']''" "c \<noteq> ''[''" | "c \<noteq> ''[''" "c \<noteq> '']''" by auto
      then show ?thesis
      proof cases
        case 1
        with "2.IH"(2) [OF esc Cons 1, of os] 2 esc Cons show ?thesis by (simp add: skip_csi_valid)
      next
        case c: 2
        with "2.IH"(3) [OF esc Cons c(2,1), of os] 2 esc Cons show ?thesis by (simp add: skip_osc_valid)
      next
        case 3
        with "2.IH"(4) [OF esc Cons 3, of os] 2 esc Cons show ?thesis by simp
      qed
    qed
  next
    case tab
    with "2.IH"(5) [OF tab(1-3), of "os @ ['' '']"] "2.prems" show ?thesis
      by (simp add: printable_space)
  next
    case ctl
    with "2.IH"(5) [OF ctl(1-3), of os] "2.prems" show ?thesis by simp
  next
    case long
    with 2 show ?thesis by auto
  next
    case push
    then have "\<not> m < length out + length ch" by simp
    with "2.IH"(6) [OF push(1-3), of "os @ [ch]"] "2.prems" push show ?thesis
      by (simp add: printable_def)
  qed
qed

lemma scrub_loop_id:
  "list_all printable cs \<Longrightarrow> length out + length (concat cs) \<le> m \<Longrightarrow>
     scrub_loop m out cs = out @ concat cs"
proof (induction cs arbitrary: out)
  case (Cons c cs)
  then have c: "c \<noteq> esc" "\<not> is_control c" "0 < length c"
    using esc_control by (auto simp: printable_def valid_char_def)
  have "length out + (length c + length (concat cs)) \<le> m" using Cons.prems by simp
  with c(3) have "\<not> m \<le> length out" by linarith
  with c Cons show ?case by simp
qed simp

lemma scrub_loop_bounded: "length out \<le> m \<Longrightarrow> length (scrub_loop m out cs) \<le> m"
proof (induction m out cs rule: scrub_loop.induct)
  case (2 m out ch cs)
  then show ?case by (auto split: list.splits)
qed simp

interpretation sc: text_scrubber scrub_ansi_and_control
proof
  fix s m
  show "length (scrub_ansi_and_control s m) \<le> m"
    by (simp add: scrub_ansi_and_control_def scrub_loop_bounded)
  show "clean_text (scrub_ansi_and_control s m)" if v: "valid_utf8 s"
  proof -
    obtain rs where "scrub_loop m [] (chars s) = concat rs" "list_all printable rs"
      using scrub_loop_inv [of "chars s" "[]" "[]" m] v [unfolded valid_utf8_def] by auto
    moreover then have "list_all valid_char rs" by (auto simp: list_all_iff printable_def)
    ultimately show ?thesis
      by (simp add: clean_text_def scrub_ansi_and_control_def chars_concat)
  qed
  show "scrub_ansi_and_control s m = s" if "clean_text s" "length s \<le> m"
    using that scrub_loop_id [of "chars s" "[]" m]
    by (simp add: scrub_ansi_and_control_def clean_text_def)
qed

section \<open>The host banner\<close>

definition host_char :: "rchar \<Rightarrow> bool" where
  "host_char c = (case c of [b] \<Rightarrow> is_alnum b \<or> b \<in> set ''.-[]:'' | _ \<Rightarrow> False)"

definition sanitize_host_banner :: "string \<Rightarrow> string" where
  "sanitize_host_banner raw =
     (let scrubbed = scrub_ansi_and_control (trim raw) (max_hostname_bytes + 16);
          host_only =
            (if starts_with scrubbed ''['' then
               (if CHR '']'' \<in> set scrubbed then before CHR '']'' scrubbed @ '']'' else scrubbed)
             else before CHR '':'' scrubbed)
      in lower (concat (take max_hostname_bytes (filter host_char (chars host_only)))))"

section \<open>Formula neutralisation\<close>

definition formula_bytes :: string where
  "formula_bytes = [CHR ''='', CHR ''+'', CHR ''-'', CHR ''@'', CHR 0x09, CHR 0x0D]"

definition neutralize_formula :: "string \<Rightarrow> string" where
  "neutralize_formula val =
     (let trimmed = dropWhile (\<lambda>b. b = CHR '' '') val;
          starts_dangerous =
            list_ex (\<lambda>b. starts_with val [b]) formula_bytes \<or>
            list_ex (\<lambda>b. starts_with trimmed [b]) formula_bytes;
          scrubbed = scrub_ansi_and_control val max_banner_bytes
      in if starts_dangerous \<or> list_ex (\<lambda>b. starts_with scrubbed [b]) ''=+-@''
         then [CHR 0x27] @ scrubbed else scrubbed)"

text \<open>The code's test for a spreadsheet trigger, on the text behind the leading blanks.\<close>

definition formula_trigger :: "string \<Rightarrow> bool" where
  "formula_trigger s \<longleftrightarrow>
     (case dropWhile (\<lambda>b. b = CHR '' '') s of [] \<Rightarrow> False | b # _ \<Rightarrow> b \<in> set formula_bytes)"

lemma starts_with_single: "starts_with s [b] \<longleftrightarrow> s \<noteq> [] \<and> hd s = b"
  by (cases s) (auto simp: starts_with_def)

lemma list_ex_starts_with: "list_ex (\<lambda>b. starts_with s [b]) bs \<longleftrightarrow> s \<noteq> [] \<and> hd s \<in> set bs"
  by (auto simp: list_ex_iff starts_with_single)

lemma blank_notin_formula: "CHR '' '' \<notin> set formula_bytes" "CHR 0x27 \<notin> set formula_bytes"
  by code_simp+

lemma hd_behind_blanks:
  "sp \<notin> B \<Longrightarrow>
     (case dropWhile (\<lambda>b. b = sp) s of [] \<Rightarrow> False | b # _ \<Rightarrow> b \<in> B) \<longleftrightarrow>
     (s \<noteq> [] \<and> hd s \<in> B) \<or>
     (dropWhile (\<lambda>b. b = sp) s \<noteq> [] \<and> hd (dropWhile (\<lambda>b. b = sp) s) \<in> B)"
  by (cases "dropWhile (\<lambda>b. b = sp) s"; cases s) (auto split: if_splits)

lemma formula_trigger_iff:
  "formula_trigger s \<longleftrightarrow>
     list_ex (\<lambda>b. starts_with s [b]) formula_bytes \<or>
     list_ex (\<lambda>b. starts_with (dropWhile (\<lambda>b. b = CHR '' '') s) [b]) formula_bytes"
  unfolding formula_trigger_def list_ex_starts_with by (rule hd_behind_blanks) (rule blank_notin_formula)

lemma neutralize_formula_eq:
  "neutralize_formula s =
     (let t = scrub_ansi_and_control s max_banner_bytes
      in if formula_trigger s \<or> (t \<noteq> [] \<and> hd t \<in> set ''=+-@'') then CHR 0x27 # t else t)"
  by (simp only: neutralize_formula_def formula_trigger_iff list_ex_starts_with Let_def append.simps)

lemma clean_text_ConsI: "printable [b] \<Longrightarrow> is_ascii b \<Longrightarrow> clean_text s \<Longrightarrow> clean_text (b # s)"
  by (simp add: clean_text_def utf8_len_ascii)

lemma clean_text_hd: "clean_text (b # s) \<Longrightarrow> b \<noteq> CHR 0x09 \<and> b \<noteq> CHR 0x0D"
proof -
  assume a: "clean_text (b # s)"
  have "is_control [CHR 0x09]" "is_control [CHR 0x0D]" "utf8_len (CHR 0x09) = 1" "utf8_len (CHR 0x0D) = 1"
    by code_simp+
  with a show ?thesis by (auto simp: clean_text_def printable_def)
qed

lemma printable_quote: "printable [CHR 0x27]"
  by (simp add: printable_def is_control_code ord_def)

lemma clean_scrub: "valid_utf8 s \<Longrightarrow> clean_text (scrub_ansi_and_control s m)"
  by (rule sc.scrub_clean)

text \<open>
  What the scrubber returns on any text is at most \<open>max_bytes\<close> long and free of control
  characters (so no terminal escape sequence survives), a text that was clean and short comes
  back as it was, and nothing else does; scrubbing again, under any larger bound, changes nothing.
\<close>

theorem scrub_contract:
  assumes "valid_utf8 s" "m \<le> n"
  shows "length (scrub_ansi_and_control s m) \<le> m \<and>
    clean_text (scrub_ansi_and_control s m) \<and>
    (scrub_ansi_and_control s m = s \<longleftrightarrow> clean_text s \<and> length s \<le> m) \<and>
    scrub_ansi_and_control (scrub_ansi_and_control s m) n = scrub_ansi_and_control s m"
  using assms sc.scrub_bounded sc.scrub_clean sc.scrub_fixpoint_iff sc.scrub_monotone_id by blast

theorem scrub_contract_witness:
  "length (scrub_ansi_and_control (CHR 0x1B # ''[31mred'') 8) \<le> 8 \<and>
   scrub_ansi_and_control (CHR 0x1B # ''[31mred'') 8 = ''red''"
proof -
  have "valid_utf8 (CHR 0x1B # ''[31mred'')" "scrub_ansi_and_control (CHR 0x1B # ''[31mred'') 8 = ''red''"
    by code_simp+
  then show ?thesis using scrub_contract [of "CHR 0x1B # ''[31mred''" 8 8] by blast
qed

lemma neutralize_clean: "valid_utf8 v \<Longrightarrow> clean_text (neutralize_formula v)"
  using clean_scrub [of v max_banner_bytes] clean_text_ConsI [OF printable_quote]
  by (simp add: neutralize_formula_eq Let_def)

lemma neutralize_bounded: "length (neutralize_formula v) \<le> 4097"
  using sc.scrub_bounded [of v max_banner_bytes]
  by (simp add: neutralize_formula_eq Let_def max_banner_bytes_def)

lemma hd_choice:
  "t = [] \<or> hd t \<in> A \<or> hd t \<notin> B \<Longrightarrow> q \<notin> B \<Longrightarrow> u = (if P \<or> t \<noteq> [] \<and> hd t \<in> A then q # t else t) \<Longrightarrow>
     u = [] \<or> hd u \<notin> B"
  by auto

lemma clean_text_hd_formula: "clean_text t \<Longrightarrow> t = [] \<or> hd t \<in> set ''=+-@'' \<or> hd t \<notin> set formula_bytes"
  using clean_text_hd by (cases t) (auto simp: formula_bytes_def)

lemma neutralize_safe: "valid_utf8 v \<Longrightarrow> neutralize_formula v = [] \<or> hd (neutralize_formula v) \<notin> set formula_bytes"
  by (rule hd_choice [OF clean_text_hd_formula [OF clean_scrub] blank_notin_formula(2)])
    (simp_all only: neutralize_formula_eq Let_def)

lemma not_trigger_hd: "\<not> formula_trigger v \<Longrightarrow> \<not> (v \<noteq> [] \<and> hd v \<in> set ''=+-@'')"
proof
  assume n: "\<not> formula_trigger v" and h: "v \<noteq> [] \<and> hd v \<in> set ''=+-@''"
  have "set ''=+-@'' \<subseteq> set formula_bytes" by code_simp
  with h n show False by (auto simp only: formula_trigger_iff list_ex_starts_with)
qed

lemma neutralize_id:
  assumes "\<not> formula_trigger v" "clean_text v" "length v \<le> 4096"
  shows "neutralize_formula v = v"
proof -
  have "scrub_ansi_and_control v max_banner_bytes = v"
    using assms(2,3) by (intro sc.scrub_id) (simp_all add: max_banner_bytes_def)
  with not_trigger_hd [OF assms(1)] assms(1) show ?thesis
    by (simp only: neutralize_formula_eq Let_def if_False simp_thms)
qed

text \<open>
  The cell that the formula neutraliser returns is clean text of at most 4097 bytes that never
  starts with \<open>=\<close>, \<open>+\<close>, \<open>-\<close>, \<open>@\<close>, a tab or a carriage return; a value whose first byte behind
  its leading blanks is one of these is quoted, and a clean short value without one is unchanged.
\<close>

theorem neutralize_formula_spec:
  assumes "valid_utf8 v"
  shows "clean_text (neutralize_formula v) \<and> length (neutralize_formula v) \<le> 4097 \<and>
    (neutralize_formula v = [] \<or> hd (neutralize_formula v) \<notin> set formula_bytes) \<and>
    (formula_trigger v \<longrightarrow> neutralize_formula v = CHR 0x27 # scrub_ansi_and_control v 4096) \<and>
    (\<not> formula_trigger v \<and> clean_text v \<and> length v \<le> 4096 \<longrightarrow> neutralize_formula v = v)"
  using neutralize_clean [OF assms] neutralize_bounded neutralize_safe [OF assms] neutralize_id
  by (simp add: neutralize_formula_eq Let_def max_banner_bytes_def)

theorem neutralize_formula_spec_witness:
  "neutralize_formula ''  =HYPERLINK(1)'' = CHR 0x27 # ''  =HYPERLINK(1)'' \<and>
   clean_text (neutralize_formula ''  =HYPERLINK(1)'')"
proof -
  have "valid_utf8 ''  =HYPERLINK(1)''" "formula_trigger ''  =HYPERLINK(1)''"
    "scrub_ansi_and_control ''  =HYPERLINK(1)'' 4096 = ''  =HYPERLINK(1)''"
    by code_simp+
  then show ?thesis using neutralize_formula_spec [of "''  =HYPERLINK(1)''"] by metis
qed

text \<open>
  The trigger test reads the raw value, the quote guards the scrubbed one: a blank behind an
  escape sequence hides the formula from both tests, and the blank is what the cell starts with.
\<close>

lemma formula_behind_escape:
  "neutralize_formula (CHR 0x1B # ''[m =1+1'') = '' =1+1''"
  "neutralize_formula '' =1+1'' = [CHR 0x27] @ '' =1+1''"
  by code_simp+

section \<open>The host banner's alphabet\<close>

definition host_byte :: "char \<Rightarrow> bool" where
  "host_byte b \<longleftrightarrow> (is_alnum b \<and> lower_byte b = b) \<or> b \<in> set ''.-[]:''"

lemma host_char_lower: "host_char c \<Longrightarrow> \<exists>b. lower c = [b] \<and> host_byte b"
proof -
  assume "host_char c"
  then obtain b where c: "c = [b]" and b: "is_alnum b \<or> b \<in> set ''.-[]:''"
    by (auto simp: host_char_def split: list.splits)
  have "\<forall>b \<in> set ''.-[]:''. lower_byte b = b" by code_simp
  moreover have "is_alnum b \<Longrightarrow> is_alnum (lower_byte b)"
    by (auto simp: is_alnum_def is_digit_def ord_lower_byte)
  ultimately show ?thesis using b c by (auto simp only: lower_Cons lower_Nil host_byte_def lower_byte_idem)
qed

lemma lower_concat: "lower (concat cs) = concat (map lower cs)"
  by (induction cs) (simp_all add: lower_append)

lemma host_chars:
  "list_all host_char cs \<Longrightarrow> list_all host_byte (lower (concat cs)) \<and> length (concat cs) = length cs"
proof (induction cs)
  case (Cons c cs)
  from host_char_lower [of c] Cons.prems obtain b where b: "lower c = [b]" "host_byte b" by auto
  then have "length c = 1" using length_lower [of c] by simp
  with b Cons show ?case by (simp add: lower_append)
qed simp

lemma host_banner_chars:
  "list_all host_byte (sanitize_host_banner raw) \<and> length (sanitize_host_banner raw) \<le> 253"
proof -
  define host where "host = (let scrubbed = scrub_ansi_and_control (trim raw) (max_hostname_bytes + 16)
    in if starts_with scrubbed ''['' then
         (if CHR '']'' \<in> set scrubbed then before CHR '']'' scrubbed @ '']'' else scrubbed)
       else before CHR '':'' scrubbed)"
  let ?cs = "take max_hostname_bytes (filter host_char (chars host))"
  have "list_all host_char ?cs" by (auto simp: list_all_iff dest: in_set_takeD)
  then have "list_all host_byte (lower (concat ?cs)) \<and> length (concat ?cs) \<le> max_hostname_bytes"
    using host_chars by simp
  then show ?thesis
    by (simp add: sanitize_host_banner_def host_def Let_def max_hostname_bytes_def)
qed

lemma lower_byte_special: "b \<in> set ''.-[]:'' \<Longrightarrow> lower_byte c = b \<longleftrightarrow> c = b"
proof
  assume b: "b \<in> set ''.-[]:''" and l: "lower_byte c = b"
  have "\<forall>b \<in> set ''.-[]:''. \<not> (97 \<le> ord b \<and> ord b \<le> 122)" by code_simp
  with b l have "\<not> (97 \<le> ord (lower_byte c) \<and> ord (lower_byte c) \<le> 122)" by blast
  then have "\<not> (65 \<le> ord c \<and> ord c \<le> 90)" by (auto simp: ord_lower_byte)
  with l show "c = b" by (simp add: lower_byte_def)
next
  assume b: "b \<in> set ''.-[]:''" and "c = b"
  moreover have "\<forall>b \<in> set ''.-[]:''. lower_byte b = b" by code_simp
  ultimately show "lower_byte c = b" by blast
qed

lemma notin_map_fix: "(\<And>c. f c = b \<longleftrightarrow> c = (b :: char)) \<Longrightarrow> b \<notin> set s \<Longrightarrow> b \<notin> set (map f s)"
  by (metis (no_types, opaque_lifting) image_iff list.set_map)

lemma colon_notin_lower: "CHR '':'' \<notin> set s \<Longrightarrow> CHR '':'' \<notin> set (lower s)"
proof -
  have "CHR '':'' \<in> set ''.-[]:''" by code_simp
  from lower_byte_special [OF this] show "CHR '':'' \<notin> set s \<Longrightarrow> ?thesis"
    unfolding lower_def by (rule notin_map_fix)
qed

lemma set_concat_take_filter: "set (concat (take n (filter P cs))) \<subseteq> set (concat cs)"
  using set_take_subset [of n "filter P cs"] filter_is_subset [of P cs] by auto

lemma host_banner_colon:
  "CHR '':'' \<in> set (sanitize_host_banner raw) \<Longrightarrow> hd (sanitize_host_banner raw) = CHR ''[''"
proof -
  define s where "s = scrub_ansi_and_control (trim raw) (max_hostname_bytes + 16)"
  assume c: "CHR '':'' \<in> set (sanitize_host_banner raw)"
  have sp: "CHR '':'' \<in> set ''.-[]:''" "CHR ''['' \<in> set ''.-[]:''" by code_simp+
  show ?thesis
  proof (cases "starts_with s ''[''")
    case True
    then obtain r where r: "s = CHR ''['' # r" by (auto simp: starts_with_def prefix_def)
    have "is_ascii (CHR ''['')" "host_char ''[''" "lower_byte (CHR ''['') = CHR ''[''"
      "CHR ''['' \<noteq> CHR '']''" by code_simp+
    then have "\<exists>u. lower (concat (take max_hostname_bytes (filter host_char (chars (CHR ''['' # v))))) = CHR ''['' # u" for v
      by (simp add: utf8_len_ascii max_hostname_bytes_def take_Cons' lower_Cons del: chars.simps(1))
    moreover have "\<exists>v. (if CHR '']'' \<in> set s then before CHR '']'' s @ '']'' else s) = CHR ''['' # v"
      by (simp add: r before_def)
    ultimately obtain u v where
      v: "(if CHR '']'' \<in> set s then before CHR '']'' s @ '']'' else s) = CHR ''['' # v"
      and u: "lower (concat (take max_hostname_bytes (filter host_char (chars (CHR ''['' # v))))) = CHR ''['' # u"
      by blast
    have "sanitize_host_banner raw = CHR ''['' # u"
      by (simp only: sanitize_host_banner_def Let_def s_def [symmetric] True if_True v u)
    then show ?thesis by simp
  next
    case False
    let ?cs = "take max_hostname_bytes (filter host_char (chars (before CHR '':'' s)))"
    have "set (concat ?cs) \<subseteq> set (before CHR '':'' s)"
      using set_concat_take_filter [of max_hostname_bytes host_char "chars (before CHR '':'' s)"]
      by (simp only: concat_chars)
    then have "CHR '':'' \<notin> set (concat ?cs)" using not_in_before [of "CHR '':''" s] by blast
    then have n: "CHR '':'' \<notin> set (lower (concat ?cs))" by (rule colon_notin_lower)
    have "sanitize_host_banner raw = lower (concat ?cs)"
      by (simp only: sanitize_host_banner_def Let_def s_def [symmetric] False if_False)
    with c n show ?thesis by metis
  qed
qed

text \<open>
  The host banner of any header value is made of lower-case letters, digits and \<open>.-[]:\<close>, is at
  most 253 bytes long, and holds a colon only as part of a bracketed literal, so a port never
  survives on a name.
\<close>

theorem host_banner_spec:
  "list_all host_byte (sanitize_host_banner raw) \<and> length (sanitize_host_banner raw) \<le> 253 \<and>
   (CHR '':'' \<in> set (sanitize_host_banner raw) \<longrightarrow> hd (sanitize_host_banner raw) = CHR ''['')"
  using host_banner_chars host_banner_colon by blast

theorem host_banner_spec_witness:
  "hd (sanitize_host_banner '' [::1]:8443 '') = CHR ''['' \<and>
   sanitize_host_banner '' [::1]:8443 '' = ''[::1]''"
proof -
  have e: "sanitize_host_banner '' [::1]:8443 '' = ''[::1]''" by code_simp
  then have "CHR '':'' \<in> set (sanitize_host_banner '' [::1]:8443 '')" by (simp only: e) code_simp
  with e host_banner_spec [of "'' [::1]:8443 ''"] show ?thesis by blast
qed

end
