(* ===== verification/Telemetry.thy ===== *)
theory Telemetry
  imports Rust_Str
begin

text \<open>
  \<open>src/telemetry.rs\<close>: the in-memory request log and the redaction of query strings. The log's
  contract is the locale \<open>ring_log\<close>: an append that drops the oldest entry when the log is full,
  so that the log always holds the newest entries in order.
\<close>

section \<open>Timers\<close>

text \<open>An \<open>Instant\<close> is a number of nanoseconds on the monotonic clock.\<close>

record execution_timer =
  timer_start :: nat

definition elapsed_micros :: "execution_timer \<Rightarrow> nat \<Rightarrow> u64" where
  "elapsed_micros t now = of_nat ((now - timer_start t) div 1000)"

definition elapsed_nanos :: "execution_timer \<Rightarrow> nat \<Rightarrow> 128 word" where
  "elapsed_nanos t now = of_nat (now - timer_start t)"

text \<open>\<open>current_time_ms\<close>: the system clock in milliseconds since 1970, zero when it is before it.\<close>

definition current_time_ms :: "int \<Rightarrow> u64" where
  "current_time_ms clock = (if clock < 0 then 0 else of_int clock)"

section \<open>The ring buffer\<close>

record telemetry_record =
  tr_timestamp_ms :: u64
  tr_client_ip :: string
  tr_method :: string
  tr_path :: string
  tr_status :: u16
  tr_duration_us :: u64
  tr_upstream_target :: "string option"
  tr_threat_trapped :: bool
  tr_threat_category :: "string option"
  tr_user_agent :: "string option"

record telemetry_filter =
  tf_client_ip :: "string option"
  tf_status :: "u16 option"
  tf_threats_only :: bool
  tf_path_contains :: "string option"
  tf_limit :: nat

record telemetry_ring =
  max_capacity :: nat
  ring_records :: "telemetry_record list"

definition new_ring :: "nat \<Rightarrow> telemetry_ring" where
  "new_ring capacity = \<lparr>max_capacity = capacity, ring_records = []\<rparr>"

definition default_ring :: telemetry_ring where
  "default_ring = new_ring 10000"

text \<open>\<open>pop_front\<close> on an empty deque does nothing, as \<^const>\<open>tl\<close> does.\<close>

definition ring_record :: "telemetry_ring \<Rightarrow> telemetry_record \<Rightarrow> telemetry_ring" where
  "ring_record b entry =
     (let buffer = (if length (ring_records b) \<ge> max_capacity b then tl (ring_records b)
                    else ring_records b)
      in b\<lparr>ring_records := buffer @ [entry]\<rparr>)"

definition filter_accepts :: "telemetry_filter \<Rightarrow> telemetry_record \<Rightarrow> bool" where
  "filter_accepts f r =
     (if tf_threats_only f \<and> \<not> tr_threat_trapped r then False
      else if (case tf_client_ip f of Some ip \<Rightarrow> tr_client_ip r \<noteq> ip | None \<Rightarrow> False) then False
      else if (case tf_status f of Some st \<Rightarrow> tr_status r \<noteq> st | None \<Rightarrow> False) then False
      else if (case tf_path_contains f of Some sub \<Rightarrow> \<not> contains (tr_path r) sub | None \<Rightarrow> False)
        then False
      else True)"

definition ring_query :: "telemetry_ring \<Rightarrow> telemetry_filter \<Rightarrow> telemetry_record list" where
  "ring_query b f =
     (let limit = (if tf_limit f = 0 then 50 else tf_limit f)
      in take limit (filter (filter_accepts f) (rev (ring_records b))))"

definition total_records :: "telemetry_ring \<Rightarrow> nat" where
  "total_records b = length (ring_records b)"

definition ring_clear :: "telemetry_ring \<Rightarrow> telemetry_ring" where
  "ring_clear b = b\<lparr>ring_records := []\<rparr>"

section \<open>The contract of the log\<close>

locale ring_log =
  fixes put :: "'s \<Rightarrow> 'a \<Rightarrow> 's"
    and items :: "'s \<Rightarrow> 'a list"
    and cap :: "'s \<Rightarrow> nat"
  assumes put_room: "length (items s) < cap s \<Longrightarrow> items (put s x) = items s @ [x]"
    and put_full: "cap s \<le> length (items s) \<Longrightarrow> items (put s x) = tl (items s) @ [x]"
    and put_cap: "cap (put s x) = cap s"
begin

definition bound :: "'s \<Rightarrow> nat" where
  "bound s = max 1 (cap s)"

lemma bound_put [simp]: "bound (put s x) = bound s"
  by (simp add: bound_def put_cap)

lemma put_last_n:
  assumes "length (items s) \<le> bound s"
  shows "items (put s x) = last_n (bound s) (items s @ [x])"
proof (cases "length (items s) < cap s")
  case True
  then show ?thesis by (simp add: put_room bound_def)
next
  case False
  then have "items (put s x) = tl (items s) @ [x]" by (simp add: put_full)
  moreover have "items s = [] \<or> length (items s) = bound s"
    using assms False by (cases "items s") (auto simp: bound_def max_def split: if_splits)
  ultimately show ?thesis
    by (auto simp: last_n_def bound_def drop_Suc)
qed

lemma length_put: "length (items s) \<le> bound s \<Longrightarrow> length (items (put s x)) \<le> bound s"
  by (simp add: put_last_n)

text \<open>After any sequence of appends the log holds the newest entries, in order.\<close>

lemma puts_last_n:
  "length (items s) \<le> bound s \<Longrightarrow>
     items (foldl put s xs) = last_n (bound s) (items s @ xs) \<and> bound (foldl put s xs) = bound s"
proof (induction xs arbitrary: s)
  case (Cons x xs)
  from Cons.IH [of "put s x"] length_put [OF Cons.prems, of x] show ?case
    by (simp add: put_last_n [OF Cons.prems] last_n_last_n [of _ _ xs, simplified])
qed simp

lemma puts_bounded: "length (items s) \<le> bound s \<Longrightarrow> length (items (foldl put s xs)) \<le> bound s"
  by (simp add: puts_last_n)

end

interpretation tel: ring_log ring_record ring_records max_capacity
  by unfold_locales (simp_all add: ring_record_def Let_def)

lemma ring_after_records:
  "ring_records (foldl ring_record (new_ring c) xs) = last_n (max 1 c) xs"
  using tel.puts_last_n [of "new_ring c" xs] by (simp add: new_ring_def tel.bound_def)

text \<open>
  What a query returns after any sequence of recorded requests. The buffer holds the newest
  \<open>max_capacity\<close> of them (one, for a capacity of zero), and the query lists those that pass the
  filter, newest first, cut at the limit, where a limit of zero stands for fifty.
\<close>

theorem telemetry_query_spec:
  "ring_query (foldl ring_record (new_ring c) xs) f =
     take (if tf_limit f = 0 then 50 else tf_limit f)
       (filter (filter_accepts f) (rev (last_n (max 1 c) xs))) \<and>
   total_records (foldl ring_record (new_ring c) xs) = min (max 1 c) (length xs) \<and>
   ring_records (ring_clear (foldl ring_record (new_ring c) xs)) = []"
  by (simp add: ring_query_def total_records_def ring_clear_def ring_after_records)

section \<open>Redaction of query strings\<close>

definition sensitive_keys :: "string list" where
  "sensitive_keys =
     [''token'', ''key'', ''secret'', ''password'', ''auth'', ''code'', ''pin'', ''jwt'']"

definition sensitive_key :: "string \<Rightarrow> bool" where
  "sensitive_key k = list_ex (contains (lower k)) sensitive_keys"

definition redact_pair :: "string \<Rightarrow> string" where
  "redact_pair pair =
     (case split_once CHR ''='' pair of
        Some (k, _) \<Rightarrow> if sensitive_key k then k @ ''=[REDACTED]'' else pair
      | None \<Rightarrow> pair)"

definition sanitize_query_string :: "string \<Rightarrow> string" where
  "sanitize_query_string raw =
     (if raw = [] then [] else join ''&'' (map redact_pair (split_on CHR ''&'' raw)))"

text \<open>
  The grammar of a query: parameters, joined by ampersands, each a key with or without a value. A key names
  a secret when one of the words is a part of it, in capital or small letters.
\<close>

type_synonym query_param = "string \<times> string option"

definition param_text :: "query_param \<Rightarrow> string" where
  "param_text kv = (case kv of (k, Some v) \<Rightarrow> k @ CHR ''='' # v | (k, None) \<Rightarrow> k)"

definition query_of :: "query_param list \<Rightarrow> string" where
  "query_of ps = join ''&'' (map param_text ps)"

definition wf_param :: "query_param \<Rightarrow> bool" where
  "wf_param kv \<longleftrightarrow>
     (case kv of (k, v) \<Rightarrow> CHR ''='' \<notin> set k \<and> CHR ''&'' \<notin> set k \<and>
        (case v of Some x \<Rightarrow> CHR ''&'' \<notin> set x | None \<Rightarrow> True))"

definition names_secret :: "string \<Rightarrow> bool" where
  "names_secret k \<longleftrightarrow>
     (\<exists>word \<in> set (sublists k).
        lower word \<in> {''token'', ''key'', ''secret'', ''password'', ''auth'', ''code'', ''pin'', ''jwt''})"

definition blinded :: "query_param \<Rightarrow> query_param" where
  "blinded kv = (case kv of (k, v) \<Rightarrow> (k, if names_secret k then map_option (\<lambda>_. ''[REDACTED]'') v else v))"

lemma sublist_lower: "sublist p (lower k) \<longleftrightarrow> (\<exists>w. sublist w k \<and> lower w = p)"
proof
  assume "sublist p (lower k)"
  then obtain a b where "map lower_byte k = a @ p @ b" by (auto simp: sublist_def lower_def)
  then show "\<exists>w. sublist w k \<and> lower w = p"
    by (auto simp: map_eq_append_conv append_eq_map_conv lower_def sublist_def)
next
  assume "\<exists>w. sublist w k \<and> lower w = p"
  then obtain w a b where "k = a @ w @ b" "lower w = p" by (auto simp: sublist_def)
  then have "lower k = lower a @ p @ lower b" by (simp add: lower_append)
  then show "sublist p (lower k)" unfolding sublist_def by blast
qed

lemma sensitive_iff: "sensitive_key k \<longleftrightarrow> names_secret k"
  by (auto simp: sensitive_key_def sensitive_keys_def names_secret_def contains_iff_sublist sublist_lower)

lemma redact_param:
  assumes "wf_param p"
  shows "redact_pair (param_text p) = param_text (blinded p)"
proof (cases p)
  case (Pair k v)
  have k: "CHR ''='' \<notin> set k" using assms Pair by (simp add: wf_param_def)
  show ?thesis
  proof (cases v)
    case None
    then show ?thesis using Pair k by (simp add: param_text_def blinded_def redact_pair_def)
  next
    case (Some x)
    have "param_text p = k @ CHR ''='' # x" by (simp add: Pair Some param_text_def)
    moreover have "redact_pair (k @ CHR ''='' # x) = (if names_secret k then k @ CHR ''='' # ''[REDACTED]'' else k @ CHR ''='' # x)"
      by (simp only: redact_pair_def split_once_append [OF k] option.case prod.case sensitive_iff append_Cons append_Nil)
    ultimately show ?thesis by (simp add: Pair Some param_text_def blinded_def)
  qed
qed

lemma param_amp: "wf_param p \<Longrightarrow> CHR ''&'' \<notin> set (param_text p)"
  by (auto simp: wf_param_def param_text_def split: prod.splits option.splits)

lemma sanitize_eq_join: "sanitize_query_string q = join ''&'' (map redact_pair (split_on CHR ''&'' q))"
proof -
  have "redact_pair [] = []" by (simp add: redact_pair_def)
  then show ?thesis by (simp add: sanitize_query_string_def)
qed

lemma sanitize_query_of:
  assumes "list_all wf_param ps"
  shows "sanitize_query_string (query_of ps) = query_of (map blinded ps)"
proof (cases ps)
  case Nil
  then show ?thesis by (simp add: query_of_def sanitize_query_string_def)
next
  case (Cons p ps')
  have "split_on CHR ''&'' (query_of ps) = map param_text ps"
    unfolding query_of_def using assms param_amp Cons by (intro split_on_join) (auto simp: list_all_iff)
  moreover have "map redact_pair (map param_text ps) = map param_text (map blinded ps)"
    using assms redact_param by (auto simp: list_all_iff)
  ultimately show ?thesis by (simp only: sanitize_eq_join query_of_def [of "map blinded ps"])
qed

text \<open>Every query is one of the grammar.\<close>

definition parse_param :: "string \<Rightarrow> query_param" where
  "parse_param s = (case split_once CHR ''='' s of Some (k, v) \<Rightarrow> (k, Some v) | None \<Rightarrow> (s, None))"

lemma parse_param_ok:
  assumes "CHR ''&'' \<notin> set s"
  shows "wf_param (parse_param s) \<and> param_text (parse_param s) = s"
proof (cases "split_once CHR ''='' s")
  case None
  then have "CHR ''='' \<notin> set s" by (simp add: split_once_def split: if_splits)
  with None assms show ?thesis by (simp add: parse_param_def wf_param_def param_text_def)
next
  case (Some kv)
  obtain k v where kv: "kv = (k, v)" by fastforce
  from split_once_Some [OF Some [unfolded kv]] Some kv assms show ?thesis
    by (auto simp: parse_param_def wf_param_def param_text_def)
qed

lemma query_parses: "\<exists>ps. list_all wf_param ps \<and> query_of ps = q"
proof (intro exI conjI)
  have p: "wf_param (parse_param w) \<and> param_text (parse_param w) = w" if "w \<in> set (split_on CHR ''&'' q)" for w
    using parse_param_ok split_on_pieces that by blast
  then show "list_all wf_param (map parse_param (split_on CHR ''&'' q))" by (simp add: list_all_iff)
  have "map param_text (map parse_param (split_on CHR ''&'' q)) = split_on CHR ''&'' q"
    using p by (simp add: map_idI)
  then show "query_of (map parse_param (split_on CHR ''&'' q)) = q" by (simp add: query_of_def join_split_on)
qed

text \<open>
  C30: what the log keeps of a query. Every query is a sequence of parameters; in the logged form each keeps
  its place and its key, and it keeps its value unless its key contains, in whatever case, one of the words
  token, key, secret, password, auth, code, pin and jwt: then the marker stands for the value. So two queries
  that differ only in the values of such keys have the same logged form.
\<close>

theorem query_redaction:
  "(\<exists>ps. list_all wf_param ps \<and> query_of ps = q) \<and>
   (\<forall>ps. list_all wf_param ps \<and> query_of ps = q \<longrightarrow>
      sanitize_query_string q =
        query_of (map (\<lambda>(k, v). (k, if names_secret k then map_option (\<lambda>_. ''[REDACTED]'') v else v)) ps) \<and>
      (\<forall>ps'. list_all wf_param ps' \<and>
         list_all2 (\<lambda>(k, v) (k', v'). k' = k \<and> (v' = v \<or> names_secret k \<and> v \<noteq> None \<and> v' \<noteq> None)) ps ps' \<longrightarrow>
           sanitize_query_string (query_of ps') = sanitize_query_string q))"
proof (intro conjI allI impI query_parses)
  have b: "map (\<lambda>(k, v). (k, if names_secret k then map_option (\<lambda>_. ''[REDACTED]'') v else v)) ps = map blinded ps" for ps
    by (simp add: blinded_def [abs_def])
  fix ps
  assume ps: "list_all wf_param ps \<and> query_of ps = q"
  then show "sanitize_query_string q =
      query_of (map (\<lambda>(k, v). (k, if names_secret k then map_option (\<lambda>_. ''[REDACTED]'') v else v)) ps)"
    using sanitize_query_of b by metis
  fix ps'
  assume ps': "list_all wf_param ps' \<and>
    list_all2 (\<lambda>(k, v) (k', v'). k' = k \<and> (v' = v \<or> names_secret k \<and> v \<noteq> None \<and> v' \<noteq> None)) ps ps'"
  then have "list_all2 (\<lambda>p p'. blinded p' = blinded p) ps ps'"
    by (auto simp: blinded_def elim!: list_all2_mono)
  then have "map blinded ps' = map blinded ps"
    by (induction rule: list_all2_induct) simp_all
  with ps ps' sanitize_query_of show "sanitize_query_string (query_of ps') = sanitize_query_string q" by metis
qed

theorem query_redaction_witness:
  "sanitize_query_string ''a=1&API_KEY=s'' = ''a=1&API_KEY=[REDACTED]'' \<and>
   sanitize_query_string ''a=1&API_KEY=o'' = ''a=1&API_KEY=[REDACTED]''"
proof -
  let ?ps = "\<lambda>v. [(''a'', Some ''1''), (''API_KEY'', Some v)]"
  have q: "query_of (?ps ''s'') = ''a=1&API_KEY=s''" "query_of (?ps ''o'') = ''a=1&API_KEY=o''"
    "list_all wf_param (?ps ''s'')" "list_all wf_param (?ps ''o'')"
    "query_of (map (\<lambda>(k, v). (k, if names_secret k then map_option (\<lambda>_. ''[REDACTED]'') v else v)) (?ps ''s'')) =
       ''a=1&API_KEY=[REDACTED]''"
    "list_all2 (\<lambda>(k, v) (k', v'). k' = k \<and> (v' = v \<or> names_secret k \<and> v \<noteq> None \<and> v' \<noteq> None)) (?ps ''s'') (?ps ''o'')"
    by code_simp+
  note r = query_redaction [of "query_of (?ps ''s'')", THEN conjunct2, rule_format, of "?ps ''s''", OF conjI [OF q(3) refl]]
  from r have "sanitize_query_string (query_of (?ps ''s'')) = ''a=1&API_KEY=[REDACTED]''" using q(5) by metis
  moreover have "sanitize_query_string (query_of (?ps ''o'')) = sanitize_query_string (query_of (?ps ''s''))"
    using conjunct2 [OF r, rule_format, of "?ps ''o''", OF conjI [OF q(4,6)]] .
  ultimately show ?thesis unfolding q(1,2) by metis
qed

end
