(* ===== verification/Tls_Fingerprint.thy ===== *)
theory Tls_Fingerprint
  imports Rust_Str
begin

unbundle bit_operations_syntax

text \<open>
  \<open>src/tls_fingerprint.rs\<close>: the \<open>ClientHello\<close> parser and the coherence check of the user agent.
  The parser indexes the peeked buffer, so every index is a partial operation whose failure is the
  panic of the Rust code; the lemmas show that it never happens, and that a well-formed hello is
  read as what it says. Indices are natural numbers: they stay below the buffer's length plus
  \<open>2 ^ 17\<close>, so the \<open>usize\<close> arithmetic does not wrap.
\<close>

section \<open>GREASE values\<close>

definition is_grease_u16 :: "u16 \<Rightarrow> bool" where
  "is_grease_u16 val \<longleftrightarrow> val AND 0x0f0f = 0x0a0a \<and> drop_bit 8 val = val AND 0x00ff"

record client_tls_profile =
  has_grease :: bool
  cipher_count :: nat
  offers_h2 :: bool
  has_sni :: bool
  primary_ciphers :: "u16 list"

datatype coherence_verdict =
    Coherent
  | Spoofed string

section \<open>Reading the buffer\<close>

definition buf_at :: "u8 list \<Rightarrow> nat \<Rightarrow> u8 option" where
  "buf_at buf i = (if i < length buf then Some (buf ! i) else None)"

definition read_u16 :: "u8 list \<Rightarrow> nat \<Rightarrow> u16 option" where
  "read_u16 buf i = do { hi \<leftarrow> buf_at buf i; lo \<leftarrow> buf_at buf (i + 1); Some (be16 hi lo) }"

text \<open>\<open>&buf[i..j]\<close>.\<close>

definition slice :: "u8 list \<Rightarrow> nat \<Rightarrow> nat \<Rightarrow> u8 list option" where
  "slice buf i j = (if i \<le> j \<and> j \<le> length buf then Some (take (j - i) (drop i buf)) else None)"

text \<open>The loop over \<open>chunks_exact(2)\<close> of the cipher suites.\<close>

fun cipher_loop :: "u8 list \<Rightarrow> bool \<Rightarrow> u16 list \<Rightarrow> bool \<times> u16 list" where
  "cipher_loop (hi # lo # cs) grease primary =
     (let cipher = be16 hi lo
      in if is_grease_u16 cipher then cipher_loop cs True primary
         else if length primary < 3 then cipher_loop cs grease (primary @ [cipher])
         else cipher_loop cs grease primary)"
| "cipher_loop _ grease primary = (grease, primary)"

text \<open>\<open>windows(2).any(|w| w == b"h2")\<close>.\<close>

fun window_h2 :: "u8 list \<Rightarrow> bool" where
  "window_h2 (a # b # bs) = (a = 0x68 \<and> b = 0x32 \<or> window_h2 (b # bs))"
| "window_h2 _ = False"

text \<open>The loop over the extensions; its state is \<open>has_grease\<close>, \<open>offers_h2\<close>, \<open>has_sni\<close>.\<close>

type_synonym ext_state = "bool \<times> bool \<times> bool"

definition ext_body :: "u8 list \<Rightarrow> nat \<Rightarrow> nat \<Rightarrow> ext_state \<Rightarrow> (nat \<times> ext_state) option" where
  "ext_body buf ext_end idx = (\<lambda>(grease, h2, sni). do {
     ext_type \<leftarrow> read_u16 buf idx;
     el \<leftarrow> read_u16 buf (idx + 2);
     let ext_len = unat el;
     let idx = idx + 4;
     let grease = (if is_grease_u16 ext_type then True else grease);
     (h2, sni) \<leftarrow>
       (if ext_type = 0x0000 then Some (h2, True)
        else if ext_type = 0x0010 \<and> idx + ext_len \<le> ext_end then do {
          alpn_data \<leftarrow> slice buf idx (idx + ext_len);
          Some (if window_h2 alpn_data then True else h2, sni) }
        else Some (h2, sni));
     Some (idx + ext_len, (grease, h2, sni)) })"

lemma ext_body_progress: "ext_body buf ext_end idx st = Some (idx', st') \<Longrightarrow> idx + 4 \<le> idx'"
  by (auto simp: ext_body_def Let_def bind_eq_Some_conv split: prod.splits)

function ext_loop :: "u8 list \<Rightarrow> nat \<Rightarrow> nat \<Rightarrow> ext_state \<Rightarrow> ext_state option" where
  "ext_loop buf ext_end idx st =
     (if idx + 4 \<le> ext_end then do {
        (idx', st') \<leftarrow> ext_body buf ext_end idx st;
        ext_loop buf ext_end idx' st' }
      else Some st)"
  by pat_completeness auto
termination
  by (relation "measure (\<lambda>(buf, ext_end, idx, st). ext_end + 1 - idx)")
    (auto dest: ext_body_progress)

declare ext_loop.simps [simp del]

text \<open>\<open>None\<close> is a panic, \<open>Some None\<close> the parser's \<open>None\<close>.\<close>

definition parse_tail :: "u8 list \<Rightarrow> nat \<Rightarrow> nat \<Rightarrow> bool \<Rightarrow> u16 list \<Rightarrow> client_tls_profile option option" where
  "parse_tail buf idx suites_len grease primary =
     (if length buf \<le> idx then Some None else do {
        compression_len \<leftarrow> buf_at buf idx;
        let idx = idx + (1 + unat compression_len);
        (grease, h2, sni) \<leftarrow>
          (if length buf \<ge> idx + 2 then do {
             extensions_len \<leftarrow> read_u16 buf idx;
             let idx = idx + 2;
             let ext_end = min (idx + unat extensions_len) (length buf);
             ext_loop buf ext_end idx (grease, False, False) }
           else Some (grease, False, False));
        Some (Some \<lparr>has_grease = grease, cipher_count = suites_len div 2,
          offers_h2 = h2, has_sni = sni, primary_ciphers = primary\<rparr>) })"

definition parse_suites :: "u8 list \<Rightarrow> nat \<Rightarrow> client_tls_profile option option" where
  "parse_suites buf idx =
     (if length buf < idx + 2 then Some None else do {
        cl \<leftarrow> read_u16 buf idx;
        let suites_len = unat cl;
        let idx = idx + 2;
        if length buf < idx + suites_len then Some None else do {
          suites \<leftarrow> slice buf idx (idx + suites_len);
          let (grease, primary) = cipher_loop suites False [];
          parse_tail buf (idx + suites_len) suites_len grease primary } })"

definition parse_client_hello :: "u8 list \<Rightarrow> client_tls_profile option option" where
  "parse_client_hello buf =
     (if length buf < 43 then Some None else do {
        b0 \<leftarrow> buf_at buf 0;
        if b0 \<noteq> 0x16 then Some None else do {
          record_len \<leftarrow> read_u16 buf 3;
          b5 \<leftarrow> buf_at buf 5;
          if b5 \<noteq> 0x01 then Some None else do {
            b6 \<leftarrow> buf_at buf 6;
            b7 \<leftarrow> buf_at buf 7;
            b8 \<leftarrow> buf_at buf 8;
            let hello_len = unat b6 * 65536 + unat b7 * 256 + unat b8;
            let idx = 43;
            if length buf \<le> idx then Some None else do {
              session_id_len \<leftarrow> buf_at buf idx;
              parse_suites buf (idx + (1 + unat session_id_len)) } } } })"

section \<open>The user agent\<close>

definition browser_reason :: string where
  "browser_reason = ''User-Agent claims modern Chrome/Safari/Edge browser, but TLS ClientHello lacks mandatory RFC 8701 GREASE signatures (Python/Go/CLI impersonation detected)''"

definition alpn_reason :: string where
  "alpn_reason = ''User-Agent claims Chrome/Edge browser, but TLS ClientHello omits HTTP/2 ALPN and has truncated cipher list''"

definition claims_chrome :: "string \<Rightarrow> bool" where
  "claims_chrome ua = (contains ua ''Chrome/'' \<or> contains ua ''CriOS/'')"

definition claims_safari :: "string \<Rightarrow> bool" where
  "claims_safari ua =
     (contains ua ''Safari/'' \<and> \<not> contains ua ''Chrome/'' \<and> contains ua ''Version/'')"

definition claims_edge :: "string \<Rightarrow> bool" where
  "claims_edge ua = (contains ua ''Edg/'' \<or> contains ua ''Edge/'')"

definition search_spider :: "string \<Rightarrow> bool" where
  "search_spider ua =
     (contains ua ''Googlebot'' \<or> contains ua ''bingbot'' \<or> contains ua ''Baiduspider'' \<or>
      contains ua ''YandexBot'')"

definition verify_user_agent_coherence ::
    "client_tls_profile \<Rightarrow> string option \<Rightarrow> coherence_verdict" where
  "verify_user_agent_coherence p user_agent =
     (case user_agent of
        None \<Rightarrow> Coherent
      | Some ua0 \<Rightarrow>
          (let ua = trim ua0
           in if search_spider ua then Coherent
              else if (claims_chrome ua \<or> claims_edge ua \<or> claims_safari ua) \<and> \<not> has_grease p
                then Spoofed browser_reason
              else if (claims_chrome ua \<or> claims_edge ua) \<and> \<not> offers_h2 p \<and> cipher_count p < 10
                then Spoofed alpn_reason
              else Coherent))"

section \<open>No panic\<close>

lemma buf_at_ok [simp]: "i < length buf \<Longrightarrow> buf_at buf i = Some (buf ! i)"
  by (simp add: buf_at_def)

declare add_2_eq_Suc' [simp del]

lemma read_u16_ok:
  "Suc i < length buf \<Longrightarrow> read_u16 buf i = Some (be16 (buf ! i) (buf ! Suc i))"
  by (simp add: read_u16_def)

lemma slice_ok [simp]:
  "i + n \<le> length buf \<Longrightarrow> slice buf i (i + n) = Some (take n (drop i buf))"
  by (simp add: slice_def)

lemma ext_body_eq:
  assumes "read_u16 buf idx = Some ty" "read_u16 buf (idx + 2) = Some w" "ext_end \<le> length buf"
  shows "ext_body buf ext_end idx (g, h2, sni) =
    Some (idx + 4 + unat w,
      (is_grease_u16 ty \<or> g,
       h2 \<or> (ty = 0x0010 \<and> idx + 4 + unat w \<le> ext_end \<and>
              window_h2 (take (unat w) (drop (idx + 4) buf))),
       sni \<or> ty = 0))"
proof -
  have s: "idx + 4 + unat w \<le> ext_end \<Longrightarrow>
      slice buf (idx + 4) (idx + 4 + unat w) = Some (take (unat w) (drop (idx + 4) buf))"
    using assms(3) by (intro slice_ok) simp
  consider "ty = 0" | "ty = 0x0010" "idx + 4 + unat w \<le> ext_end" | "ty = 0x0010" "\<not> idx + 4 + unat w \<le> ext_end"
    | "ty \<noteq> 0" "ty \<noteq> 0x0010" by blast
  then show ?thesis
  proof cases
    case 2
    with assms s [OF 2(2)] show ?thesis by (simp add: ext_body_def Let_def)
  qed (use assms in \<open>simp_all add: ext_body_def Let_def\<close>)
qed

lemma read_u16_total: "i + 2 \<le> length buf \<Longrightarrow> \<exists>w. read_u16 buf i = Some w"
  by (simp add: read_u16_ok)

lemma ext_loop_total: "ext_end \<le> length buf \<Longrightarrow> \<exists>st'. ext_loop buf ext_end idx st = Some st'"
proof (induction buf ext_end idx st rule: ext_loop.induct)
  case (1 buf ext_end idx st)
  show ?case
  proof (cases "idx + 4 \<le> ext_end")
    case False
    then show ?thesis by (subst ext_loop.simps) (cases st, simp)
  next
    case True
    obtain g h2 sni where st: "st = (g, h2, sni)" by (cases st)
    obtain ty w where "read_u16 buf idx = Some ty" "read_u16 buf (idx + 2) = Some w"
      using True 1(2) read_u16_total [of idx buf] read_u16_total [of "idx + 2" buf] by auto
    from ext_body_eq [OF this 1(2)] obtain idx' st' where "ext_body buf ext_end idx st = Some (idx', st')"
      unfolding st by blast
    with 1 True show ?thesis
      by (subst ext_loop.simps) simp
  qed
qed

lemma parse_tail_total: "\<exists>r. parse_tail buf idx n g ps = Some r"
proof (cases "length buf \<le> idx")
  case False
  let ?i = "idx + (1 + unat (buf ! idx))"
  show ?thesis
  proof (cases "length buf \<ge> ?i + 2")
    case True
    then obtain xl where xl: "read_u16 buf ?i = Some xl" using read_u16_total [of ?i buf] by auto
    obtain g' h2 s where "ext_loop buf (min (?i + 2 + unat xl) (length buf)) (?i + 2) (g, False, False) = Some (g', h2, s)"
      using ext_loop_total [of "min (?i + 2 + unat xl) (length buf)" buf "?i + 2" "(g, False, False)"]
      by auto
    with False True xl show ?thesis by (simp add: parse_tail_def Let_def)
  next
    case short: False
    with False show ?thesis by (simp add: parse_tail_def Let_def)
  qed
qed (simp add: parse_tail_def)

lemma parse_suites_eq:
  assumes "read_u16 buf idx = Some cl" "idx + 2 \<le> length buf"
  shows "parse_suites buf idx =
    (if length buf < idx + 2 + unat cl then Some None
     else case cipher_loop (take (unat cl) (drop (idx + 2) buf)) False [] of
       (g, ps) \<Rightarrow> parse_tail buf (idx + 2 + unat cl) (unat cl) g ps)"
proof (cases "length buf < idx + 2 + unat cl")
  case False
  then have "slice buf (idx + 2) (idx + 2 + unat cl) = Some (take (unat cl) (drop (idx + 2) buf))"
    by (intro slice_ok) simp
  with assms False show ?thesis by (simp add: parse_suites_def Let_def)
qed (use assms in \<open>simp add: parse_suites_def Let_def\<close>)

lemma parse_suites_total: "\<exists>r. parse_suites buf idx = Some r"
proof (cases "length buf < idx + 2")
  case False
  then obtain cl where "read_u16 buf idx = Some cl" using read_u16_total [of idx buf] by auto
  with False show ?thesis
    using parse_tail_total by (simp add: parse_suites_eq split: prod.splits)
qed (simp add: parse_suites_def)

lemma parse_client_hello_eq:
  "parse_client_hello buf =
     (if length buf < 44 \<or> buf ! 0 \<noteq> 0x16 \<or> buf ! 5 \<noteq> 0x01 then Some None
      else parse_suites buf (44 + unat (buf ! 43)))"
proof (cases "length buf < 43")
  case False
  then obtain w where "read_u16 buf 3 = Some w" using read_u16_total [of 3 buf] by auto
  moreover from False have "buf_at buf 0 = Some (buf ! 0)" "buf_at buf 5 = Some (buf ! 5)"
    "buf_at buf 6 = Some (buf ! 6)" "buf_at buf 7 = Some (buf ! 7)" "buf_at buf 8 = Some (buf ! 8)"
    by (intro buf_at_ok; linarith)+
  ultimately show ?thesis
    using False by (simp add: parse_client_hello_def Let_def)
qed (simp add: parse_client_hello_def)

lemma parse_total: "\<exists>r. parse_client_hello buf = Some r"
  using parse_suites_total by (simp add: parse_client_hello_eq)

lemma cipher_loop_bound:
  "cipher_loop cs g ps = (g', ps') \<Longrightarrow> length ps \<le> 3 \<Longrightarrow> list_all (\<lambda>c. \<not> is_grease_u16 c) ps \<Longrightarrow>
     length ps' \<le> 3 \<and> list_all (\<lambda>c. \<not> is_grease_u16 c) ps'"
  by (induction cs g ps rule: cipher_loop.induct) (auto simp: Let_def split: if_splits)

lemma parse_tail_primary:
  "parse_tail buf idx n g ps = Some (Some p) \<Longrightarrow> primary_ciphers p = ps \<and> cipher_count p = n div 2"
  by (auto simp: parse_tail_def Let_def bind_eq_Some_conv split: if_splits prod.splits)

lemma parse_suites_bound:
  assumes "parse_suites buf idx = Some (Some p)"
  shows "length (primary_ciphers p) \<le> 3 \<and> list_all (\<lambda>c. \<not> is_grease_u16 c) (primary_ciphers p) \<and>
    2 * cipher_count p + idx + 2 \<le> length buf"
proof -
  from assms have l: "idx + 2 \<le> length buf" by (auto simp: parse_suites_def split: if_splits)
  then obtain cl where cl: "read_u16 buf idx = Some cl" using read_u16_total [of idx buf] by auto
  obtain g ps where c: "cipher_loop (take (unat cl) (drop (idx + 2) buf)) False [] = (g, ps)"
    by fastforce
  with assms cl l have "idx + 2 + unat cl \<le> length buf"
    and t: "parse_tail buf (idx + 2 + unat cl) (unat cl) g ps = Some (Some p)"
    by (auto simp: parse_suites_eq [OF cl l] split: if_splits)
  with parse_tail_primary [OF t] cipher_loop_bound [OF c] show ?thesis by auto
qed

text \<open>
  C28: the parser never panics, whatever bytes a client sends, and what it returns is bounded: at
  most three primary suites, none of them a GREASE value, and no more suites than fit into the
  buffer behind the fixed part of the hello.
\<close>

theorem parse_client_hello_safe:
  "case parse_client_hello buf of
     None \<Rightarrow> False
   | Some None \<Rightarrow> True
   | Some (Some p) \<Rightarrow>
       length (primary_ciphers p) \<le> 3 \<and> list_all (\<lambda>c. \<not> is_grease_u16 c) (primary_ciphers p) \<and>
       2 * cipher_count p + 46 \<le> length buf"
proof -
  obtain r where r: "parse_client_hello buf = Some r" using parse_total by blast
  then show ?thesis
    by (cases r) (auto simp: parse_client_hello_eq dest: parse_suites_bound split: if_splits)
qed

section \<open>Reading back a well-formed hello\<close>

text \<open>A \<open>ClientHello\<close> and its encoding in one TLS record.\<close>

record client_hello =
  ch_version :: "u8 list"
  ch_random :: "u8 list"
  ch_session :: "u8 list"
  ch_ciphers :: "u16 list"
  ch_compression :: "u8 list"
  ch_extensions :: "(u16 \<times> u8 list) list"

definition u16_bytes :: "u16 \<Rightarrow> u8 list" where
  "u16_bytes w = [ucast (drop_bit 8 w), ucast w]"

definition len_bytes :: "nat \<Rightarrow> u8 list" where
  "len_bytes n = u16_bytes (of_nat n)"

definition ext_bytes :: "(u16 \<times> u8 list) list \<Rightarrow> u8 list" where
  "ext_bytes exts = concat (map (\<lambda>(ty, d). u16_bytes ty @ len_bytes (length d) @ d) exts)"

definition hello_bytes :: "client_hello \<Rightarrow> u8 list" where
  "hello_bytes c =
     ch_version c @ ch_random c @
     [of_nat (length (ch_session c))] @ ch_session c @
     len_bytes (2 * length (ch_ciphers c)) @ concat (map u16_bytes (ch_ciphers c)) @
     [of_nat (length (ch_compression c))] @ ch_compression c @
     len_bytes (length (ext_bytes (ch_extensions c))) @ ext_bytes (ch_extensions c)"

definition encode_hello :: "client_hello \<Rightarrow> u8 list" where
  "encode_hello c =
     (let n = length (hello_bytes c)
      in [0x16, 0x03, 0x01] @ len_bytes (n + 4) @ [0x01, 0] @ len_bytes n @ hello_bytes c)"

definition wf_hello :: "client_hello \<Rightarrow> bool" where
  "wf_hello c \<longleftrightarrow>
     length (ch_version c) = 2 \<and> length (ch_random c) = 32 \<and> length (ch_session c) < 256 \<and>
     2 * length (ch_ciphers c) < 65536 \<and> length (ch_compression c) < 256 \<and>
     length (ext_bytes (ch_extensions c)) < 65536"

definition profile_of :: "client_hello \<Rightarrow> client_tls_profile" where
  "profile_of c =
     \<lparr>has_grease = list_ex is_grease_u16 (ch_ciphers c @ map fst (ch_extensions c)),
      cipher_count = length (ch_ciphers c),
      offers_h2 = list_ex (\<lambda>(ty, d). ty = 0x0010 \<and> window_h2 d) (ch_extensions c),
      has_sni = list_ex (\<lambda>(ty, d). ty = 0) (ch_extensions c),
      primary_ciphers = take 3 (filter (\<lambda>w. \<not> is_grease_u16 w) (ch_ciphers c))\<rparr>"

lemma be16_u16_bytes [simp]: "be16 (ucast (drop_bit 8 w)) (ucast w) = (w :: u16)"
proof -
  have "unat w < 65536" using unsigned_less [of w] by simp
  then have "unat w div 256 < 256" by simp
  moreover have "unat (drop_bit 8 w) = unat w div 256"
    by (simp add: drop_bit_eq_div unat_div)
  ultimately have "unat (ucast (drop_bit 8 w) :: u8) = unat w div 256"
    by (simp add: unsigned_ucast_eq take_bit_nat_eq_self del: drop_bit_numeral_minus_bit1)
  moreover have "unat (ucast w :: u8) = unat w mod 256"
    by (simp add: unsigned_ucast_eq take_bit_eq_mod)
  ultimately have "unat (be16 (ucast (drop_bit 8 w)) (ucast w)) = unat w" by simp
  then show ?thesis by (simp only: unsigned_word_eqI)
qed

lemma length_u16_bytes [simp]: "length (u16_bytes w) = 2" "length (len_bytes n) = 2"
  by (simp_all add: u16_bytes_def len_bytes_def)

lemma read_u16_bytes:
  "buf = pre @ u16_bytes w @ post \<Longrightarrow> i = length pre \<Longrightarrow> read_u16 buf i = Some w"
  by (simp add: read_u16_ok u16_bytes_def nth_append)

lemma read_len_bytes:
  "buf = pre @ len_bytes n @ post \<Longrightarrow> i = length pre \<Longrightarrow> read_u16 buf i = Some (of_nat n)"
  unfolding len_bytes_def by (rule read_u16_bytes)

lemma unat_len [simp]: "n < 65536 \<Longrightarrow> unat (of_nat n :: u16) = n"
  by (simp add: unat_of_nat)

lemma unat_len8 [simp]: "n < 256 \<Longrightarrow> unat (of_nat n :: u8) = n"
  by (simp add: unat_of_nat)

lemma cipher_loop_encoded:
  "cipher_loop (concat (map u16_bytes ws)) g ps =
     (list_ex is_grease_u16 ws \<or> g,
      ps @ take (3 - length ps) (filter (\<lambda>w. \<not> is_grease_u16 w) ws))"
proof (induction ws arbitrary: g ps)
  case (Cons w ws)
  have "cipher_loop (concat (map u16_bytes (w # ws))) g ps =
      (if is_grease_u16 w then cipher_loop (concat (map u16_bytes ws)) True ps
       else cipher_loop (concat (map u16_bytes ws)) g (if length ps < 3 then ps @ [w] else ps))"
    by (simp add: u16_bytes_def Let_def)
  then show ?case by (simp add: Cons take_Cons')
qed simp

lemma ext_bytes_Cons:
  "ext_bytes ((ty, d) # exts) = u16_bytes ty @ len_bytes (length d) @ d @ ext_bytes exts"
  by (simp add: ext_bytes_def)

lemma ext_loop_encoded:
  assumes "buf = pre @ ext_bytes exts @ rest" "e = length pre + length (ext_bytes exts)"
    "length (ext_bytes exts) < 65536"
  shows "ext_loop buf e (length pre) (g, h, s) =
    Some (list_ex is_grease_u16 (map fst exts) \<or> g,
          h \<or> list_ex (\<lambda>(ty, d). ty = 0x0010 \<and> window_h2 d) exts,
          s \<or> list_ex (\<lambda>(ty, d). ty = 0) exts)"
  using assms
proof (induction exts arbitrary: pre g h s)
  case Nil
  then show ?case by (subst ext_loop.simps) (simp add: ext_bytes_def)
next
  case (Cons x exts)
  obtain ty d where x: "x = (ty, d)" by fastforce
  let ?pre = "pre @ u16_bytes ty @ len_bytes (length d) @ d"
  note prems = Cons.prems [unfolded x ext_bytes_Cons]
  have ty: "read_u16 buf (length pre) = Some ty"
    using prems(1) by (intro read_u16_bytes) simp_all
  have el: "read_u16 buf (length pre + 2) = Some (of_nat (length d))"
    using prems(1) by (intro read_len_bytes [of _ "pre @ u16_bytes ty"]) simp_all
  have d: "take (length d) (drop (length pre + 4) buf) = d"
    using prems(1) by (simp add: u16_bytes_def len_bytes_def)
  have e: "e \<le> length buf" "length pre + 4 + length d \<le> e" "length d < 65536"
    using prems by simp_all
  have "ext_body buf e (length pre) (g, h, s) = Some (length ?pre,
      (is_grease_u16 ty \<or> g, h \<or> (ty = 0x0010 \<and> window_h2 d), s \<or> ty = 0))"
    using ext_body_eq [OF ty el e(1), of g h s] e d by (simp add: algebra_simps)
  moreover have "ext_loop buf e (length ?pre) (is_grease_u16 ty \<or> g, h \<or> (ty = 0x0010 \<and> window_h2 d), s \<or> ty = 0) =
    Some (list_ex is_grease_u16 (map fst exts) \<or> is_grease_u16 ty \<or> g,
          (h \<or> (ty = 0x0010 \<and> window_h2 d)) \<or> list_ex (\<lambda>(ty, d). ty = 0x0010 \<and> window_h2 d) exts,
          (s \<or> ty = 0) \<or> list_ex (\<lambda>(ty, d). ty = 0) exts)"
    using prems by (intro Cons.IH) simp_all
  ultimately show ?case
    using e(2) by (subst ext_loop.simps) (simp add: x disj_ac)
qed

lemma parse_tail_encoded:
  assumes "buf = pre @ [of_nat (length cm)] @ cm @ len_bytes (length (ext_bytes exts)) @ ext_bytes exts @ rest"
    and "length cm < 256" "length (ext_bytes exts) < 65536"
  shows "parse_tail buf (length pre) n g ps =
    Some (Some \<lparr>has_grease = list_ex is_grease_u16 (map fst exts) \<or> g, cipher_count = n div 2,
      offers_h2 = list_ex (\<lambda>(ty, d). ty = 0x0010 \<and> window_h2 d) exts,
      has_sni = list_ex (\<lambda>(ty, d). ty = 0) exts, primary_ciphers = ps\<rparr>)"
proof -
  let ?i = "length pre + (1 + length cm)"
  let ?pre = "pre @ [of_nat (length cm)] @ cm @ len_bytes (length (ext_bytes exts))"
  have c: "length pre < length buf" "buf ! length pre = of_nat (length cm)"
    using assms(1) by (simp_all add: nth_append)
  have x: "read_u16 buf ?i = Some (of_nat (length (ext_bytes exts)))"
    using assms(1) by (intro read_len_bytes [of _ "pre @ [of_nat (length cm)] @ cm"]) simp_all
  have l: "?i + 2 \<le> length buf" "?i + 2 = length ?pre"
    "min (length ?pre + length (ext_bytes exts)) (length buf) = length ?pre + length (ext_bytes exts)"
    using assms(1) by simp_all
  have "ext_loop buf (length ?pre + length (ext_bytes exts)) (length ?pre) (g, False, False) =
      Some (list_ex is_grease_u16 (map fst exts) \<or> g,
        False \<or> list_ex (\<lambda>(ty, d). ty = 0x0010 \<and> window_h2 d) exts,
        False \<or> list_ex (\<lambda>(ty, d). ty = 0) exts)"
    using assms by (intro ext_loop_encoded) simp_all
  then have "ext_loop buf (min (?i + 2 + length (ext_bytes exts)) (length buf)) (?i + 2) (g, False, False) =
      Some (list_ex is_grease_u16 (map fst exts) \<or> g,
        list_ex (\<lambda>(ty, d). ty = 0x0010 \<and> window_h2 d) exts,
        list_ex (\<lambda>(ty, d). ty = 0) exts)"
    unfolding l(2,3) by (simp only: simp_thms)
  with c x l(1) assms(2,3) show ?thesis
    unfolding parse_tail_def Let_def by simp
qed

lemma take_drop_mid: "buf = xs @ ys @ zs \<Longrightarrow> length xs = i \<Longrightarrow> length ys = n \<Longrightarrow> take n (drop i buf) = ys"
  by auto

lemma encode_hello_shape:
  "\<exists>fixed. wf_hello c \<longrightarrow> length fixed = 43 \<and> fixed ! 0 = 0x16 \<and> fixed ! 5 = 0x01 \<and>
    encode_hello c = fixed @ [of_nat (length (ch_session c))] @ ch_session c @
     len_bytes (2 * length (ch_ciphers c)) @ concat (map u16_bytes (ch_ciphers c)) @
     [of_nat (length (ch_compression c))] @ ch_compression c @
     len_bytes (length (ext_bytes (ch_extensions c))) @ ext_bytes (ch_extensions c)"
  by (rule exI [of _ "[0x16, 0x03, 0x01] @ len_bytes (length (hello_bytes c) + 4) @ [0x01, 0] @
        len_bytes (length (hello_bytes c)) @ ch_version c @ ch_random c"])
    (simp add: wf_hello_def encode_hello_def hello_bytes_def Let_def len_bytes_def u16_bytes_def)

text \<open>Where the suites of an encoded hello begin, and what is read there.\<close>

lemma suites_encoded:
  assumes "wf_hello c"
  obtains pre where
    "encode_hello c = pre @ len_bytes (2 * length (ch_ciphers c)) @ concat (map u16_bytes (ch_ciphers c)) @
       [of_nat (length (ch_compression c))] @ ch_compression c @
       len_bytes (length (ext_bytes (ch_extensions c))) @ ext_bytes (ch_extensions c)"
    "length pre = 44 + unat ((encode_hello c @ rest) ! 43)"
    "parse_client_hello (encode_hello c @ rest) = parse_suites (encode_hello c @ rest) (length pre)"
    "read_u16 (encode_hello c @ rest) (length pre) = Some (of_nat (2 * length (ch_ciphers c)))"
    "take (2 * length (ch_ciphers c)) (drop (length pre + 2) (encode_hello c @ rest)) = concat (map u16_bytes (ch_ciphers c))"
proof -
  obtain fixed where f: "length fixed = 43" "fixed ! 0 = 0x16" "fixed ! 5 = 0x01"
    and e: "encode_hello c = fixed @ [of_nat (length (ch_session c))] @ ch_session c @
     len_bytes (2 * length (ch_ciphers c)) @ concat (map u16_bytes (ch_ciphers c)) @
     [of_nat (length (ch_compression c))] @ ch_compression c @
     len_bytes (length (ext_bytes (ch_extensions c))) @ ext_bytes (ch_extensions c)"
    using encode_hello_shape [of c] assms by blast
  let ?buf = "encode_hello c @ rest" and ?pre = "fixed @ [of_nat (length (ch_session c))] @ ch_session c"
  have w: "length (ch_session c) < 256" using assms by (simp add: wf_hello_def)
  have h: "44 \<le> length ?buf" "?buf ! 0 = 0x16" "?buf ! 5 = 0x01" "?buf ! 43 = of_nat (length (ch_session c))"
    using f by (simp_all add: e nth_append)
  have i: "length ?pre = 44 + unat (?buf ! 43)" using f h(4) w by simp
  have r: "read_u16 ?buf (length ?pre) = Some (of_nat (2 * length (ch_ciphers c)))"
    by (rule read_len_bytes [of _ ?pre]) (simp_all add: e)
  have t: "take (2 * length (ch_ciphers c)) (drop (length ?pre + 2) ?buf) = concat (map u16_bytes (ch_ciphers c))"
    by (rule take_drop_mid [of _ "?pre @ len_bytes (2 * length (ch_ciphers c))"])
      (simp_all add: e length_concat comp_def sum_list_triv)
  have "parse_client_hello ?buf = parse_suites ?buf (length ?pre)"
    unfolding parse_client_hello_eq i using h by simp
  from that [OF _ i this r t] show thesis by (simp add: e)
qed

lemma parse_encoded:
  assumes "wf_hello c"
  shows "parse_client_hello (encode_hello c @ rest) = Some (Some (profile_of c))"
proof -
  obtain pre where e: "encode_hello c = pre @ len_bytes (2 * length (ch_ciphers c)) @ concat (map u16_bytes (ch_ciphers c)) @
       [of_nat (length (ch_compression c))] @ ch_compression c @
       len_bytes (length (ext_bytes (ch_extensions c))) @ ext_bytes (ch_extensions c)"
    and p: "parse_client_hello (encode_hello c @ rest) = parse_suites (encode_hello c @ rest) (length pre)"
    and r: "read_u16 (encode_hello c @ rest) (length pre) = Some (of_nat (2 * length (ch_ciphers c)))"
    and t: "take (2 * length (ch_ciphers c)) (drop (length pre + 2) (encode_hello c @ rest)) = concat (map u16_bytes (ch_ciphers c))"
    using suites_encoded [OF assms, of rest] by metis
  let ?buf = "encode_hello c @ rest" and ?cs = "concat (map u16_bytes (ch_ciphers c))"
  let ?pre2 = "pre @ len_bytes (2 * length (ch_ciphers c)) @ ?cs"
  have w: "2 * length (ch_ciphers c) < 65536" "length (ch_compression c) < 256"
    "length (ext_bytes (ch_extensions c)) < 65536"
    using assms by (simp_all add: wf_hello_def)
  have cs: "length ?cs = 2 * length (ch_ciphers c)"
    by (simp add: length_concat comp_def sum_list_triv)
  have l: "length pre + 2 \<le> length ?buf" "\<not> length ?buf < length pre + 2 + 2 * length (ch_ciphers c)"
    using cs by (simp_all add: e)
  have i: "length pre + 2 + 2 * length (ch_ciphers c) = length ?pre2" using cs by simp
  have "parse_client_hello ?buf = parse_tail ?buf (length ?pre2) (2 * length (ch_ciphers c))
      (list_ex is_grease_u16 (ch_ciphers c) \<or> False)
      ([] @ take (3 - length ([] :: u16 list)) (filter (\<lambda>w. \<not> is_grease_u16 w) (ch_ciphers c)))"
    unfolding p parse_suites_eq [OF r l(1)] unat_len [OF w(1)] t cipher_loop_encoded i [symmetric]
    using l(2) by simp
  also have "\<dots> = Some (Some (profile_of c))"
    by (subst parse_tail_encoded [of _ _ "ch_compression c" "ch_extensions c" rest])
      (use w in \<open>simp_all add: e profile_of_def disj_commute\<close>)
  finally show ?thesis .
qed

text \<open>
  C14: the parser reads a well-formed hello as what it says, whatever follows it in the buffer:
  GREASE is found among the suites and the extension types, the suites are counted, the first three
  real ones are kept in order, and \<open>h2\<close> and the server name are found among the extensions.
\<close>

theorem parse_encode_hello:
  assumes "wf_hello c"
  shows "parse_client_hello (encode_hello c @ rest) = Some (Some (profile_of c))"
  using assms by (rule parse_encoded)

definition example_hello :: client_hello where
  "example_hello = \<lparr>ch_version = [3, 3], ch_random = replicate 32 7, ch_session = [1, 2],
     ch_ciphers = [0x1a1a, 0x1301, 0x1302, 0x1303, 0xc02b], ch_compression = [0],
     ch_extensions = [(0, [0, 1]), (0x0010, [0, 3, 2, 0x68, 0x32])]\<rparr>"

theorem parse_encode_hello_witness:
  "parse_client_hello (encode_hello example_hello @ [0]) =
     Some (Some \<lparr>has_grease = True, cipher_count = 5, offers_h2 = True, has_sni = True,
       primary_ciphers = [0x1301, 0x1302, 0x1303]\<rparr>)"
proof -
  have "wf_hello example_hello" "profile_of example_hello =
    \<lparr>has_grease = True, cipher_count = 5, offers_h2 = True, has_sni = True,
     primary_ciphers = [0x1301, 0x1302, 0x1303]\<rparr>"
    by code_simp+
  then show ?thesis using parse_encode_hello [of example_hello "[0]"] by simp
qed

section \<open>The verdict on a hello\<close>

lemma coherent_iff:
  "verify_user_agent_coherence p (Some ua) = Coherent \<longleftrightarrow>
     search_spider (trim ua) \<or>
     ((claims_chrome (trim ua) \<or> claims_edge (trim ua) \<or> claims_safari (trim ua) \<longrightarrow> has_grease p) \<and>
      (claims_chrome (trim ua) \<or> claims_edge (trim ua) \<longrightarrow> offers_h2 p \<or> 10 \<le> cipher_count p))"
  by (auto simp: verify_user_agent_coherence_def Let_def not_le)

text \<open>
  A client whose hello holds no GREASE value is taken for a spoofer exactly when its user agent
  claims Chrome, Edge or Safari and names no search spider; with GREASE, a claim of Chrome or Edge
  still needs \<open>h2\<close> or ten suites. A request without a user agent is always coherent.
\<close>

theorem hello_coherence:
  assumes "wf_hello c"
  shows "\<exists>p. parse_client_hello (encode_hello c @ rest) = Some (Some p) \<and>
    verify_user_agent_coherence p None = Coherent \<and>
    (verify_user_agent_coherence p (Some ua) = Coherent \<longleftrightarrow>
      search_spider (trim ua) \<or>
      ((claims_chrome (trim ua) \<or> claims_edge (trim ua) \<or> claims_safari (trim ua) \<longrightarrow>
          (\<exists>w \<in> set (ch_ciphers c) \<union> fst ` set (ch_extensions c). is_grease_u16 w)) \<and>
       (claims_chrome (trim ua) \<or> claims_edge (trim ua) \<longrightarrow>
          (\<exists>d. (0x0010, d) \<in> set (ch_extensions c) \<and> window_h2 d) \<or> 10 \<le> length (ch_ciphers c))))"
proof (intro exI conjI)
  show "parse_client_hello (encode_hello c @ rest) = Some (Some (profile_of c))"
    using assms by (rule parse_encoded)
  have g: "has_grease (profile_of c) \<longleftrightarrow> (\<exists>w \<in> set (ch_ciphers c) \<union> fst ` set (ch_extensions c). is_grease_u16 w)"
    by (simp only: profile_of_def client_tls_profile.simps list_ex_iff set_append set_map)
  have h: "offers_h2 (profile_of c) \<longleftrightarrow> (\<exists>d. (0x0010, d) \<in> set (ch_extensions c) \<and> window_h2 d)"
    unfolding profile_of_def by (auto simp: list_ex_iff)
  have n: "cipher_count (profile_of c) = length (ch_ciphers c)"
    by (simp add: profile_of_def)
  show "verify_user_agent_coherence (profile_of c) (Some ua) = Coherent \<longleftrightarrow>
      search_spider (trim ua) \<or>
      ((claims_chrome (trim ua) \<or> claims_edge (trim ua) \<or> claims_safari (trim ua) \<longrightarrow>
          (\<exists>w \<in> set (ch_ciphers c) \<union> fst ` set (ch_extensions c). is_grease_u16 w)) \<and>
       (claims_chrome (trim ua) \<or> claims_edge (trim ua) \<longrightarrow>
          (\<exists>d. (0x0010, d) \<in> set (ch_extensions c) \<and> window_h2 d) \<or> 10 \<le> length (ch_ciphers c)))"
    unfolding coherent_iff g h n by (rule refl)
qed (simp add: verify_user_agent_coherence_def)

definition plain_hello :: client_hello where
  "plain_hello = example_hello\<lparr>ch_ciphers := [0x1301, 0x1302]\<rparr>"

theorem hello_coherence_witness:
  "\<exists>p. parse_client_hello (encode_hello plain_hello @ []) = Some (Some p) \<and>
     verify_user_agent_coherence p (Some ''Mozilla/5.0 Chrome/120'') \<noteq> Coherent"
proof -
  have w: "wf_hello plain_hello"
    "\<not> (\<exists>w \<in> set (ch_ciphers plain_hello) \<union> fst ` set (ch_extensions plain_hello). is_grease_u16 w)"
    "\<not> search_spider (trim ''Mozilla/5.0 Chrome/120'')" "claims_chrome (trim ''Mozilla/5.0 Chrome/120'')"
    by code_simp+
  show ?thesis
    using hello_coherence [OF w(1), of "[]" "''Mozilla/5.0 Chrome/120''"] w(2,3,4) by metis
qed

end
