(* ===== verification/Governor.thy ===== *)
theory Governor
  imports Prelude
begin

text \<open>
  \<open>src/maintenance.rs\<close> and the connection accounting of \<open>src/proxy/mod.rs\<close>: the governor's atomic
  counters at their width, and the life of a connection as a step relation: the accept loop
  registers it, the guard that its task owns deregisters it when the task ends, however it ends.
  The invariant ties the counters to the set of live connections.
\<close>

section \<open>The governor\<close>

text \<open>Durations and instants are numbers of seconds and of nanoseconds.\<close>

record maintenance_config =
  mc_interval :: nat
  mc_max_retained_records :: nat
  mc_memory_vacuum :: bool

definition default_maintenance_config :: maintenance_config where
  "default_maintenance_config =
     \<lparr>mc_interval = 300, mc_max_retained_records = 10000, mc_memory_vacuum = True\<rparr>"

record governor_metrics =
  total_hygiene_passes :: u64
  total_connections_served :: u64
  current_active_connections :: usize
  total_trapped_threats :: u64

record resource_governor =
  gov_config :: maintenance_config
  gov_metrics :: governor_metrics
  gov_start_time :: nat

definition new_governor :: "maintenance_config \<Rightarrow> nat \<Rightarrow> resource_governor" where
  "new_governor config now =
     \<lparr>gov_config = config,
      gov_metrics = \<lparr>total_hygiene_passes = 0, total_connections_served = 0,
        current_active_connections = 0, total_trapped_threats = 0\<rparr>,
      gov_start_time = now\<rparr>"

definition uptime :: "resource_governor \<Rightarrow> nat \<Rightarrow> nat" where
  "uptime g now = now - gov_start_time g"

text \<open>\<open>fetch_add\<close> and \<open>fetch_sub\<close> wrap.\<close>

definition register_connection :: "resource_governor \<Rightarrow> resource_governor" where
  "register_connection g =
     (let m = gov_metrics g;
          m = m\<lparr>total_connections_served := total_connections_served m + 1\<rparr>;
          m = m\<lparr>current_active_connections := current_active_connections m + 1\<rparr>
      in g\<lparr>gov_metrics := m\<rparr>)"

definition deregister_connection :: "resource_governor \<Rightarrow> resource_governor" where
  "deregister_connection g =
     (let m = gov_metrics g
      in g\<lparr>gov_metrics := m\<lparr>current_active_connections := current_active_connections m - 1\<rparr>\<rparr>)"

definition record_threat :: "resource_governor \<Rightarrow> resource_governor" where
  "record_threat g =
     (let m = gov_metrics g
      in g\<lparr>gov_metrics := m\<lparr>total_trapped_threats := total_trapped_threats m + 1\<rparr>\<rparr>)"

text \<open>A pass counts itself; the \<open>malloc_trim\<close> behind it has no effect on the state.\<close>

definition run_hygiene_pass :: "resource_governor \<Rightarrow> resource_governor" where
  "run_hygiene_pass g =
     (let m = gov_metrics g
      in g\<lparr>gov_metrics := m\<lparr>total_hygiene_passes := total_hygiene_passes m + 1\<rparr>\<rparr>)"

text \<open>The background worker after \<open>n\<close> ticks of its interval: the immediate first one is skipped.\<close>

fun maintenance_worker :: "nat \<Rightarrow> resource_governor \<Rightarrow> resource_governor" where
  "maintenance_worker 0 g = g"
| "maintenance_worker (Suc 0) g = g"
| "maintenance_worker (Suc (Suc n)) g = run_hygiene_pass (maintenance_worker (Suc n) g)"

section \<open>The life of a connection\<close>

text \<open>
  The accept loop of the proxy: a failed accept changes nothing; an accepted connection is
  registered before its task starts; the task drops its guard when the handshake fails or when it
  has served the connection (the tunnel of an upgraded connection runs on without it). Requests, which may
  outlast their connection, record threats, and the maintenance worker runs beside.
\<close>

record conn_state =
  cs_governor :: resource_governor
  cs_live :: "nat set"
  cs_accepted :: nat

datatype conn_event =
    AcceptFailed
  | Accepted
  | HandshakeFailed nat
  | Served nat
  | ThreatTrapped
  | HygieneTick

definition drop_guard :: "nat \<Rightarrow> conn_state \<Rightarrow> conn_state" where
  "drop_guard i c =
     c\<lparr>cs_governor := deregister_connection (cs_governor c), cs_live := cs_live c - {i}\<rparr>"

inductive conn_step :: "conn_state \<Rightarrow> conn_event \<Rightarrow> conn_state \<Rightarrow> bool" where
  accept_failed: "conn_step c AcceptFailed c"
| accepted: "conn_step c Accepted
     (c\<lparr>cs_governor := register_connection (cs_governor c),
        cs_live := insert (cs_accepted c) (cs_live c), cs_accepted := cs_accepted c + 1\<rparr>)"
| handshake_failed: "i \<in> cs_live c \<Longrightarrow> conn_step c (HandshakeFailed i) (drop_guard i c)"
| served: "i \<in> cs_live c \<Longrightarrow> conn_step c (Served i) (drop_guard i c)"
| threat: "conn_step c ThreatTrapped (c\<lparr>cs_governor := record_threat (cs_governor c)\<rparr>)"
| hygiene: "conn_step c HygieneTick (c\<lparr>cs_governor := run_hygiene_pass (cs_governor c)\<rparr>)"

inductive_cases conn_stepE: "conn_step c e c'"

inductive_simps conn_step_simps:
  "conn_step c AcceptFailed c'" "conn_step c Accepted c'" "conn_step c (HandshakeFailed i) c'"
  "conn_step c (Served i) c'" "conn_step c ThreatTrapped c'" "conn_step c HygieneTick c'"

definition conn_init :: "maintenance_config \<Rightarrow> nat \<Rightarrow> conn_state" where
  "conn_init config now = \<lparr>cs_governor = new_governor config now, cs_live = {}, cs_accepted = 0\<rparr>"

text \<open>The counters seen as functions of the live set and of the trace.\<close>

definition counters_ok :: "conn_event list \<Rightarrow> conn_state \<Rightarrow> bool" where
  "counters_ok es c \<longleftrightarrow>
     (let m = gov_metrics (cs_governor c) in
      finite (cs_live c) \<and> cs_live c \<subseteq> {..< cs_accepted c} \<and>
      cs_accepted c = length (filter ((=) Accepted) es) \<and>
      current_active_connections m = of_nat (card (cs_live c)) \<and>
      total_connections_served m = of_nat (cs_accepted c) \<and>
      total_trapped_threats m = of_nat (length (filter ((=) ThreatTrapped) es)) \<and>
      total_hygiene_passes m = of_nat (length (filter ((=) HygieneTick) es)))"

lemmas governor_op_defs = register_connection_def deregister_connection_def record_threat_def
  run_hygiene_pass_def drop_guard_def Let_def

lemma counters_init: "counters_ok [] (conn_init config now)"
  by (simp add: counters_ok_def conn_init_def new_governor_def)

lemma card_live_drop:
  "finite A \<Longrightarrow> i \<in> A \<Longrightarrow> (of_nat (card A) :: usize) - 1 = of_nat (card (A - {i}))"
  by (simp add: card_Suc_Diff1 [symmetric, of A i] del: card_Diff_insert card_Diff_singleton)

lemma counters_step:
  assumes "counters_ok es c" "conn_step c e c'"
  shows "counters_ok (es @ [e]) c'"
  using assms(2,1)
proof cases
  case accepted
  have "cs_accepted c \<notin> cs_live c" using assms(1) by (auto simp: counters_ok_def Let_def)
  with accepted assms(1) show ?thesis
    by (auto simp: counters_ok_def governor_op_defs algebra_simps)
qed (use assms(1) in \<open>auto simp: counters_ok_def governor_op_defs card_live_drop algebra_simps\<close>)

interpretation gov: trace_invariant conn_step "\<lambda>_. True" "\<lambda>c. \<exists>config now. c = conn_init config now"
    "\<lambda>_. counters_ok"
  by unfold_locales (auto simp: counters_init counters_step)

text \<open>
  The governor's counters are exact in every reachable state of the accept loop: the active
  connections are the live ones (so the counter never wraps below zero, and is zero when all have
  ended), the served ones are the accepted ones, and threats and hygiene passes are counted, each
  modulo \<open>2 ^ 64\<close>.
\<close>

theorem governor_counts_live:
  assumes "run_of conn_step (conn_init config now) es c"
  shows "counters_ok es c \<and>
    (card (cs_live c) < 2 ^ 64 \<longrightarrow>
       unat (current_active_connections (gov_metrics (cs_governor c))) = card (cs_live c)) \<and>
    (cs_live c = {} \<longrightarrow> current_active_connections (gov_metrics (cs_governor c)) = 0)"
proof (intro conjI impI)
  show ok: "counters_ok es c" by (rule gov.inv_run [OF assms]) (auto simp: list_all_iff)
  then have a: "current_active_connections (gov_metrics (cs_governor c)) = of_nat (card (cs_live c))"
    by (simp add: counters_ok_def Let_def)
  show "unat (current_active_connections (gov_metrics (cs_governor c))) = card (cs_live c)"
    if "card (cs_live c) < 2 ^ 64"
    unfolding a using that by (simp add: unat_of_nat)
  show "current_active_connections (gov_metrics (cs_governor c)) = 0" if "cs_live c = {}"
    using a that by simp
qed

theorem governor_counts_live_witness:
  "\<exists>c. run_of conn_step (conn_init default_maintenance_config 0) [Accepted, Accepted, HandshakeFailed 0] c \<and>
     unat (current_active_connections (gov_metrics (cs_governor c))) = 1"
proof -
  define c where "c = conn_init default_maintenance_config 0"
  define c1 where "c1 = c\<lparr>cs_governor := register_connection (cs_governor c),
        cs_live := insert (cs_accepted c) (cs_live c), cs_accepted := cs_accepted c + 1\<rparr>"
  define c2 where "c2 = c1\<lparr>cs_governor := register_connection (cs_governor c1),
        cs_live := insert (cs_accepted c1) (cs_live c1), cs_accepted := cs_accepted c1 + 1\<rparr>"
  have "conn_step c Accepted c1" "conn_step c1 Accepted c2"
    by (simp_all add: c1_def c2_def conn_step_simps)
  moreover have "conn_step c2 (HandshakeFailed 0) (drop_guard 0 c2)"
    by (simp add: c2_def c1_def c_def conn_init_def conn_step_simps)
  ultimately have r: "run_of conn_step c ((([] @ [Accepted]) @ [Accepted]) @ [HandshakeFailed 0]) (drop_guard 0 c2)"
    by (blast intro: run_Nil run_snoc)
  have "cs_live (drop_guard 0 c2) = {1}"
    by (auto simp: drop_guard_def c2_def c1_def c_def conn_init_def)
  then show ?thesis
    using governor_counts_live [OF r [unfolded c_def]] r by (auto simp: c_def)
qed

lemma maintenance_worker_passes:
  "total_hygiene_passes (gov_metrics (maintenance_worker n g)) =
     total_hygiene_passes (gov_metrics g) + of_nat (n - 1)"
  by (induction n g rule: maintenance_worker.induct) (auto simp: run_hygiene_pass_def Let_def)

end
