(* ===== verification/Acme.thy ===== *)
theory Acme
  imports Headers
begin

text \<open>
  \<open>src/acme.rs\<close>: the responder for ACME challenges. The file system is asked three times per served token; the three answers are
  separate functions of the path, because the file can change between the calls.
\<close>

section \<open>The challenge responder\<close>

record acme_fs =
  fs_is_file :: "string \<Rightarrow> bool"
  fs_metadata :: "string \<Rightarrow> (bool \<times> nat) option"
  fs_read :: "string \<Rightarrow> string option"

definition acme_challenge_prefix :: string where
  "acme_challenge_prefix = ''/.well-known/acme-challenge/''"

definition token_char :: "rchar \<Rightarrow> bool" where
  "token_char c =
     (case c of [b] \<Rightarrow> is_alnum b \<or> b = CHR ''-'' \<or> b = CHR ''_'' | _ \<Rightarrow> False)"

definition acme_reply :: "'h http_lib \<Rightarrow> nat \<Rightarrow> string \<Rightarrow> 'h response" where
  "acme_reply L status body = (new_response L (body @ [CHR 0x0A]))\<lparr>rs_status := status\<rparr>"

definition nested_dir :: "string \<Rightarrow> string" where
  "nested_dir root = path_join (path_join root ''.well-known'') ''acme-challenge''"

definition try_serve_acme_challenge ::
    "'h http_lib \<Rightarrow> acme_fs \<Rightarrow> string \<Rightarrow> string option \<Rightarrow> 'h response option" where
  "try_serve_acme_challenge L fs raw_path webroot =
     (if \<not> starts_with raw_path acme_challenge_prefix then None
      else let token = drop (length acme_challenge_prefix) raw_path in
        if token = [] \<or> length token > 128 \<or> \<not> list_all token_char (chars token)
          then Some (acme_reply L 400 ''Invalid ACME challenge token'')
        else case webroot of
          None \<Rightarrow> Some (acme_reply L 404 ''ACME challenge directory not configured'')
        | Some root \<Rightarrow>
            let candidate_nested = path_join (nested_dir root) token;
                candidate_flat = path_join root token;
                serve = (\<lambda>path_to_read.
                  case fs_metadata fs path_to_read of
                    Some (True, len) \<Rightarrow>
                      (if len \<le> 4096 then
                         (case fs_read fs path_to_read of
                            Some content \<Rightarrow>
                              set_header L ''content-type'' ''text/plain; charset=utf-8''
                                ((new_response L content)\<lparr>rs_status := 200\<rparr>)
                          | None \<Rightarrow> acme_reply L 500 ''Failed to read challenge token'')
                       else acme_reply L 404 ''ACME challenge token not found'')
                  | _ \<Rightarrow> acme_reply L 404 ''ACME challenge token not found'')
            in Some (if fs_is_file fs candidate_nested then serve candidate_nested
                     else if fs_is_file fs candidate_flat then serve candidate_flat
                     else acme_reply L 404 ''ACME challenge token not found''))"

section \<open>Confinement\<close>

definition token_byte :: "char \<Rightarrow> bool" where
  "token_byte b \<longleftrightarrow> is_alnum b \<or> b = CHR ''-'' \<or> b = CHR ''_''"

definition acme_token :: "string \<Rightarrow> bool" where
  "acme_token t \<longleftrightarrow> t \<noteq> [] \<and> length t \<le> 128 \<and> list_all token_byte t"

lemma token_byte_ascii: "token_byte b \<Longrightarrow> is_ascii b"
  by (auto simp: token_byte_def is_alnum_def is_digit_def is_ascii_def ord_def)

lemma token_byte_no_sep: "token_byte b \<Longrightarrow> b \<noteq> CHR ''/'' \<and> b \<noteq> CHR ''.''"
  by (auto simp: token_byte_def is_alnum_def is_digit_def ord_def)

lemma token_chars: "list_all token_char (chars s) \<longleftrightarrow> list_all token_byte s"
proof
  assume a: "list_all token_char (chars s)"
  have "list_all token_char cs \<Longrightarrow> list_all token_byte (concat cs)" for cs
    by (induction cs) (auto simp: token_char_def token_byte_def split: list.splits)
  from this [OF a] show "list_all token_byte s" by simp
next
  assume a: "list_all token_byte s"
  then have "list_all is_ascii s" by (auto simp: list_all_iff token_byte_ascii)
  with a show "list_all token_char (chars s)"
    by (auto simp: chars_ascii list_all_iff token_char_def token_byte_def)
qed

lemma acme_token_iff:
  "\<not> (t = [] \<or> length t > 128 \<or> \<not> list_all token_char (chars t)) \<longleftrightarrow> acme_token t"
  by (simp add: acme_token_def token_chars not_less conj_assoc)

lemma path_join_token:
  "acme_token t \<Longrightarrow>
     path_join d t = (if d = [] \<or> last d = CHR ''/'' then d @ t else d @ ''/'' @ t)"
proof -
  assume "acme_token t"
  then obtain b s where "t = b # s" "b \<noteq> CHR ''/''"
    by (cases t) (auto simp: acme_token_def token_byte_no_sep)
  then show ?thesis by (simp add: path_join_def starts_with_def)
qed

lemma drop_prefix: "starts_with s p \<Longrightarrow> s = p @ drop (length p) s"
  by (auto simp: starts_with_def prefix_def)

lemma acme_status_simps [simp]:
  "rs_status (acme_reply L st b) = st" "rs_headers (acme_reply L st b) = hm_empty L"
  by (simp_all add: acme_reply_def)

text \<open>The file a token names under a web root, if there is one.\<close>

definition served_file :: "acme_fs \<Rightarrow> string \<Rightarrow> string \<Rightarrow> string option" where
  "served_file fs root t =
     find (fs_is_file fs) [path_join (nested_dir root) t, path_join root t]"

definition served_content :: "acme_fs \<Rightarrow> string \<Rightarrow> string option" where
  "served_content fs p =
     (case fs_metadata fs p of
        Some (is_file, len) \<Rightarrow> if is_file \<and> len \<le> 4096 then fs_read fs p else None
      | None \<Rightarrow> None)"

lemma try_serve_eq:
  assumes "acme_token t"
  shows "try_serve_acme_challenge L fs (acme_challenge_prefix @ t) (Some root) =
    Some (case served_file fs root t of
       None \<Rightarrow> acme_reply L 404 ''ACME challenge token not found''
     | Some p \<Rightarrow> (case fs_metadata fs p of
         Some (True, len) \<Rightarrow>
           (if len \<le> 4096 then
              (case fs_read fs p of
                 Some content \<Rightarrow> set_header L ''content-type'' ''text/plain; charset=utf-8''
                    ((new_response L content)\<lparr>rs_status := 200\<rparr>)
               | None \<Rightarrow> acme_reply L 500 ''Failed to read challenge token'')
            else acme_reply L 404 ''ACME challenge token not found'')
       | _ \<Rightarrow> acme_reply L 404 ''ACME challenge token not found''))"
proof -
  have "starts_with (acme_challenge_prefix @ t) acme_challenge_prefix"
    by (simp add: starts_with_def)
  moreover have "\<not> (t = [] \<or> length t > 128 \<or> \<not> list_all token_char (chars t))"
    using assms by (simp only: acme_token_iff)
  ultimately show ?thesis
    by (simp add: try_serve_acme_challenge_def Let_def served_file_def)
qed

lemma try_serve_cases:
  obtains (other) "\<not> starts_with s acme_challenge_prefix" "\<And>fs. try_serve_acme_challenge L fs s w = None"
    | (bad) t where "s = acme_challenge_prefix @ t" "\<not> acme_token t"
        "\<And>fs. try_serve_acme_challenge L fs s w = Some (acme_reply L 400 ''Invalid ACME challenge token'')"
    | (unconfigured) t where "s = acme_challenge_prefix @ t" "acme_token t" "w = None"
        "\<And>fs. try_serve_acme_challenge L fs s w = Some (acme_reply L 404 ''ACME challenge directory not configured'')"
    | (token) t root where "s = acme_challenge_prefix @ t" "acme_token t" "w = Some root"
proof (cases "starts_with s acme_challenge_prefix")
  case False
  then show ?thesis using other by (simp add: try_serve_acme_challenge_def)
next
  case True
  define t where "t = drop (length acme_challenge_prefix) s"
  have s: "s = acme_challenge_prefix @ t" using drop_prefix [OF True] by (simp add: t_def)
  show ?thesis
  proof (cases "acme_token t")
    case False
    then have "t = [] \<or> length t > 128 \<or> \<not> list_all token_char (chars t)"
      using acme_token_iff by blast
    then show ?thesis using bad [OF s False] True
      by (simp add: try_serve_acme_challenge_def Let_def t_def)
  next
    case tok: True
    then have n: "\<not> (t = [] \<or> length t > 128 \<or> \<not> list_all token_char (chars t))"
      by (simp only: acme_token_iff)
    show ?thesis
    proof (cases w)
      case None
      then show ?thesis using unconfigured [OF s tok] True n
        by (simp add: try_serve_acme_challenge_def Let_def t_def)
    next
      case (Some root)
      then show ?thesis using token [OF s tok] by blast
    qed
  qed
qed

text \<open>A file that does not change between the size check and the read.\<close>

definition fs_stable :: "acme_fs \<Rightarrow> bool" where
  "fs_stable fs \<longleftrightarrow>
     (\<forall>p n c. fs_metadata fs p = Some (True, n) \<and> fs_read fs p = Some c \<longrightarrow> length c = n)"

lemma served_200:
  assumes "acme_token t" "try_serve_acme_challenge L fs (acme_challenge_prefix @ t) (Some root) = Some r"
    "rs_status r = 200"
  shows "\<exists>p \<in> {path_join (nested_dir root) t, path_join root t}.
    fs_is_file fs p \<and> served_content fs p = Some (rs_body r)"
proof -
  from assms obtain p where p: "served_file fs root t = Some p"
    by (auto simp: try_serve_eq split: option.splits)
  then have "p \<in> {path_join (nested_dir root) t, path_join root t} \<and> fs_is_file fs p"
    by (auto simp: served_file_def split: if_splits)
  moreover have "served_content fs p = Some (rs_body r)"
    using assms p by (auto simp: try_serve_eq served_content_def split: option.splits bool.splits if_splits)
  ultimately show ?thesis by blast
qed

text \<open>
  C29: the responder answers exactly the paths below the challenge prefix, and a body it serves with
  status 200 is the content of a file that lies directly in the web root or in its challenge
  directory, under a name of 1 to 128 letters, digits, \<open>-\<close> and \<open>_\<close> (so no separator and no dot).
  The body has at most 4096 bytes if the file does not change between the size check and the read.
\<close>

theorem acme_confined:
  "(try_serve_acme_challenge L fs s w = None \<longleftrightarrow> \<not> starts_with s acme_challenge_prefix) \<and>
   (\<forall>r. try_serve_acme_challenge L fs s w = Some r \<and> rs_status r = 200 \<longrightarrow>
     (\<exists>t root d. s = acme_challenge_prefix @ t \<and> acme_token t \<and> w = Some root \<and>
        d \<in> {root, nested_dir root} \<and>
        fs_read fs (if d = [] \<or> last d = CHR ''/'' then d @ t else d @ ''/'' @ t) = Some (rs_body r)) \<and>
     (fs_stable fs \<longrightarrow> length (rs_body r) \<le> 4096))"
proof (cases rule: try_serve_cases [where s = s and L = L and w = w])
  case (token t root)
  have "starts_with s acme_challenge_prefix" by (simp add: token(1) starts_with_def)
  moreover have "try_serve_acme_challenge L fs s w \<noteq> None"
    unfolding token(1,3) try_serve_eq [OF token(2)] by simp
  moreover have "(\<exists>t root d. s = acme_challenge_prefix @ t \<and> acme_token t \<and> w = Some root \<and>
        d \<in> {root, nested_dir root} \<and>
        fs_read fs (if d = [] \<or> last d = CHR ''/'' then d @ t else d @ ''/'' @ t) = Some (rs_body r)) \<and>
     (fs_stable fs \<longrightarrow> length (rs_body r) \<le> 4096)"
    if r: "try_serve_acme_challenge L fs s w = Some r" "rs_status r = 200" for r
  proof -
    from served_200 [OF token(2) r(1) [unfolded token(1,3)] r(2)]
    obtain d where d: "d \<in> {root, nested_dir root}" "served_content fs (path_join d t) = Some (rs_body r)"
      by blast
    then have "fs_read fs (path_join d t) = Some (rs_body r)"
      "fs_stable fs \<longrightarrow> length (rs_body r) \<le> 4096"
      by (auto simp: served_content_def fs_stable_def split: option.splits if_splits)
    with d(1) token show ?thesis by (auto simp only: path_join_token)
  qed
  ultimately show ?thesis by blast
qed (simp_all add: starts_with_def)

definition example_fs :: acme_fs where
  "example_fs = \<lparr>fs_is_file = (\<lambda>p. p = ''/w/abc''), fs_metadata = (\<lambda>p. if p = ''/w/abc'' then Some (True, 3) else None),
     fs_read = (\<lambda>p. if p = ''/w/abc'' then Some ''k.t'' else None)\<rparr>"

theorem acme_confined_witness:
  "\<exists>r. try_serve_acme_challenge assoc_http example_fs (acme_challenge_prefix @ ''abc'') (Some ''/w'') = Some r \<and>
     rs_status r = 200 \<and> length (rs_body r) \<le> 4096"
proof -
  let ?r = "try_serve_acme_challenge assoc_http example_fs (acme_challenge_prefix @ ''abc'') (Some ''/w'')"
  have "case ?r of Some r \<Rightarrow> rs_status r = 200 | None \<Rightarrow> False" by code_simp
  then obtain r where r: "?r = Some r" "rs_status r = 200" by (cases ?r) simp_all
  have "fs_stable example_fs" by (auto simp: fs_stable_def example_fs_def split: if_splits)
  with r acme_confined [of assoc_http example_fs "acme_challenge_prefix @ ''abc''" "Some ''/w''"] show ?thesis
    by blast
qed

text \<open>
  A request learns nothing else about the file system. Two file systems that agree on the two
  candidate files of a valid token give the same response, and for a path without a valid token the
  response does not depend on the file system at all.
\<close>

theorem acme_reads_only_candidates:
  assumes "\<And>root t p. w = Some root \<Longrightarrow> s = acme_challenge_prefix @ t \<Longrightarrow> acme_token t \<Longrightarrow>
      p \<in> {path_join (nested_dir root) t, path_join root t} \<Longrightarrow>
      fs_is_file fs p = fs_is_file fs' p \<and> fs_metadata fs p = fs_metadata fs' p \<and> fs_read fs p = fs_read fs' p"
  shows "try_serve_acme_challenge L fs s w = try_serve_acme_challenge L fs' s w"
proof (cases rule: try_serve_cases [where s = s and L = L and w = w])
  case (token t root)
  have a: "fs_is_file fs p = fs_is_file fs' p \<and> fs_metadata fs p = fs_metadata fs' p \<and> fs_read fs p = fs_read fs' p"
    if "p \<in> {path_join (nested_dir root) t, path_join root t}" for p
    using assms token that by blast
  then have f: "served_file fs root t = served_file fs' root t"
    by (simp add: served_file_def)
  show ?thesis
  proof (cases "served_file fs' root t")
    case None
    then show ?thesis unfolding token(1,3) try_serve_eq [OF token(2)] f by simp
  next
    case (Some p)
    then have "p \<in> {path_join (nested_dir root) t, path_join root t}"
      by (auto simp: served_file_def split: if_splits)
    from a [OF this] Some show ?thesis
      unfolding token(1,3) try_serve_eq [OF token(2)] f
      by (simp split: option.split bool.split)
  qed
qed simp_all

theorem acme_reads_only_candidates_witness:
  "try_serve_acme_challenge assoc_http example_fs (acme_challenge_prefix @ ''../etc/passwd'') (Some ''/w'') =
   try_serve_acme_challenge assoc_http
     (example_fs\<lparr>fs_is_file := (\<lambda>_. True), fs_read := (\<lambda>_. Some ''root:x'')\<rparr>)
     (acme_challenge_prefix @ ''../etc/passwd'') (Some ''/w'')"
proof (rule acme_reads_only_candidates)
  fix root t p
  assume "acme_challenge_prefix @ ''../etc/passwd'' = acme_challenge_prefix @ t" "acme_token t"
  moreover have "\<not> acme_token ''../etc/passwd''" by code_simp
  ultimately have False by simp
  then show "fs_is_file example_fs p = fs_is_file (example_fs\<lparr>fs_is_file := (\<lambda>_. True), fs_read := (\<lambda>_. Some ''root:x'')\<rparr>) p \<and>
    fs_metadata example_fs p = fs_metadata (example_fs\<lparr>fs_is_file := (\<lambda>_. True), fs_read := (\<lambda>_. Some ''root:x'')\<rparr>) p \<and>
    fs_read example_fs p = fs_read (example_fs\<lparr>fs_is_file := (\<lambda>_. True), fs_read := (\<lambda>_. Some ''root:x'')\<rparr>) p" ..
qed

end
