(* ===== verification/Redirect.thy ===== *)
theory Redirect
  imports Acme
begin

text \<open>
  \<open>src/http_redirect.rs\<close>: the handler of the plain HTTP port, which answers ACME challenges and
  sends everything else to HTTPS. The accept loop around it only hands requests to this handler.
\<close>

text \<open>\<open>uri().path_and_query()\<close>: absent for the authority form.\<close>

definition path_and_query :: "'h request \<Rightarrow> string option" where
  "path_and_query r =
     (case rq_query r of
        Some q \<Rightarrow> Some (rq_path r @ ''?'' @ q)
      | None \<Rightarrow> if rq_path r = [] then None else Some (rq_path r))"

text \<open>\<open>uri().host().or_else(|| headers.get("host").and_then(to_str))\<close>.\<close>

definition request_host :: "'h http_lib \<Rightarrow> 'h request \<Rightarrow> string option" where
  "request_host L r =
     (case rq_uri_host r of
        Some h \<Rightarrow> Some h
      | None \<Rightarrow> Option.bind (hm_get L (rq_headers r) ''host'') (hv_to_str L))"

definition target_url :: "'h http_lib \<Rightarrow> 'h request \<Rightarrow> string" where
  "target_url L r =
     (let host = (case request_host L r of Some h \<Rightarrow> h | None \<Rightarrow> ''localhost'');
          host_clean = hd (split_on CHR '':'' host);
          pq = (case path_and_query r of Some p \<Rightarrow> p | None \<Rightarrow> ''/'')
      in ''https://'' @ host_clean @ pq)"

definition redirect_handler ::
    "'h http_lib \<Rightarrow> acme_fs \<Rightarrow> security_config \<Rightarrow> string option \<Rightarrow> 'h request \<Rightarrow> 'h response" where
  "redirect_handler L fs sec webroot req =
     (case try_serve_acme_challenge L fs (rq_path req) webroot of
        Some acme_res \<Rightarrow> inject_response_security_headers L acme_res sec
      | None \<Rightarrow>
          (let res = (new_response L [])\<lparr>rs_status := 301\<rparr>;
               res = (case hv_from_str L (target_url L req) of
                        Some loc \<Rightarrow> set_header L ''location'' loc res
                      | None \<Rightarrow> res)
           in inject_response_security_headers L res sec))"

lemma lower_location: "lower ''location'' = ''location''"
  by code_simp

lemma location_notin_hardening:
  "''location'' \<notin> {''referrer-policy'', ''x-content-type-options'', ''x-frame-options'',
     ''strict-transport-security'', ''server''}"
  by code_simp

lemma inject_location:
  "http_laws L \<Longrightarrow> hm_get_all L (inject_downstream_security_headers L h s) ''location'' = hm_get_all L h ''location''"
  using location_notin_hardening
  by (simp only: get_all_inject lower_location) simp

text \<open>
  The plain port redirects and never serves. Every request outside the challenge prefix gets a
  permanent redirect with an empty body, whose only location is \<open>https://\<close>, the host up to its
  first colon, and the path and query unchanged, provided the host and the path are legal header
  bytes (otherwise there is no location). Every request below the prefix gets the responder's
  answer; both are hardened.
\<close>

theorem redirect_handler_spec:
  assumes "http_laws L"
  shows "(case try_serve_acme_challenge L fs (rq_path req) webroot of
     Some r \<Rightarrow> rs_status (redirect_handler L fs sec webroot req) = rs_status r \<and>
       rs_body (redirect_handler L fs sec webroot req) = rs_body r
   | None \<Rightarrow>
       rs_status (redirect_handler L fs sec webroot req) = 301 \<and>
       rs_body (redirect_handler L fs sec webroot req) = [] \<and>
       hm_get_all L (rs_headers (redirect_handler L fs sec webroot req)) ''location'' =
         (let url = ''https://'' @
            before CHR '':'' (case request_host L req of Some h \<Rightarrow> h | None \<Rightarrow> ''localhost'') @
            (case rq_query req of Some q \<Rightarrow> rq_path req @ ''?'' @ q
             | None \<Rightarrow> if rq_path req = [] then ''/'' else rq_path req)
          in if list_all value_byte url then [url] else [])) \<and>
   hm_get_all L (rs_headers (redirect_handler L fs sec webroot req)) ''x-content-type-options'' = [''nosniff'']"
proof -
  have url: "''https://'' @ before CHR '':'' (case request_host L req of Some h \<Rightarrow> h | None \<Rightarrow> ''localhost'') @
      (case rq_query req of Some q \<Rightarrow> rq_path req @ ''?'' @ q
       | None \<Rightarrow> if rq_path req = [] then ''/'' else rq_path req) = target_url L req"
    by (simp add: target_url_def Let_def hd_split_on path_and_query_def split: option.split)
  have n: "hm_get_all L (rs_headers (redirect_handler L fs sec webroot req)) ''x-content-type-options'' = [''nosniff'']"
    using assms by (simp add: redirect_handler_def Let_def get_all_inject lower_hardening_names split: option.split)
  show ?thesis
  proof (cases "try_serve_acme_challenge L fs (rq_path req) webroot")
    case None
    with assms n show ?thesis
      unfolding url Let_def
      by (simp add: redirect_handler_def Let_def inject_location from_str_eq get_all_insert get_all_empty)
  next
    case (Some r)
    with n show ?thesis by (simp add: redirect_handler_def)
  qed
qed

definition ipv6_request :: "assoc_headers request" where
  "ipv6_request = \<lparr>rq_method = ''GET'', rq_uri_host = None, rq_path = ''/x'', rq_query = Some ''a=1'',
     rq_headers = [(''host'', ''[2001:db8::1]:8080'')]\<rparr>"

text \<open>The host is cut at its first colon, so a bracketed IPv6 literal is cut inside its brackets.\<close>

theorem redirect_handler_spec_witness:
  "rs_status (redirect_handler assoc_http example_fs default_security None ipv6_request) = 301 \<and>
   hm_get_all assoc_http
     (rs_headers (redirect_handler assoc_http example_fs default_security None ipv6_request)) ''location'' =
     [''https://[2001/x?a=1'']"
proof -
  have n: "try_serve_acme_challenge assoc_http example_fs (rq_path ipv6_request) None = None"
    by (simp add: ipv6_request_def try_serve_acme_challenge_def starts_with_def acme_challenge_prefix_def)
  have h: "request_host assoc_http ipv6_request = Some ''[2001:db8::1]:8080''"
    "before CHR '':'' ''[2001:db8::1]:8080'' = ''[2001''" "list_all value_byte ''https://[2001/x?a=1''"
    by code_simp+
  show ?thesis
    using redirect_handler_spec [OF assoc_http_laws, where fs = example_fs and req = ipv6_request
        and webroot = None and sec = default_security] h(3)
    by (simp add: n h(1,2) Let_def) (simp add: ipv6_request_def)
qed

end
