(* ===== verification/Tls.thy ===== *)
theory Tls
  imports Router
begin

text \<open>
  \<open>src/tls.rs\<close>: loading the PEM files, the certificate resolver with its fallback and the acceptor.
  The PEM reader, the key parser and rustls' resolver by server name are the fields of
  \<open>T :: ('r, 's) tls_lib\<close>; what the code relies on is \<open>sni_laws\<close>: a name in small letters, as the code
  registers them, resolves to the key registered last for it, if the resolver has accepted it. The lemmas connect the certificate a client gets with the route
  the router picks for it.
\<close>

section \<open>Loading\<close>

datatype tls_error =
    TlsIo string string
  | RustlsError string
  | CertificateParse string
  | PrivateKeyParse string
  | KeyParse string
  | NoRoutes

datatype pem_item =
    Pkcs1Key string
  | Pkcs8Key string
  | Sec1Key string
  | OtherItem

datatype private_key =
    Pkcs1 string
  | Pkcs8 string
  | Sec1 string

type_synonym 's certified_key = "string list \<times> 's"

text \<open>
  \<open>tl_certs\<close> and \<open>tl_items\<close> list what the PEM iterators yield on a file's content, up to the end of
  the file; names are those of a client's SNI extension, \<open>None\<close> without one.
\<close>

record ('r, 's) tls_lib =
  tl_open :: "string \<Rightarrow> string + string"
  tl_certs :: "string \<Rightarrow> (string + string) list"
  tl_items :: "string \<Rightarrow> (string + pem_item) list"
  tl_signing_key :: "private_key \<Rightarrow> string + 's"
  tl_sni_new :: 'r
  tl_sni_add :: "'r \<Rightarrow> string \<Rightarrow> 's certified_key \<Rightarrow> string + 'r"
  tl_sni_resolve :: "'r \<Rightarrow> string option \<Rightarrow> 's certified_key option"

definition sni_laws :: "('r, 's) tls_lib \<Rightarrow> bool" where
  "sni_laws T \<longleftrightarrow>
     (\<forall>n. tl_sni_resolve T (tl_sni_new T) n = None) \<and>
     (\<forall>r d k r' n. lower d = d \<longrightarrow> tl_sni_add T r d k = Inr r' \<longrightarrow>
        tl_sni_resolve T r' n = (if n = Some d then Some k else tl_sni_resolve T r n))"

text \<open>\<open>map_err\<close>.\<close>

definition map_err :: "('e \<Rightarrow> 'f) \<Rightarrow> 'e + 'a \<Rightarrow> 'f + 'a" where
  "map_err f r = (case r of Inl e \<Rightarrow> Inl (f e) | Inr x \<Rightarrow> Inr x)"

lemma map_err_simps [simp]:
  "map_err f (Inl e) = Inl (f e)" "map_err f (Inr x) = Inr x"
  "map_err f r = Inr x \<longleftrightarrow> r = Inr x"
  by (simp_all add: map_err_def split: sum.split)

text \<open>\<open>collect::<Result<Vec<_>, _>>()\<close>.\<close>

fun collect_results :: "('e + 'a) list \<Rightarrow> 'e + 'a list" where
  "collect_results [] = Inr []"
| "collect_results (r # rs) = result_bind r (\<lambda>x. result_bind (collect_results rs) (\<lambda>xs. Inr (x # xs)))"

definition load_certs :: "('r, 's) tls_lib \<Rightarrow> string \<Rightarrow> tls_error + string list" where
  "load_certs T p =
     result_bind (map_err (TlsIo p) (tl_open T p)) (\<lambda>file.
     result_bind (map_err (\<lambda>_. CertificateParse p) (collect_results (tl_certs T file))) (\<lambda>certs.
     if certs = [] then Inl (CertificateParse (''No valid certificates found in '' @ p))
     else Inr certs))"

fun read_key :: "string \<Rightarrow> (string + pem_item) list \<Rightarrow> tls_error + private_key" where
  "read_key p [] = Inl (PrivateKeyParse (''No valid private key found in '' @ p))"
| "read_key p (r # rs) =
     result_bind (map_err (TlsIo p) r) (\<lambda>item.
       case item of
         Pkcs1Key key \<Rightarrow> Inr (Pkcs1 key)
       | Pkcs8Key key \<Rightarrow> Inr (Pkcs8 key)
       | Sec1Key key \<Rightarrow> Inr (Sec1 key)
       | OtherItem \<Rightarrow> read_key p rs)"

definition load_private_key :: "('r, 's) tls_lib \<Rightarrow> string \<Rightarrow> tls_error + private_key" where
  "load_private_key T p =
     result_bind (map_err (TlsIo p) (tl_open T p)) (\<lambda>file. read_key p (tl_items T file))"

section \<open>The acceptor\<close>

record ('r, 's) tls_acceptor =
  ta_sni_resolver :: 'r
  ta_fallback :: "'s certified_key"
  ta_alpn_protocols :: "string list"

text \<open>\<open>SovereignSniResolver::resolve\<close>.\<close>

definition sovereign_resolve ::
    "('r, 's) tls_lib \<Rightarrow> ('r, 's) tls_acceptor \<Rightarrow> string option \<Rightarrow> 's certified_key option" where
  "sovereign_resolve T acc hello_name =
     (case tl_sni_resolve T (ta_sni_resolver acc) hello_name of
        Some cert \<Rightarrow> Some cert
      | None \<Rightarrow> Some (ta_fallback acc))"

text \<open>
  Whether the resolver accepts a name for a key depends on the two only, not on what it already holds: rustls
  checks that the name is a DNS name and that the certificate is valid for it.
\<close>

definition registration_law :: "('r, 's) tls_lib \<Rightarrow> bool" where
  "registration_law T \<longleftrightarrow> (\<forall>r r' d k. isl (tl_sni_add T r d k) = isl (tl_sni_add T r' d k))"

text \<open>The key of one route: its certificate chain and its signing key.\<close>

definition route_key :: "('r, 's) tls_lib \<Rightarrow> route_config \<Rightarrow> tls_error + 's certified_key" where
  "route_key T route =
     result_bind (load_certs T (rc_cert route)) (\<lambda>cert_chain.
     result_bind (load_private_key T (rc_key route)) (\<lambda>private_key.
     result_bind (map_err KeyParse (tl_signing_key T private_key)) (\<lambda>signing_key.
     Inr (cert_chain, signing_key))))"

fun add_domains ::
    "('r, 's) tls_lib \<Rightarrow> 's certified_key \<Rightarrow> 'r \<Rightarrow> string list \<Rightarrow> tls_error + 'r" where
  "add_domains T key r [] = Inr r"
| "add_domains T key r (domain # ds) =
     (let clean_domain = lower (trim domain) in
      result_bind
        (map_err (\<lambda>e. KeyParse (''Failed to register SNI '' @ clean_domain @ '': '' @ e))
           (tl_sni_add T r clean_domain key))
        (\<lambda>r'. add_domains T key r' ds))"

fun add_routes ::
    "('r, 's) tls_lib \<Rightarrow> 'r \<Rightarrow> 's certified_key option \<Rightarrow> route_config list \<Rightarrow>
     tls_error + 'r \<times> 's certified_key option" where
  "add_routes T r fallback [] = Inr (r, fallback)"
| "add_routes T r fallback (route # routes) =
     result_bind (route_key T route) (\<lambda>key.
       let fallback' = (case fallback of None \<Rightarrow> Some key | Some k \<Rightarrow> Some k) in
       result_bind (add_domains T key r (rc_domains route)) (\<lambda>r'.
         add_routes T r' fallback' routes))"

definition build_sni_tls_acceptor ::
    "('r, 's) tls_lib \<Rightarrow> route_config list \<Rightarrow> tls_error + ('r, 's) tls_acceptor" where
  "build_sni_tls_acceptor T routes =
     (if routes = [] then Inl NoRoutes
      else result_bind (add_routes T (tl_sni_new T) None routes) (\<lambda>(r, fallback_key).
        case fallback_key of
          None \<Rightarrow> Inl (CertificateParse ''No routes available for TLS fallback'')
        | Some fallback \<Rightarrow>
            Inr \<lparr>ta_sni_resolver = r, ta_fallback = fallback,
                 ta_alpn_protocols = [''h2'', ''http/1.1'']\<rparr>))"

section \<open>Which certificate a client gets\<close>

definition key_of :: "('r, 's) tls_lib \<Rightarrow> route_config \<Rightarrow> 's certified_key option" where
  "key_of T route = (case route_key T route of Inr k \<Rightarrow> Some k | Inl _ \<Rightarrow> None)"

lemma add_domains_resolve:
  "sni_laws T \<Longrightarrow> add_domains T key r ds = Inr r' \<Longrightarrow>
     tl_sni_resolve T r' n =
       (if n \<in> Some ` domain_key ` set ds then Some key else tl_sni_resolve T r n)"
proof (induction ds arbitrary: r)
  case (Cons d ds)
  from Cons.prems(2) obtain r1 where
    r1: "tl_sni_add T r (domain_key d) key = Inr r1" "add_domains T key r1 ds = Inr r'"
    by (auto simp: Let_def domain_key_def)
  have "tl_sni_resolve T r1 n = (if n = Some (domain_key d) then Some key else tl_sni_resolve T r n)"
    using Cons.prems(1) r1(1) lower_idem unfolding sni_laws_def domain_key_def by blast
  with Cons.IH [OF Cons.prems(1) r1(2)] show ?case by auto
qed simp

lemma add_routes_resolve:
  assumes "sni_laws T" "add_routes T r fb routes = Inr (r', fb')"
  shows "\<forall>route \<in> set routes. key_of T route \<noteq> None"
    and "tl_sni_resolve T r' (Some n) =
      (case matching_route routes n of Some route \<Rightarrow> key_of T route
       | None \<Rightarrow> tl_sni_resolve T r (Some n))"
    and "tl_sni_resolve T r' None = tl_sni_resolve T r None"
    and "fb' = (case fb of Some k \<Rightarrow> Some k
      | None \<Rightarrow> (case routes of [] \<Rightarrow> None | route # _ \<Rightarrow> key_of T route))"
  using assms(2)
proof (induction routes arbitrary: r fb)
  case (Cons route routes)
  {
    case 1 with Cons.IH(1) show ?case
      by (auto simp: Let_def key_of_def)
  next
    case 2
    then obtain key r1 where k: "route_key T route = Inr key" "add_domains T key r (rc_domains route) = Inr r1"
      "add_routes T r1 (case fb of None \<Rightarrow> Some key | Some k \<Rightarrow> Some k) routes = Inr (r', fb')"
      by (auto simp: Let_def)
    have "matching_route (route # routes) n =
        (case matching_route routes n of None \<Rightarrow> (if route_matches n route then Some route else None) | Some x \<Rightarrow> Some x)"
      by (simp add: matching_route_def find_append split: option.split)
    moreover have "Some n \<in> Some ` domain_key ` set (rc_domains route) \<longleftrightarrow> route_matches n route"
      by (auto simp: route_matches_def)
    ultimately show ?case
      using Cons.IH(2) [OF k(3)] add_domains_resolve [OF assms(1) k(2), of "Some n"] k(1)
      by (simp add: key_of_def split: option.split)
  next
    case 3
    then obtain key r1 where k: "add_domains T key r (rc_domains route) = Inr r1"
      "add_routes T r1 (case fb of None \<Rightarrow> Some key | Some k \<Rightarrow> Some k) routes = Inr (r', fb')"
      by (auto simp: Let_def)
    from Cons.IH(3) [OF k(2)] add_domains_resolve [OF assms(1) k(1), of None] show ?case by simp
  next
    case 4
    then obtain key r1 where k: "route_key T route = Inr key"
      "add_routes T r1 (case fb of None \<Rightarrow> Some key | Some k \<Rightarrow> Some k) routes = Inr (r', fb')"
      by (auto simp: Let_def)
    from Cons.IH(4) [OF k(2)] k(1) show ?case by (simp add: key_of_def split: option.split)
  }
qed (simp_all add: matching_route_def split: option.split)

lemma route_key_of: "key_of T r = Some k \<longleftrightarrow> route_key T r = Inr k"
  by (simp add: key_of_def split: sum.split)

lemma build_ok:
  assumes "sni_laws T" "build_sni_tls_acceptor T routes = Inr acc"
  shows "routes \<noteq> []" and "\<forall>route \<in> set routes. key_of T route \<noteq> None"
    and "sovereign_resolve T acc None = key_of T (hd routes)"
    and "sovereign_resolve T acc (Some n) =
      (case matching_route routes n of Some route \<Rightarrow> key_of T route | None \<Rightarrow> key_of T (hd routes))"
proof -
  show ne: "routes \<noteq> []" using assms(2) by (auto simp: build_sni_tls_acceptor_def)
  from assms(2) obtain r k where a: "add_routes T (tl_sni_new T) None routes = Inr (r, Some k)"
    and acc: "ta_sni_resolver acc = r" "ta_fallback acc = k"
    by (auto simp: build_sni_tls_acceptor_def split: if_splits option.splits)
  have new: "tl_sni_resolve T (tl_sni_new T) m = None" for m
    using assms(1) by (simp add: sni_laws_def)
  note R = add_routes_resolve [OF assms(1) a]
  show keys: "\<forall>route \<in> set routes. key_of T route \<noteq> None" by (rule R(1))
  have k: "key_of T (hd routes) = Some k" using R(4) ne by (cases routes) simp_all
  show "sovereign_resolve T acc None = key_of T (hd routes)"
    using R(3) k by (simp add: sovereign_resolve_def acc new)
  have m: "matching_route routes n = Some route \<Longrightarrow> key_of T route \<noteq> None" for route
    using keys by (auto simp: matching_route_def dest: find_SomeD)
  show "sovereign_resolve T acc (Some n) =
      (case matching_route routes n of Some route \<Rightarrow> key_of T route | None \<Rightarrow> key_of T (hd routes))"
    using R(2) [of n] k m by (auto simp: sovereign_resolve_def acc new split: option.split)
qed

lemma resolve_matching:
  "resolve (new_router routes) n =
     (case matching_route routes (clean_host n) of Some r \<Rightarrow> Some (route_target r)
      | None \<Rightarrow> (case routes of [] \<Rightarrow> None | r # _ \<Rightarrow> Some (route_target r)))"
  by (simp add: resolve_def router_lookup router_default split: option.split)

text \<open>
  The certificate a client gets belongs to the route its requests go to. Once the acceptor is
  built, every route's key has loaded, and for a server name in canonical form the handshake
  presents the key of the very route the router picks for that host; a client without a server
  name gets the key of the first route, the router's default.
\<close>

theorem tls_certificate_matches_route:
  assumes "sni_laws T" "build_sni_tls_acceptor T routes = Inr acc" "clean_host n = n"
  shows "(\<forall>r \<in> set routes. \<exists>k. route_key T r = Inr k) \<and>
    (\<exists>r \<in> set routes. \<exists>k. resolve (new_router routes) n = Some (route_target r) \<and>
       route_key T r = Inr k \<and> sovereign_resolve T acc (Some n) = Some k) \<and>
    (\<exists>k. ur_default (new_router routes) = Some (route_target (hd routes)) \<and>
       route_key T (hd routes) = Inr k \<and> sovereign_resolve T acc None = Some k)"
proof -
  note B = build_ok [OF assms(1,2)]
  have keys: "\<exists>k. route_key T r = Inr k" if "r \<in> set routes" for r
    using B(2) that by (auto simp: route_key_of)
  obtain k0 where k0: "route_key T (hd routes) = Inr k0" using keys [OF hd_in_set [OF B(1)]] by blast
  have d: "ur_default (new_router routes) = Some (route_target (hd routes))"
    using B(1) by (cases routes) (simp_all add: router_default)
  have "\<exists>r \<in> set routes. \<exists>k. resolve (new_router routes) n = Some (route_target r) \<and>
       route_key T r = Inr k \<and> sovereign_resolve T acc (Some n) = Some k"
  proof (cases "matching_route routes n")
    case None
    with B(1) k0 show ?thesis
      by (cases routes) (auto simp: resolve_matching assms(3) B(4) route_key_of)
  next
    case (Some r)
    then have "r \<in> set routes" by (auto simp: matching_route_def dest: find_SomeD)
    with Some keys show ?thesis
      by (auto simp: resolve_matching assms(3) B(4) route_key_of)
  qed
  with keys k0 d B(3) show ?thesis by (auto simp: route_key_of)
qed

lemma read_key_skip: "read_key p (replicate n (Inr OtherItem) @ rs) = read_key p rs"
  by (induction n) simp_all

text \<open>
  What counts as the private key of a file: the first key of a supported kind, whatever other
  items precede it. A file without one and a file whose reader fails before it are errors, and the
  error names the file.
\<close>

theorem load_private_key_first:
  assumes "tl_open T p = Inr file" "tl_items T file = replicate n (Inr OtherItem) @ rest"
  shows "(rest = [] \<longrightarrow>
      load_private_key T p = Inl (PrivateKeyParse (''No valid private key found in '' @ p))) \<and>
    (\<forall>e r. rest = Inl e # r \<longrightarrow> load_private_key T p = Inl (TlsIo p e)) \<and>
    (\<forall>k r. (rest = Inr (Pkcs1Key k) # r \<longrightarrow> load_private_key T p = Inr (Pkcs1 k)) \<and>
      (rest = Inr (Pkcs8Key k) # r \<longrightarrow> load_private_key T p = Inr (Pkcs8 k)) \<and>
      (rest = Inr (Sec1Key k) # r \<longrightarrow> load_private_key T p = Inr (Sec1 k)))"
proof -
  have "load_private_key T p = read_key p rest"
    using assms by (simp add: load_private_key_def read_key_skip)
  then show ?thesis by simp
qed

section \<open>A concrete library\<close>

definition map_tls :: "(string \<Rightarrow> string certified_key option, string) tls_lib" where
  "map_tls =
     \<lparr>tl_open = Inr, tl_certs = (\<lambda>f. [Inr f]), tl_items = (\<lambda>f. [Inr OtherItem, Inr (Pkcs8Key f)]),
      tl_signing_key = (\<lambda>k. case k of Pkcs8 s \<Rightarrow> Inr s | _ \<Rightarrow> Inl ''kind''),
      tl_sni_new = Map.empty,
      tl_sni_add = (\<lambda>r d k. if d = [] then Inl ''name'' else Inr (r(d \<mapsto> k))),
      tl_sni_resolve = (\<lambda>r n. Option.bind n r)\<rparr>"

lemma bind_upd: "Option.bind n (r(d \<mapsto> k)) = (if n = Some d then Some k else Option.bind n r)"
  by (cases n) auto

lemma map_tls_laws: "sni_laws map_tls"
  unfolding sni_laws_def
proof (intro conjI allI impI)
  fix r :: "string \<Rightarrow> string certified_key option" and d k r' n
  assume "tl_sni_add map_tls r d k = Inr r'"
  then have "r' = r(d \<mapsto> k)" by (simp add: map_tls_def split: if_splits)
  then show "tl_sni_resolve map_tls r' n = (if n = Some d then Some k else tl_sni_resolve map_tls r n)"
    unfolding map_tls_def tls_lib.simps by (simp only: bind_upd)
next
  show "tl_sni_resolve map_tls (tl_sni_new map_tls) n = None" for n
    by (cases n) (simp_all add: map_tls_def)
qed

lemma map_tls_registration: "registration_law map_tls"
  by (simp add: registration_law_def map_tls_def)

definition two_routes :: "route_config list" where
  "two_routes =
     [single_route [''a.example''] fallback_upstream ''a.pem'' ''a.key'' True,
      single_route [''B.example''] fallback_upstream ''b.pem'' ''b.key'' True]"

theorem tls_certificate_matches_route_witness:
  "\<exists>acc. build_sni_tls_acceptor map_tls two_routes = Inr acc \<and>
     (\<exists>r \<in> set two_routes. \<exists>k. resolve (new_router two_routes) ''b.example'' = Some (route_target r) \<and>
       route_key map_tls r = Inr k \<and> sovereign_resolve map_tls acc (Some ''b.example'') = Some k)"
proof -
  have "case build_sni_tls_acceptor map_tls two_routes of Inr acc \<Rightarrow> True | Inl _ \<Rightarrow> False"
    by code_simp
  then obtain acc where acc: "build_sni_tls_acceptor map_tls two_routes = Inr acc"
    by (cases "build_sni_tls_acceptor map_tls two_routes") simp_all
  have "clean_host ''b.example'' = ''b.example''" by code_simp
  with acc tls_certificate_matches_route [OF map_tls_laws acc this] show ?thesis by blast
qed

theorem load_private_key_first_witness:
  "load_private_key map_tls ''a.key'' = Inr (Pkcs8 ''a.key'')"
proof -
  have "tl_open map_tls ''a.key'' = Inr ''a.key''"
    "tl_items map_tls ''a.key'' = replicate 1 (Inr OtherItem) @ [Inr (Pkcs8Key ''a.key'')]"
    by (simp_all add: map_tls_def)
  from load_private_key_first [OF this] show ?thesis by blast
qed

end
