(* ===== verification/Ip_Net.thy ===== *)
theory Ip_Net
  imports Net_Addr
begin

text \<open>
  The interface of the crates the quarantine code rests on and the repository does not contain:
  \<open>ipnet\<close> (networks), \<open>phylax\<close>' in-memory quarantine and the SQL engine. Each is a record of the
  operations the code calls. \<open>cidr_lib\<close> is a concrete network library for evaluation.
\<close>

section \<open>Networks\<close>

record 'n ipnet_lib =
  net_parse :: "string \<Rightarrow> 'n option"
  net_show :: "'n \<Rightarrow> string"
  net_addr :: "'n \<Rightarrow> ip_addr"
  net_contains :: "'n \<Rightarrow> ip_addr \<Rightarrow> bool"
  net_new :: "ip_addr \<Rightarrow> nat \<Rightarrow> 'n option"

section \<open>The in-memory quarantine\<close>

record ('q, 'n) phylax_quarantine =
  aq_add_ban :: "'q \<Rightarrow> 'n \<Rightarrow> u64 \<Rightarrow> 'q"
  aq_unban :: "'q \<Rightarrow> string \<Rightarrow> bool \<times> 'q"
  aq_unban_all :: "'q \<Rightarrow> 'q"
  aq_active_bans_count :: "'q \<Rightarrow> nat"
  aq_record_and_check :: "'q \<Rightarrow> string \<Rightarrow> u64 \<Rightarrow> 'q"
  aq_derive_quarantine_cidr :: "string \<Rightarrow> string option"

section \<open>A concrete network library\<close>

fun addr_value :: "ip_addr \<Rightarrow> nat" where
  "addr_value (V4 a b c d) = foldl (\<lambda>n x. n * 256 + unat x) 0 [a, b, c, d]"
| "addr_value (V6 a b c d e f g h) = foldl (\<lambda>n x. n * 65536 + unat x) 0 [a, b, c, d, e, f, g, h]"

definition addr_bits :: "ip_addr \<Rightarrow> nat" where
  "addr_bits ip = (if is_ipv4 ip then 32 else 128)"

type_synonym cidr = "ip_addr \<times> nat"

definition cidr_parse :: "string \<Rightarrow> cidr option" where
  "cidr_parse s =
     (case split_once CHR ''/'' s of
        None \<Rightarrow> None
      | Some (a, p) \<Rightarrow>
          (case parse_ip a of
             None \<Rightarrow> None
           | Some ip \<Rightarrow>
               if p \<noteq> [] \<and> list_all is_digit p \<and> digits_value p \<le> addr_bits ip
               then Some (ip, digits_value p) else None))"

definition cidr_contains :: "cidr \<Rightarrow> ip_addr \<Rightarrow> bool" where
  "cidr_contains n b =
     (is_ipv4 (fst n) = is_ipv4 b \<and>
      (let k = 2 ^ (addr_bits b - snd n) in addr_value (fst n) div k = addr_value b div k))"

definition cidr_lib :: "cidr ipnet_lib" where
  "cidr_lib =
     \<lparr>net_parse = cidr_parse, net_show = (\<lambda>(a, p). show_ip a @ ''/'' @ show_nat p), net_addr = fst,
      net_contains = cidr_contains,
      net_new = (\<lambda>ip p. if p \<le> addr_bits ip then Some (ip, p) else None)\<rparr>"

text \<open>A quarantine that holds the list of its bans, and derives \<open>/24\<close> and \<open>/64\<close> networks.\<close>

definition derive_cidr :: "string \<Rightarrow> string option" where
  "derive_cidr s =
     (case parse_ip s of
        Some (V4 a b c d) \<Rightarrow> Some (show_ip (V4 a b c 0) @ ''/24'')
      | Some (V6 a b c d e f g h) \<Rightarrow> Some (show_ip (V6 a b c d 0 0 0 0) @ ''/64'')
      | None \<Rightarrow> None)"

definition list_quarantine :: "((cidr \<times> u64) list, cidr) phylax_quarantine" where
  "list_quarantine =
     \<lparr>aq_add_ban = (\<lambda>q n e. (n, e) # filter (\<lambda>(m, _). m \<noteq> n) q),
      aq_unban = (\<lambda>q s.
        (let keep = filter (\<lambda>(n, _). cidr_parse s \<noteq> Some n \<and>
           (case parse_ip s of Some ip \<Rightarrow> \<not> cidr_contains n ip | None \<Rightarrow> True)) q
         in (length keep < length q, keep))),
      aq_unban_all = (\<lambda>_. []), aq_active_bans_count = length,
      aq_record_and_check = (\<lambda>q s now.
        case derive_cidr s of
          Some c \<Rightarrow> (case cidr_parse c of Some n \<Rightarrow> (n, now + 86400000) # q | None \<Rightarrow> q)
        | None \<Rightarrow> q),
      aq_derive_quarantine_cidr = derive_cidr\<rparr>"

end
