(* ===== verification/Store.thy ===== *)
theory Store
  imports Ip_Net "HOL-Library.Multiset"
begin

text \<open>
  \<open>src/quarantine/store.rs\<close>: the SQL store of the bans. The two tables are lists of rows in
  insertion order, the statements of the code are functions on them, and a transaction that fails
  leaves the tables as they were. The engine is a parameter: the order in which a query without an
  \<open>ORDER BY\<close> (or with ties) yields its rows, and the statements that fail. Integers of the tables
  are SQLite's signed 64-bit integers, so binding a \<open>u64\<close> of \<open>2 ^ 63\<close> or more is an error; sums of
  the 32-bit counters stay far below that bound and are written without the overflow to a real.
\<close>

section \<open>Records, rows and tables\<close>

datatype store_error =
    Sqlite string
  | StoreIo string
  | InvalidNetwork string

record quarantine_record =
  qr_cidr :: string
  qr_ip_version :: u8
  qr_trigger_ip :: string
  qr_infraction_type :: string
  qr_infraction_count :: u32
  qr_quarantined_at :: u64
  qr_expires_at :: u64
  qr_user_agent :: "string option"
  qr_active :: bool

record audit_event =
  ae_id :: int
  ae_cidr :: string
  ae_event_type :: string
  ae_event_ts :: u64
  ae_details :: "string option"

record subnet_row =
  row_cidr :: string
  row_ip_version :: int
  row_trigger_ip :: string
  row_infraction_type :: string
  row_infraction_count :: int
  row_quarantined_at :: int
  row_expires_at :: int
  row_user_agent :: "string option"
  row_active :: int

record audit_row =
  au_id :: int
  au_cidr :: string
  au_event_type :: string
  au_event_ts :: int
  au_details :: "string option"

text \<open>\<open>AUTOINCREMENT\<close> keeps the largest identifier ever used.\<close>

record quarantine_db =
  db_subnets :: "subnet_row list"
  db_audit :: "audit_row list"
  db_last_id :: int

definition empty_db :: quarantine_db where
  "empty_db = \<lparr>db_subnets = [], db_audit = [], db_last_id = 0\<rparr>"

text \<open>The engine: scan order and failing statements.\<close>

record sql_engine =
  eng_scan :: "subnet_row list \<Rightarrow> subnet_row list"
  eng_error :: "string \<Rightarrow> string option"

text \<open>
  A query yields every row of the table once, in some order, and the library's test engine yields
  them in insertion order and never fails.
\<close>

definition engine_laws :: "sql_engine \<Rightarrow> bool" where
  "engine_laws E \<longleftrightarrow> (\<forall>rows. mset (eng_scan E rows) = mset rows)"

definition engine_works :: "sql_engine \<Rightarrow> bool" where
  "engine_works E \<longleftrightarrow> (\<forall>stmt. eng_error E stmt = None)"

definition plain_engine :: sql_engine where
  "plain_engine = \<lparr>eng_scan = (\<lambda>rows. rows), eng_error = (\<lambda>_. None)\<rparr>"

lemma plain_engine_ok [simp]: "engine_laws plain_engine" "engine_works plain_engine"
  by (simp_all add: engine_laws_def engine_works_def plain_engine_def)

lemma set_scan: "engine_laws E \<Longrightarrow> set (eng_scan E rows) = set rows"
  by (metis engine_laws_def mset_eq_setD)

definition run_stmt :: "sql_engine \<Rightarrow> string \<Rightarrow> store_error + unit" where
  "run_stmt E stmt = (case eng_error E stmt of Some e \<Rightarrow> Inl (Sqlite e) | None \<Rightarrow> Inr ())"

lemma run_stmt_works [simp]: "engine_works E \<Longrightarrow> run_stmt E stmt = Inr ()"
  by (simp add: run_stmt_def engine_works_def)

text \<open>Binding a \<open>u64\<close> parameter.\<close>

definition bind_u64 :: "u64 \<Rightarrow> store_error + int" where
  "bind_u64 x = (if unat x < 2 ^ 63 then Inr (uint x) else Inl (Sqlite ''ToSqlConversionFailure''))"

text \<open>
  A transaction: \<open>conn.transaction()\<close>, the statements, \<open>commit()\<close>. A transaction that is dropped
  before it is committed is rolled back.
\<close>

definition transaction ::
    "sql_engine \<Rightarrow> (quarantine_db \<Rightarrow> store_error + quarantine_db) \<Rightarrow> quarantine_db \<Rightarrow>
     (store_error + unit) \<times> quarantine_db" where
  "transaction E body db =
     (case result_bind (run_stmt E ''BEGIN'') (\<lambda>_.
             result_bind (body db) (\<lambda>db'.
             result_bind (run_stmt E ''COMMIT'') (\<lambda>_. Inr db'))) of
        Inl e \<Rightarrow> (Inl e, db)
      | Inr db' \<Rightarrow> (Inr (), db'))"

section \<open>Opening\<close>

text \<open>\<open>CREATE TABLE IF NOT EXISTS\<close> keeps what the file holds.\<close>

definition init_schema :: "sql_engine \<Rightarrow> quarantine_db option \<Rightarrow> store_error + quarantine_db" where
  "init_schema E file =
     result_bind (run_stmt E ''CREATE'') (\<lambda>_.
       Inr (case file of Some db \<Rightarrow> db | None \<Rightarrow> empty_db))"

text \<open>\<open>open\<close>: the answer of \<open>create_dir_all\<close> on the parent (if there is one) and the file's tables.\<close>

definition open_store ::
    "sql_engine \<Rightarrow> string option \<Rightarrow> quarantine_db option \<Rightarrow> store_error + quarantine_db" where
  "open_store E dir_error file =
     (case dir_error of
        Some e \<Rightarrow> Inl (StoreIo e)
      | None \<Rightarrow>
          result_bind (run_stmt E ''OPEN'') (\<lambda>_.
          result_bind (run_stmt E ''PRAGMA busy_timeout'') (\<lambda>_.
          result_bind (run_stmt E ''PRAGMA'') (\<lambda>_. init_schema E file))))"

definition in_memory_store :: "sql_engine \<Rightarrow> store_error + quarantine_db" where
  "in_memory_store E =
     result_bind (run_stmt E ''OPEN'') (\<lambda>_.
     result_bind (run_stmt E ''PRAGMA busy_timeout'') (\<lambda>_. init_schema E None))"

section \<open>Statements\<close>

text \<open>The parameters of the insertion, as the row they make.\<close>

definition bind_record :: "quarantine_record \<Rightarrow> store_error + subnet_row" where
  "bind_record rec =
     result_bind (bind_u64 (qr_quarantined_at rec)) (\<lambda>q.
     result_bind (bind_u64 (qr_expires_at rec)) (\<lambda>e.
       Inr \<lparr>row_cidr = qr_cidr rec, row_ip_version = uint (qr_ip_version rec),
            row_trigger_ip = qr_trigger_ip rec, row_infraction_type = qr_infraction_type rec,
            row_infraction_count = uint (qr_infraction_count rec), row_quarantined_at = q,
            row_expires_at = e, row_user_agent = qr_user_agent rec,
            row_active = (if qr_active rec then 1 else 0)\<rparr>))"

text \<open>\<open>ON CONFLICT(cidr) DO UPDATE\<close>.\<close>

definition merge_row :: "subnet_row \<Rightarrow> subnet_row \<Rightarrow> subnet_row" where
  "merge_row excluded r =
     r\<lparr>row_infraction_count := row_infraction_count r + row_infraction_count excluded,
       row_expires_at := row_expires_at excluded,
       row_user_agent := (case row_user_agent excluded of Some ua \<Rightarrow> Some ua | None \<Rightarrow> row_user_agent r),
       row_active := 1\<rparr>"

definition upsert_row :: "subnet_row \<Rightarrow> subnet_row list \<Rightarrow> subnet_row list" where
  "upsert_row excluded rows =
     (if row_cidr excluded \<in> row_cidr ` set rows
      then map (\<lambda>r. if row_cidr r = row_cidr excluded then merge_row excluded r else r) rows
      else rows @ [excluded])"

definition insert_audit ::
    "string \<Rightarrow> string \<Rightarrow> int \<Rightarrow> string option \<Rightarrow> quarantine_db \<Rightarrow> quarantine_db" where
  "insert_audit c ty ts details db =
     db\<lparr>db_last_id := db_last_id db + 1,
        db_audit := db_audit db @ [\<lparr>au_id = db_last_id db + 1, au_cidr = c, au_event_type = ty,
          au_event_ts = ts, au_details = details\<rparr>]\<rparr>"

definition record_ban ::
    "sql_engine \<Rightarrow> quarantine_record \<Rightarrow> quarantine_db \<Rightarrow> (store_error + unit) \<times> quarantine_db" where
  "record_ban E rec =
     transaction E (\<lambda>db.
       result_bind (bind_record rec) (\<lambda>row.
       result_bind (run_stmt E ''INSERT quarantined_subnets'') (\<lambda>_.
       let db1 = db\<lparr>db_subnets := upsert_row row (db_subnets db)\<rparr> in
       result_bind (bind_u64 (qr_quarantined_at rec)) (\<lambda>ts.
       result_bind (run_stmt E ''INSERT quarantine_audit_log'') (\<lambda>_.
         Inr (insert_audit (qr_cidr rec) ''quarantined'' ts
           (Some (''Trigger IP: '' @ qr_trigger_ip rec @ '', Infraction: '' @ qr_infraction_type rec)) db1))))))"

definition set_inactive :: "(subnet_row \<Rightarrow> bool) \<Rightarrow> quarantine_db \<Rightarrow> quarantine_db" where
  "set_inactive P db =
     db\<lparr>db_subnets := map (\<lambda>r. if P r then r\<lparr>row_active := 0\<rparr> else r) (db_subnets db)\<rparr>"

definition active_cidrs :: "subnet_row list \<Rightarrow> string list" where
  "active_cidrs rows = map row_cidr (filter (\<lambda>r. row_active r = 1) rows)"

text \<open>The bans that \<open>unban\<close> lifts: the exact entry, else the networks that contain the address.\<close>

definition unban_targets ::
    "sql_engine \<Rightarrow> 'n ipnet_lib \<Rightarrow> string \<Rightarrow> quarantine_db \<Rightarrow> store_error + string list" where
  "unban_targets E N target db =
     result_bind (run_stmt E ''SELECT cidr'') (\<lambda>_.
     let exact = map row_cidr (filter (\<lambda>r. row_cidr r = target \<and> row_active r = 1)
           (eng_scan E (db_subnets db))) in
     if exact \<noteq> [] then Inr exact
     else case parse_ip target of
       None \<Rightarrow> Inr []
     | Some addr \<Rightarrow>
         result_bind (run_stmt E ''SELECT active'') (\<lambda>_.
         Inr (filter (\<lambda>c. case net_parse N c of Some net \<Rightarrow> net_contains N net addr | None \<Rightarrow> False)
           (active_cidrs (eng_scan E (db_subnets db))))))"

fun lift_bans ::
    "sql_engine \<Rightarrow> string \<Rightarrow> u64 \<Rightarrow> string list \<Rightarrow> quarantine_db \<Rightarrow> store_error + quarantine_db" where
  "lift_bans E details now_ms [] db = Inr db"
| "lift_bans E details now_ms (c # cs) db =
     result_bind (run_stmt E ''UPDATE'') (\<lambda>_.
     let db1 = set_inactive (\<lambda>r. row_cidr r = c) db in
     result_bind (bind_u64 now_ms) (\<lambda>ts.
     result_bind (run_stmt E ''INSERT quarantine_audit_log'') (\<lambda>_.
       lift_bans E details now_ms cs (insert_audit c ''unbanned'' ts (Some details) db1))))"

definition unban ::
    "sql_engine \<Rightarrow> 'n ipnet_lib \<Rightarrow> string \<Rightarrow> string \<Rightarrow> u64 \<Rightarrow> quarantine_db \<Rightarrow>
     (store_error + string list) \<times> quarantine_db" where
  "unban E N target details now_ms db =
     (case unban_targets E N target db of
        Inl e \<Rightarrow> (Inl e, db)
      | Inr [] \<Rightarrow> (Inr [], db)
      | Inr unbanned \<Rightarrow>
          (case transaction E (lift_bans E details now_ms unbanned) db of
             (Inl e, db') \<Rightarrow> (Inl e, db')
           | (Inr _, db') \<Rightarrow> (Inr unbanned, db')))"

fun audit_all ::
    "sql_engine \<Rightarrow> string \<Rightarrow> u64 \<Rightarrow> string list \<Rightarrow> quarantine_db \<Rightarrow> store_error + quarantine_db" where
  "audit_all E details now_ms [] db = Inr db"
| "audit_all E details now_ms (c # cs) db =
     result_bind (bind_u64 now_ms) (\<lambda>ts.
     result_bind (run_stmt E ''INSERT quarantine_audit_log'') (\<lambda>_.
       audit_all E details now_ms cs (insert_audit c ''unbanned_all'' ts (Some details) db)))"

definition unban_all ::
    "sql_engine \<Rightarrow> string \<Rightarrow> u64 \<Rightarrow> quarantine_db \<Rightarrow> (store_error + nat) \<times> quarantine_db" where
  "unban_all E details now_ms db =
     (case run_stmt E ''SELECT active'' of
        Inl e \<Rightarrow> (Inl e, db)
      | Inr _ \<Rightarrow>
          (let active = active_cidrs (eng_scan E (db_subnets db)) in
           if length active = 0 then (Inr 0, db)
           else case transaction E (\<lambda>db.
               result_bind (run_stmt E ''UPDATE'') (\<lambda>_.
                 audit_all E details now_ms active (set_inactive (\<lambda>r. row_active r = 1) db))) db of
             (Inl e, db') \<Rightarrow> (Inl e, db')
           | (Inr _, db') \<Rightarrow> (Inr (length active), db')))"

section \<open>Queries\<close>

definition get_u64 :: "int \<Rightarrow> u64 option" where
  "get_u64 i = (if 0 \<le> i \<and> i < 2 ^ 63 then Some (of_int i) else None)"

definition get_u32 :: "int \<Rightarrow> u32 option" where
  "get_u32 i = (if 0 \<le> i \<and> i < 2 ^ 32 then Some (of_int i) else None)"

definition get_u8 :: "int \<Rightarrow> u8 option" where
  "get_u8 i = (if 0 \<le> i \<and> i < 2 ^ 8 then Some (of_int i) else None)"

definition map_quarantine_row :: "subnet_row \<Rightarrow> quarantine_record option" where
  "map_quarantine_row r =
     do { v \<leftarrow> get_u8 (row_ip_version r); n \<leftarrow> get_u32 (row_infraction_count r);
          q \<leftarrow> get_u64 (row_quarantined_at r); e \<leftarrow> get_u64 (row_expires_at r);
          Some \<lparr>qr_cidr = row_cidr r, qr_ip_version = v, qr_trigger_ip = row_trigger_ip r,
            qr_infraction_type = row_infraction_type r, qr_infraction_count = n,
            qr_quarantined_at = q, qr_expires_at = e, qr_user_agent = row_user_agent r,
            qr_active = (row_active r = 1)\<rparr> }"

text \<open>\<open>ORDER BY quarantined_at DESC\<close>: ties in the engine's order.\<close>

definition newest_first :: "sql_engine \<Rightarrow> subnet_row list \<Rightarrow> subnet_row list" where
  "newest_first E rows = sort_key (\<lambda>r. - row_quarantined_at r) (eng_scan E rows)"

definition get_active_bans ::
    "sql_engine \<Rightarrow> u64 \<Rightarrow> quarantine_db \<Rightarrow> store_error + quarantine_record list" where
  "get_active_bans E now_ms db =
     result_bind (run_stmt E ''SELECT bans'') (\<lambda>_.
     result_bind (bind_u64 now_ms) (\<lambda>now.
       Inr (List.map_filter map_quarantine_row
         (filter (\<lambda>r. row_active r = 1 \<and> row_expires_at r > now) (newest_first E (db_subnets db))))))"

text \<open>\<open>LIMIT ?\<close> with \<open>limit as i64\<close>: a negative limit is no limit.\<close>

definition sql_limit :: "usize \<Rightarrow> 'a list \<Rightarrow> 'a list" where
  "sql_limit limit xs = (if sint limit < 0 then xs else take (nat (sint limit)) xs)"

definition get_all_records ::
    "sql_engine \<Rightarrow> usize \<Rightarrow> quarantine_db \<Rightarrow> store_error + quarantine_record list" where
  "get_all_records E limit db =
     result_bind (run_stmt E ''SELECT all'') (\<lambda>_.
       Inr (List.map_filter map_quarantine_row (sql_limit limit (newest_first E (db_subnets db)))))"

definition map_audit_row :: "audit_row \<Rightarrow> audit_event option" where
  "map_audit_row a =
     do { ts \<leftarrow> get_u64 (au_event_ts a);
          Some \<lparr>ae_id = au_id a, ae_cidr = au_cidr a, ae_event_type = au_event_type a,
            ae_event_ts = ts, ae_details = au_details a\<rparr> }"

text \<open>The identifiers are unique, so \<open>ORDER BY id DESC\<close> leaves no choice.\<close>

definition get_audit_log ::
    "sql_engine \<Rightarrow> usize \<Rightarrow> quarantine_db \<Rightarrow> store_error + audit_event list" where
  "get_audit_log E limit db =
     result_bind (run_stmt E ''SELECT audit'') (\<lambda>_.
       Inr (List.map_filter map_audit_row
         (sql_limit limit (sort_key (\<lambda>a. - au_id a) (db_audit db)))))"

end
