(* ===== verification/Store_Props.thy ===== *)
theory Store_Props
  imports Store
begin

text \<open>
  What the store of \<open>src/quarantine/store.rs\<close> guarantees: the effect of each operation in one
  equation, the invariant of the tables and the agreement between the ban table and the audit log in
  every reachable state, and the contract \<open>ban_registry\<close> its clients use.
\<close>

section \<open>The effect of the statements\<close>

fun audit_entries :: "int \<Rightarrow> string \<Rightarrow> int \<Rightarrow> string option \<Rightarrow> string list \<Rightarrow> audit_row list" where
  "audit_entries n ty ts d [] = []"
| "audit_entries n ty ts d (c # cs) =
     \<lparr>au_id = n + 1, au_cidr = c, au_event_type = ty, au_event_ts = ts, au_details = d\<rparr>
       # audit_entries (n + 1) ty ts d cs"

definition append_audit :: "string \<Rightarrow> int \<Rightarrow> string option \<Rightarrow> string list \<Rightarrow> quarantine_db \<Rightarrow> quarantine_db" where
  "append_audit ty ts d cs db =
     db\<lparr>db_audit := db_audit db @ audit_entries (db_last_id db) ty ts d cs,
        db_last_id := db_last_id db + int (length cs)\<rparr>"

lemma length_audit_entries [simp]: "length (audit_entries n ty ts d cs) = length cs"
  by (induction cs arbitrary: n) simp_all

lemma insert_audit_append: "insert_audit c ty ts d db = append_audit ty ts d [c] db"
  by (simp add: insert_audit_def append_audit_def)

lemma append_audit_Cons:
  "append_audit ty ts d cs (append_audit ty ts d [c] db) = append_audit ty ts d (c # cs) db"
  by (simp add: append_audit_def)

lemma append_audit_subnets [simp]: "db_subnets (append_audit ty ts d cs db) = db_subnets db"
  by (simp add: append_audit_def)

lemma set_inactive_fields [simp]:
  "db_audit (set_inactive P db) = db_audit db" "db_last_id (set_inactive P db) = db_last_id db"
  "db_subnets (set_inactive P db) = map (\<lambda>r. if P r then r\<lparr>row_active := 0\<rparr> else r) (db_subnets db)"
  by (simp_all add: set_inactive_def)

lemma set_inactive_append:
  "set_inactive P (append_audit ty ts d cs db) = append_audit ty ts d cs (set_inactive P db)"
  by (simp add: append_audit_def set_inactive_def)

lemma set_inactive_none: "set_inactive (\<lambda>r. False) db = db"
  by (simp add: set_inactive_def)

lemma set_inactive_twice:
  "set_inactive (\<lambda>r. row_cidr r \<in> A) (set_inactive (\<lambda>r. row_cidr r = c) db) =
     set_inactive (\<lambda>r. row_cidr r \<in> insert c A) db"
  by (auto simp: set_inactive_def comp_def)

lemma transaction_cases:
  obtains (err) e where "transaction E body db = (Inl e, db)"
    | (ok) db' where "body db = Inr db'" "transaction E body db = (Inr (), db')"
proof (cases "result_bind (run_stmt E ''BEGIN'') (\<lambda>_. result_bind (body db) (\<lambda>db'.
             result_bind (run_stmt E ''COMMIT'') (\<lambda>_. Inr db')))")
  case (Inl e)
  then show ?thesis using err by (simp add: transaction_def)
next
  case (Inr db')
  then have "body db = Inr db'" by auto
  with Inr ok show ?thesis by (simp add: transaction_def)
qed

lemma transaction_works:
  "engine_works E \<Longrightarrow> body db = Inr db' \<Longrightarrow> transaction E body db = (Inr (), db')"
  by (simp add: transaction_def)

definition ban_details :: "quarantine_record \<Rightarrow> string option" where
  "ban_details rec = Some (''Trigger IP: '' @ qr_trigger_ip rec @ '', Infraction: '' @ qr_infraction_type rec)"

definition banned_db :: "subnet_row \<Rightarrow> quarantine_record \<Rightarrow> quarantine_db \<Rightarrow> quarantine_db" where
  "banned_db row rec db =
     append_audit ''quarantined'' (uint (qr_quarantined_at rec)) (ban_details rec) [qr_cidr rec]
       (db\<lparr>db_subnets := upsert_row row (db_subnets db)\<rparr>)"

lemma bind_u64_Inr: "bind_u64 x = Inr i \<longleftrightarrow> unat x < 2 ^ 63 \<and> i = uint x"
  by (auto simp: bind_u64_def)

lemma record_ban_cases:
  obtains (err) e where "record_ban E rec db = (Inl e, db)"
    | (ok) row where "bind_record rec = Inr row" "record_ban E rec db = (Inr (), banned_db row rec db)"
  unfolding record_ban_def
proof (cases rule: transaction_cases [of E "\<lambda>db.
       result_bind (bind_record rec) (\<lambda>row.
       result_bind (run_stmt E ''INSERT quarantined_subnets'') (\<lambda>_.
       let db1 = db\<lparr>db_subnets := upsert_row row (db_subnets db)\<rparr> in
       result_bind (bind_u64 (qr_quarantined_at rec)) (\<lambda>ts.
       result_bind (run_stmt E ''INSERT quarantine_audit_log'') (\<lambda>_.
         Inr (insert_audit (qr_cidr rec) ''quarantined'' ts
           (Some (''Trigger IP: '' @ qr_trigger_ip rec @ '', Infraction: '' @ qr_infraction_type rec)) db1)))))" db])
  case (err e)
  then show thesis using that(1) by (simp add: record_ban_def)
next
  case (ok db')
  then obtain row where "bind_record rec = Inr row" "db' = banned_db row rec db"
    by (auto simp: Let_def bind_u64_Inr banned_db_def insert_audit_append ban_details_def)
  with ok(2) that(2) show thesis by (simp add: record_ban_def)
qed

lemma record_ban_works:
  assumes "engine_works E" "unat (qr_quarantined_at rec) < 2 ^ 63" "unat (qr_expires_at rec) < 2 ^ 63"
  shows "\<exists>row. bind_record rec = Inr row \<and> record_ban E rec db = (Inr (), banned_db row rec db)"
proof -
  obtain row where row: "bind_record rec = Inr row"
    using assms(2,3) by (simp add: bind_record_def bind_u64_def)
  with assms show ?thesis
    unfolding record_ban_def
    by (intro exI [of _ row] conjI transaction_works)
      (simp_all add: Let_def bind_u64_def banned_db_def insert_audit_append ban_details_def)
qed

lemma lift_bans_ok:
  "lift_bans E details now cs db = Inr db' \<Longrightarrow>
     db' = append_audit ''unbanned'' (uint now) (Some details) cs (set_inactive (\<lambda>r. row_cidr r \<in> set cs) db)"
proof (induction cs arbitrary: db)
  case Nil
  then show ?case by (simp add: append_audit_def set_inactive_none)
next
  case (Cons c cs)
  from Cons.prems have "lift_bans E details now cs
      (append_audit ''unbanned'' (uint now) (Some details) [c] (set_inactive (\<lambda>r. row_cidr r = c) db)) = Inr db'"
    by (auto simp: Let_def bind_u64_Inr insert_audit_append)
  from Cons.IH [OF this] show ?case
    by (simp add: set_inactive_append append_audit_Cons set_inactive_twice)
qed

lemma audit_all_ok:
  "audit_all E details now cs db = Inr db' \<Longrightarrow>
     db' = append_audit ''unbanned_all'' (uint now) (Some details) cs db"
proof (induction cs arbitrary: db)
  case Nil
  then show ?case by (simp add: append_audit_def)
next
  case (Cons c cs)
  from Cons.prems have "audit_all E details now cs
      (append_audit ''unbanned_all'' (uint now) (Some details) [c] db) = Inr db'"
    by (auto simp: bind_u64_Inr insert_audit_append)
  from Cons.IH [OF this] show ?case by (simp add: append_audit_Cons)
qed

definition unbanned_db :: "string \<Rightarrow> u64 \<Rightarrow> string list \<Rightarrow> quarantine_db \<Rightarrow> quarantine_db" where
  "unbanned_db details now cs db =
     append_audit ''unbanned'' (uint now) (Some details) cs (set_inactive (\<lambda>r. row_cidr r \<in> set cs) db)"

lemma unbanned_db_Nil [simp]: "unbanned_db details now [] db = db"
  by (simp add: unbanned_db_def append_audit_def set_inactive_none)

lemma unban_cases:
  obtains (err) e where "unban E N target details now db = (Inl e, db)"
    | (ok) cs where "unban_targets E N target db = Inr cs"
        "unban E N target details now db = (Inr cs, unbanned_db details now cs db)"
proof (cases "unban_targets E N target db")
  case (Inl e)
  then show ?thesis using err by (simp add: unban_def)
next
  case (Inr cs)
  show ?thesis
  proof (cases cs)
    case Nil
    with Inr show ?thesis using ok [of "[]"] by (simp add: unban_def)
  next
    case (Cons a as)
    show ?thesis
    proof (cases rule: transaction_cases [of E "lift_bans E details now cs" db])
      case (err e)
      with Inr Cons that(1) show ?thesis by (simp add: unban_def)
    next
      case (ok db')
      with Inr Cons that(2) [OF Inr] lift_bans_ok [OF ok(1)] show ?thesis
        by (simp add: unban_def unbanned_db_def)
    qed
  qed
qed

lemma unban_all_cases:
  obtains (err) e where "unban_all E details now db = (Inl e, db)"
    | (ok) cs where "cs = active_cidrs (eng_scan E (db_subnets db))"
        "unban_all E details now db = (Inr (length cs),
           (if cs = [] then db else append_audit ''unbanned_all'' (uint now) (Some details) cs
             (set_inactive (\<lambda>r. row_active r = 1) db)))"
proof (cases "run_stmt E ''SELECT active''")
  case (Inl e)
  then show ?thesis using err by (simp add: unban_all_def)
next
  case (Inr u)
  let ?cs = "active_cidrs (eng_scan E (db_subnets db))"
  let ?body = "\<lambda>db. result_bind (run_stmt E ''UPDATE'') (\<lambda>_.
                 audit_all E details now ?cs (set_inactive (\<lambda>r. row_active r = 1) db))"
  show ?thesis
  proof (cases "?cs = []")
    case True
    with Inr show ?thesis using ok by (simp add: unban_all_def)
  next
    case False
    show ?thesis
    proof (cases rule: transaction_cases [of E ?body db])
      case (err e)
      with Inr False that(1) show ?thesis by (simp add: unban_all_def Let_def)
    next
      case (ok db')
      then have "db' = append_audit ''unbanned_all'' (uint now) (Some details) ?cs
          (set_inactive (\<lambda>r. row_active r = 1) db)"
        by (auto dest: audit_all_ok)
      with Inr False ok that(2) [OF refl] show ?thesis by (simp add: unban_all_def Let_def)
    qed
  qed
qed

section \<open>The invariant of the tables\<close>

definition row_ok :: "subnet_row \<Rightarrow> bool" where
  "row_ok r \<longleftrightarrow> row_active r \<in> {0, 1} \<and> 0 \<le> row_ip_version r \<and> row_ip_version r < 256 \<and>
     0 \<le> row_infraction_count r \<and> 0 \<le> row_quarantined_at r \<and> row_quarantined_at r < 2 ^ 63 \<and>
     0 \<le> row_expires_at r \<and> row_expires_at r < 2 ^ 63"

definition last_event :: "quarantine_db \<Rightarrow> string \<Rightarrow> string option" where
  "last_event db c = map_option au_event_type (find (\<lambda>a. au_cidr a = c) (rev (db_audit db)))"

text \<open>
  The key is unique, the values are in range, the identifiers of the log count up from one, and the
  log explains the table: a ban is active exactly if the last event of its network is the ban, and a
  network without a row has no event.
\<close>

definition store_inv :: "quarantine_db \<Rightarrow> bool" where
  "store_inv db \<longleftrightarrow>
     distinct (map row_cidr (db_subnets db)) \<and>
     list_all row_ok (db_subnets db) \<and>
     map au_id (db_audit db) = map (\<lambda>i. int i + 1) [0..<length (db_audit db)] \<and>
     db_last_id db = int (length (db_audit db)) \<and>
     (\<forall>r \<in> set (db_subnets db). row_active r = 1 \<longleftrightarrow> last_event db (row_cidr r) = Some ''quarantined'') \<and>
     (\<forall>c. c \<notin> row_cidr ` set (db_subnets db) \<longrightarrow> last_event db c = None)"

lemma store_inv_empty: "store_inv empty_db"
  by (simp add: store_inv_def empty_db_def last_event_def)

lemma find_entries:
  "find (\<lambda>a. au_cidr a = c) (rev (audit_entries n ty ts d cs)) = None \<longleftrightarrow> c \<notin> set cs"
  "find (\<lambda>a. au_cidr a = c) (rev (audit_entries n ty ts d cs)) = Some a \<Longrightarrow> au_event_type a = ty"
proof -
  have s: "au_cidr ` set (audit_entries n ty ts d cs) = set cs"
    by (induction cs arbitrary: n) simp_all
  show "find (\<lambda>a. au_cidr a = c) (rev (audit_entries n ty ts d cs)) = None \<longleftrightarrow> c \<notin> set cs"
    unfolding find_None_iff s [symmetric] by auto
  have e: "\<forall>a \<in> set (audit_entries n ty ts d cs). au_event_type a = ty" for n
    by (induction cs arbitrary: n) auto
  show "find (\<lambda>a. au_cidr a = c) (rev (audit_entries n ty ts d cs)) = Some a \<Longrightarrow> au_event_type a = ty"
    using e by (auto dest: find_SomeD)
qed

lemma last_event_append [simp]:
  "last_event (append_audit ty ts d cs db) c = (if c \<in> set cs then Some ty else last_event db c)"
proof (cases "find (\<lambda>a. au_cidr a = c) (rev (audit_entries (db_last_id db) ty ts d cs))")
  case None
  then have "c \<notin> set cs" by (simp only: find_entries(1) simp_thms)
  then show ?thesis
    by (simp add: last_event_def append_audit_def find_append None)
next
  case (Some a)
  then have "c \<in> set cs" using find_entries(1) by (metis option.distinct(1))
  with Some show ?thesis
    by (simp add: last_event_def append_audit_def find_append find_entries(2) [OF Some])
qed

lemma last_event_subnets [simp]: "last_event (db\<lparr>db_subnets := rows\<rparr>) c = last_event db c"
  by (simp add: last_event_def)

lemma last_event_inactive [simp]: "last_event (set_inactive P db) c = last_event db c"
  by (simp add: last_event_def)

lemma ids_append:
  assumes "map au_id (db_audit db) = map (\<lambda>i. int i + 1) [0..<length (db_audit db)]"
    "db_last_id db = int (length (db_audit db))"
  shows "map au_id (db_audit (append_audit ty ts d cs db)) =
      map (\<lambda>i. int i + 1) [0..<length (db_audit (append_audit ty ts d cs db))]"
    and "db_last_id (append_audit ty ts d cs db) = int (length (db_audit (append_audit ty ts d cs db)))"
proof -
  have e: "map au_id (audit_entries (int n) ty ts d cs) = map (\<lambda>i. int i + 1) [n..<n + length cs]" for n
  proof (induction cs arbitrary: n)
    case (Cons c cs)
    have "[n..<n + length (c # cs)] = n # [Suc n..<Suc n + length cs]"
      by (subst upt_conv_Cons) simp_all
    with Cons.IH [of "Suc n"] show ?case by (simp add: algebra_simps)
  qed simp
  show "map au_id (db_audit (append_audit ty ts d cs db)) =
      map (\<lambda>i. int i + 1) [0..<length (db_audit (append_audit ty ts d cs db))]"
  proof -
    let ?n = "length (db_audit db)"
    have a: "db_audit (append_audit ty ts d cs db) = db_audit db @ audit_entries (int ?n) ty ts d cs"
      by (simp add: append_audit_def assms(2))
    have u: "[0..<?n + length cs] = [0..<?n] @ [?n..<?n + length cs]"
      by (rule upt_add_eq_append) simp
    show ?thesis
      unfolding a map_append e assms(1) length_append length_audit_entries u by (rule refl)
  qed
  show "db_last_id (append_audit ty ts d cs db) = int (length (db_audit (append_audit ty ts d cs db)))"
    using assms(2) by (simp add: append_audit_def)
qed

lemma uint_less_63: "uint (x :: u64) < 2 ^ 63 \<longleftrightarrow> unat x < 2 ^ 63"
  by (simp only: nat_uint_eq [symmetric] nat_less_numeral_power_cancel_iff)

lemma bind_record_row:
  "bind_record rec = Inr row \<Longrightarrow>
     row_ok row \<and> row_cidr row = qr_cidr rec \<and> row_active row = (if qr_active rec then 1 else 0)"
proof -
  assume "bind_record rec = Inr row"
  then have row: "row = \<lparr>row_cidr = qr_cidr rec, row_ip_version = uint (qr_ip_version rec),
            row_trigger_ip = qr_trigger_ip rec, row_infraction_type = qr_infraction_type rec,
            row_infraction_count = uint (qr_infraction_count rec), row_quarantined_at = uint (qr_quarantined_at rec),
            row_expires_at = uint (qr_expires_at rec), row_user_agent = qr_user_agent rec,
            row_active = (if qr_active rec then 1 else 0)\<rparr>"
    and b: "unat (qr_quarantined_at rec) < 2 ^ 63" "unat (qr_expires_at rec) < 2 ^ 63"
    by (auto simp: bind_record_def bind_u64_Inr)
  have "uint (qr_quarantined_at rec) < 2 ^ 63" "uint (qr_expires_at rec) < 2 ^ 63"
    using b by (simp_all only: uint_less_63)
  moreover have "uint (qr_ip_version rec) < 256" using unsigned_less [of "qr_ip_version rec"] by simp
  ultimately show ?thesis by (simp add: row row_ok_def)
qed

lemma upsert_cidrs:
  "map row_cidr (upsert_row row rows) =
     (if row_cidr row \<in> set (map row_cidr rows) then map row_cidr rows else map row_cidr rows @ [row_cidr row])"
proof -
  have "row_cidr \<circ> (\<lambda>r. if row_cidr r = row_cidr row then merge_row row r else r) = row_cidr"
    by (simp add: fun_eq_iff merge_row_def)
  then show ?thesis by (simp add: upsert_row_def)
qed

lemma upsert_keys:
  fixes row :: subnet_row
  shows "row_cidr ` set (upsert_row row rows) = insert (row_cidr row) (row_cidr ` set rows)"
    and "distinct (map row_cidr rows) \<Longrightarrow> distinct (map row_cidr (upsert_row row rows))"
proof -
  have "set (map row_cidr (upsert_row row rows)) = insert (row_cidr row) (set (map row_cidr rows))"
    unfolding upsert_cidrs by auto
  then show "row_cidr ` set (upsert_row row rows) = insert (row_cidr row) (row_cidr ` set rows)"
    by simp
  show "distinct (map row_cidr rows) \<Longrightarrow> distinct (map row_cidr (upsert_row row rows))"
    unfolding upsert_cidrs by auto
qed

lemma upsert_rows:
  "r \<in> set (upsert_row row rows) \<Longrightarrow>
     r = row \<or> (\<exists>r' \<in> set rows. row_cidr r' = row_cidr row \<and> r = merge_row row r') \<or>
     (r \<in> set rows \<and> row_cidr r \<noteq> row_cidr row)"
proof (cases "row_cidr row \<in> row_cidr ` set rows")
  case False
  assume "r \<in> set (upsert_row row rows)"
  with False have "r = row \<or> r \<in> set rows" by (auto simp: upsert_row_def)
  moreover have "r \<in> set rows \<Longrightarrow> row_cidr r \<noteq> row_cidr row" using False by (metis imageI)
  ultimately show ?thesis by blast
qed (auto simp: upsert_row_def)

lemma merge_ok: "row_ok row \<Longrightarrow> row_ok r \<Longrightarrow> row_ok (merge_row row r)"
  by (auto simp: row_ok_def merge_row_def)

lemma store_inv_banned:
  assumes "store_inv db" "bind_record rec = Inr row" "qr_active rec"
  shows "store_inv (banned_db row rec db)"
proof -
  note row = bind_record_row [OF assms(2)]
  note inv = assms(1) [unfolded store_inv_def]
  let ?db = "db\<lparr>db_subnets := upsert_row row (db_subnets db)\<rparr>"
  have k: "row_cidr row = qr_cidr rec" "row_active row = 1" "row_ok row" using row assms(3) by auto
  have e: "last_event (banned_db row rec db) c =
      (if c = qr_cidr rec then Some ''quarantined'' else last_event db c)" for c
    by (simp add: banned_db_def)
  have s: "db_subnets (banned_db row rec db) = upsert_row row (db_subnets db)"
    by (simp add: banned_db_def)
  have ids: "map au_id (db_audit (banned_db row rec db)) = map (\<lambda>i. int i + 1) [0..<length (db_audit (banned_db row rec db))]"
    "db_last_id (banned_db row rec db) = int (length (db_audit (banned_db row rec db)))"
    unfolding banned_db_def using inv by (intro ids_append; simp)+
  have ok: "list_all row_ok (upsert_row row (db_subnets db))"
    using inv k(3) merge_ok by (auto simp: list_all_iff dest!: upsert_rows)
  have act: "row_active r = 1 \<longleftrightarrow> last_event (banned_db row rec db) (row_cidr r) = Some ''quarantined''"
    if "r \<in> set (upsert_row row (db_subnets db))" for r
    using upsert_rows [OF that] k inv unfolding e by (auto simp: merge_row_def)
  show ?thesis
    unfolding store_inv_def s using ids ok act inv k(1) upsert_keys [where row = row and rows = "db_subnets db"]
    by (simp add: e)
qed

text \<open>Lifting the active bans whose network is in a set, with one event each.\<close>

lemma store_inv_lifted:
  assumes "store_inv db" "set cs \<subseteq> set (active_cidrs (db_subnets db))"
    and P: "\<And>r. r \<in> set (db_subnets db) \<Longrightarrow> row_active r = 1 \<Longrightarrow> P r \<longleftrightarrow> row_cidr r \<in> set cs"
    and ty: "ty \<noteq> ''quarantined''"
  shows "store_inv (append_audit ty ts d cs (set_inactive P db))"
proof -
  note inv = assms(1) [unfolded store_inv_def]
  let ?f = "\<lambda>r. if P r then r\<lparr>row_active := 0\<rparr> else r"
  let ?db = "append_audit ty ts d cs (set_inactive P db)"
  have f: "row_cidr \<circ> ?f = row_cidr" by (simp add: fun_eq_iff)
  then have m: "map row_cidr (map ?f (db_subnets db)) = map row_cidr (db_subnets db)" by simp
  then have keys: "row_cidr ` set (map ?f (db_subnets db)) = row_cidr ` set (db_subnets db)"
    by (metis list.set_map)
  have ids: "map au_id (db_audit ?db) = map (\<lambda>i. int i + 1) [0..<length (db_audit ?db)]"
    "db_last_id ?db = int (length (db_audit ?db))"
    using inv by (intro ids_append; simp)+
  have d: "distinct (map row_cidr (map ?f (db_subnets db)))"
    unfolding m using inv by blast
  have ok: "list_all row_ok (map ?f (db_subnets db))"
    using inv by (auto simp: list_all_iff row_ok_def)
  have sub: "c \<in> row_cidr ` set (db_subnets db)" if "c \<in> set cs" for c
    using that assms(2) by (auto simp: active_cidrs_def)
  have act: "row_active (?f r) = 1 \<longleftrightarrow> last_event ?db (row_cidr r) = Some ''quarantined''"
    if r: "r \<in> set (db_subnets db)" for r
  proof (cases "row_cidr r \<in> set cs")
    case True
    then obtain r' where "r' \<in> set (db_subnets db)" "row_cidr r' = row_cidr r" "row_active r' = 1"
      using assms(2) by (force simp: active_cidrs_def)
    then have "r' = r" using inv r by (auto simp: distinct_map dest: inj_onD)
    with True P [OF r] ty \<open>row_active r' = 1\<close> show ?thesis by simp
  next
    case False
    with P [OF r] inv r show ?thesis by auto
  qed
  have act': "\<forall>s \<in> set (map ?f (db_subnets db)). row_active s = 1 \<longleftrightarrow> last_event ?db (row_cidr s) = Some ''quarantined''"
  proof
    fix s assume "s \<in> set (map ?f (db_subnets db))"
    then obtain r where r: "r \<in> set (db_subnets db)" "s = ?f r" by auto
    have "row_cidr s = row_cidr r" using r(2) by simp
    with act [OF r(1)] r(2) show "row_active s = 1 \<longleftrightarrow> last_event ?db (row_cidr s) = Some ''quarantined''"
      by (simp only:)
  qed
  have none: "\<forall>c. c \<notin> row_cidr ` set (db_subnets db) \<longrightarrow> last_event ?db c = None"
    using sub inv by simp
  show ?thesis
    unfolding store_inv_def append_audit_subnets set_inactive_fields keys
    using ids d ok act' none by (intro conjI)
qed

section \<open>Every operation keeps the invariant\<close>

lemma set_active_cidrs_scan:
  "engine_laws E \<Longrightarrow> set (active_cidrs (eng_scan E rows)) = set (active_cidrs rows)"
  by (simp add: active_cidrs_def set_scan)

lemma unban_targets_eq:
  "unban_targets E N target db = Inr cs \<Longrightarrow>
     cs = (let exact = map row_cidr (filter (\<lambda>r. row_cidr r = target \<and> row_active r = 1) (eng_scan E (db_subnets db)))
       in if exact \<noteq> [] then exact
          else case parse_ip target of
            None \<Rightarrow> []
          | Some addr \<Rightarrow> filter (\<lambda>c. case net_parse N c of Some net \<Rightarrow> net_contains N net addr | None \<Rightarrow> False)
              (active_cidrs (eng_scan E (db_subnets db))))"
  unfolding unban_targets_def Let_def
  by (cases "run_stmt E ''SELECT cidr''"; cases "run_stmt E ''SELECT active''"; cases "parse_ip target")
    (auto split: if_splits)

lemma exact_rows:
  "map row_cidr (filter (\<lambda>r. row_cidr r = t \<and> row_active r = 1) rows) \<noteq> [] \<longleftrightarrow> t \<in> set (active_cidrs rows)"
  "t \<in> set (active_cidrs rows) \<Longrightarrow>
     set (map row_cidr (filter (\<lambda>r. row_cidr r = t \<and> row_active r = 1) rows)) = {t}"
proof -
  have a: "t \<in> set (active_cidrs rows) \<longleftrightarrow> (\<exists>r \<in> set rows. row_cidr r = t \<and> row_active r = 1)"
    by (auto simp: active_cidrs_def)
  show "map row_cidr (filter (\<lambda>r. row_cidr r = t \<and> row_active r = 1) rows) \<noteq> [] \<longleftrightarrow> t \<in> set (active_cidrs rows)"
    unfolding a by (simp add: filter_empty_conv)
  show "t \<in> set (active_cidrs rows) \<Longrightarrow>
     set (map row_cidr (filter (\<lambda>r. row_cidr r = t \<and> row_active r = 1) rows)) = {t}"
    unfolding a by (auto simp: image_iff)
qed

lemma unban_targets_active:
  assumes "engine_laws E" "unban_targets E N target db = Inr cs"
  shows "set cs =
    (if target \<in> set (active_cidrs (db_subnets db)) then {target}
     else case parse_ip target of
       None \<Rightarrow> {}
     | Some addr \<Rightarrow> {c \<in> set (active_cidrs (db_subnets db)).
         case net_parse N c of Some net \<Rightarrow> net_contains N net addr | None \<Rightarrow> False})"
proof (cases "target \<in> set (active_cidrs (db_subnets db))")
  case True
  then have s: "target \<in> set (active_cidrs (eng_scan E (db_subnets db)))"
    by (simp only: set_active_cidrs_scan [OF assms(1)])
  have "cs = map row_cidr (filter (\<lambda>r. row_cidr r = target \<and> row_active r = 1) (eng_scan E (db_subnets db)))"
    unfolding unban_targets_eq [OF assms(2)] Let_def exact_rows(1) using s by (rule if_P)
  then show ?thesis using exact_rows(2) [OF s] True by simp
next
  case False
  then have "target \<notin> set (active_cidrs (eng_scan E (db_subnets db)))"
    by (simp only: set_active_cidrs_scan [OF assms(1)] simp_thms)
  then have "cs = (case parse_ip target of
            None \<Rightarrow> []
          | Some addr \<Rightarrow> filter (\<lambda>c. case net_parse N c of Some net \<Rightarrow> net_contains N net addr | None \<Rightarrow> False)
              (active_cidrs (eng_scan E (db_subnets db))))"
    unfolding unban_targets_eq [OF assms(2)] Let_def exact_rows(1) by (rule if_not_P)
  with False show ?thesis
    by (simp add: set_active_cidrs_scan [OF assms(1)] split: option.split)
qed

lemma unban_targets_subset:
  "engine_laws E \<Longrightarrow> unban_targets E N target db = Inr cs \<Longrightarrow> set cs \<subseteq> set (active_cidrs (db_subnets db))"
  by (auto simp: unban_targets_active split: if_splits option.splits)

lemma store_inv_record_ban:
  assumes "store_inv db" "qr_active rec"
  shows "store_inv (snd (record_ban E rec db))"
  by (cases rule: record_ban_cases [of E rec db]) (use assms store_inv_banned in auto)

lemma store_inv_unban:
  assumes "store_inv db" "engine_laws E"
  shows "store_inv (snd (unban E N target details now db))"
proof (cases rule: unban_cases [of E N target details now db])
  case (ok cs)
  have "store_inv (unbanned_db details now cs db)"
    unfolding unbanned_db_def
    using unban_targets_subset [OF assms(2) ok(1)] assms(1) by (intro store_inv_lifted) auto
  with ok show ?thesis by simp
qed (use assms in simp)

lemma store_inv_unban_all:
  assumes "store_inv db" "engine_laws E"
  shows "store_inv (snd (unban_all E details now db))"
proof (cases rule: unban_all_cases [of E details now db])
  case (ok cs)
  have "store_inv (append_audit ''unbanned_all'' (uint now) (Some details) cs
      (set_inactive (\<lambda>r. row_active r = 1) db))"
  proof (rule store_inv_lifted [OF assms(1)])
    show "set cs \<subseteq> set (active_cidrs (db_subnets db))"
      using ok(1) set_active_cidrs_scan [OF assms(2)] by simp
    show "row_active r = 1 \<longleftrightarrow> row_cidr r \<in> set cs" if "r \<in> set (db_subnets db)" "row_active r = 1" for r
      using that unfolding ok(1) set_active_cidrs_scan [OF assms(2)] by (simp add: active_cidrs_def)
  qed simp
  with ok assms(1) show ?thesis by simp
qed (use assms in simp)

section \<open>Histories of the store\<close>

datatype store_op =
    OpBan quarantine_record
  | OpUnban string string u64
  | OpUnbanAll string u64

fun apply_op :: "'n ipnet_lib \<Rightarrow> quarantine_db \<Rightarrow> sql_engine \<times> store_op \<Rightarrow> quarantine_db" where
  "apply_op N db (E, OpBan rec) = snd (record_ban E rec db)"
| "apply_op N db (E, OpUnban target details now) = snd (unban E N target details now db)"
| "apply_op N db (E, OpUnbanAll details now) = snd (unban_all E details now db)"

fun op_ok :: "sql_engine \<times> store_op \<Rightarrow> bool" where
  "op_ok (E, OpBan rec) = (engine_laws E \<and> qr_active rec)"
| "op_ok (E, _) = engine_laws E"

lemma store_inv_apply: "store_inv db \<Longrightarrow> op_ok x \<Longrightarrow> store_inv (apply_op N db x)"
  by (cases x rule: op_ok.cases) (simp_all add: store_inv_record_ban store_inv_unban store_inv_unban_all)

lemma store_inv_history: "store_inv db \<Longrightarrow> list_all op_ok ops \<Longrightarrow> store_inv (foldl (apply_op N) db ops)"
  by (induction ops arbitrary: db) (simp_all add: store_inv_apply)

lemma history_append_only: "prefix (db_audit db) (db_audit (foldl (apply_op N) db ops))"
proof (induction ops arbitrary: db)
  case (Cons x ops)
  have a: "prefix (db_audit db) (db_audit (append_audit ty ts d cs db'))" if "db_audit db' = db_audit db" for ty ts d cs db'
    using that by (simp add: append_audit_def)
  obtain E op where x: "x = (E, op)" by fastforce
  have "prefix (db_audit db) (db_audit (apply_op N db x))"
  proof (cases op)
    case (OpBan rec)
    then show ?thesis
      by (cases rule: record_ban_cases [of E rec db]) (simp_all add: x banned_db_def a)
  next
    case (OpUnban t d n)
    then show ?thesis
      by (cases rule: unban_cases [of E N t d n db]) (simp_all add: x unbanned_db_def a)
  next
    case (OpUnbanAll d n)
    then show ?thesis
      by (cases rule: unban_all_cases [of E d n db]) (simp_all add: x a)
  qed
  with Cons.IH [of "apply_op N db x"] show ?case by (simp add: prefix_order.trans)
qed simp

text \<open>
  C12: after any history of bans and lifted bans, with statements failing at any point, the tables
  are consistent and the audit log explains them: a network is quarantined exactly if the last event
  of its network in the log is its ban, networks without an entry have no event, keys are unique,
  and the log only grows, with identifiers counting up from one.
\<close>

theorem audit_log_explains_bans:
  assumes "list_all op_ok ops"
  shows "store_inv (foldl (apply_op N) empty_db ops) \<and>
    prefix (db_audit (foldl (apply_op N) empty_db (take k ops))) (db_audit (foldl (apply_op N) empty_db ops))"
proof
  show "store_inv (foldl (apply_op N) empty_db ops)"
    using store_inv_history [OF store_inv_empty assms] .
  have "foldl (apply_op N) empty_db ops = foldl (apply_op N) (foldl (apply_op N) empty_db (take k ops)) (drop k ops)"
    by (metis append_take_drop_id foldl_append)
  then show "prefix (db_audit (foldl (apply_op N) empty_db (take k ops))) (db_audit (foldl (apply_op N) empty_db ops))"
    using history_append_only by metis
qed

definition example_record :: quarantine_record where
  "example_record = \<lparr>qr_cidr = ''198.51.100.0/24'', qr_ip_version = 4, qr_trigger_ip = ''198.51.100.7'',
     qr_infraction_type = ''sqli'', qr_infraction_count = 1, qr_quarantined_at = 1000,
     qr_expires_at = 5000, qr_user_agent = None, qr_active = True\<rparr>"

theorem audit_log_explains_bans_witness:
  "store_inv (foldl (apply_op cidr_lib) empty_db
     [(plain_engine, OpBan example_record), (plain_engine, OpUnban ''198.51.100.9'' ''d'' 2000)])"
  using audit_log_explains_bans [of "[(plain_engine, OpBan example_record),
      (plain_engine, OpUnban ''198.51.100.9'' ''d'' 2000)]" cidr_lib 0]
  by (simp add: example_record_def)

section \<open>The set of active bans\<close>

definition active_set :: "quarantine_db \<Rightarrow> string set" where
  "active_set db = set (active_cidrs (db_subnets db))"

lemma active_set_iff: "c \<in> active_set db \<longleftrightarrow> (\<exists>r \<in> set (db_subnets db). row_cidr r = c \<and> row_active r = 1)"
  by (auto simp: active_set_def active_cidrs_def)

lemma active_set_append [simp]: "active_set (append_audit ty ts d cs db) = active_set db"
  by (simp add: active_set_def)

lemma active_cidrs_map:
  "(\<And>r. row_cidr (f r) = row_cidr r) \<Longrightarrow>
     set (active_cidrs (map f rows)) = {c. \<exists>r \<in> set rows. row_cidr r = c \<and> row_active (f r) = 1}"
  by (auto simp: active_cidrs_def filter_map comp_def image_image)

lemma active_upsert:
  assumes "row_active row = 1"
  shows "set (active_cidrs (upsert_row row rows)) = insert (row_cidr row) (set (active_cidrs rows))"
proof (cases "row_cidr row \<in> row_cidr ` set rows")
  case True
  let ?f = "\<lambda>r. if row_cidr r = row_cidr row then merge_row row r else r"
  have f: "row_cidr (?f r) = row_cidr r" "row_active (?f r) = 1 \<longleftrightarrow> row_cidr r = row_cidr row \<or> row_active r = 1" for r
    by (simp_all add: merge_row_def)
  have "set (active_cidrs (map ?f rows)) = insert (row_cidr row) (set (active_cidrs rows))"
    unfolding active_cidrs_map [of ?f, OF f(1)] f(2) using True by (auto simp: active_cidrs_def)
  with True show ?thesis by (simp add: upsert_row_def)
next
  case False
  with assms show ?thesis by (simp add: upsert_row_def active_cidrs_def)
qed

lemma active_banned:
  assumes "bind_record rec = Inr row" "qr_active rec"
  shows "active_set (banned_db row rec db) = insert (qr_cidr rec) (active_set db)"
  using bind_record_row [OF assms(1)] assms(2) active_upsert [of row "db_subnets db"]
  by (simp add: banned_db_def active_set_def)

lemma active_inactive: "active_set (set_inactive P db) = {c. \<exists>r \<in> set (db_subnets db). row_cidr r = c \<and> row_active r = 1 \<and> \<not> P r}"
  by (force simp: active_set_iff split: if_splits)

lemma active_unbanned: "active_set (unbanned_db details now cs db) = active_set db - set cs"
  by (auto simp: unbanned_db_def active_inactive active_set_iff)

text \<open>What a target stands for: the entry of that name, else the networks around the address.\<close>

definition lifted_by :: "'n ipnet_lib \<Rightarrow> string \<Rightarrow> string set \<Rightarrow> string set" where
  "lifted_by N target A =
     (if target \<in> A then {target}
      else case parse_ip target of
        None \<Rightarrow> {}
      | Some addr \<Rightarrow> {c \<in> A. case net_parse N c of Some net \<Rightarrow> net_contains N net addr | None \<Rightarrow> False})"

lemma unban_targets_lifted:
  "engine_laws E \<Longrightarrow> unban_targets E N target db = Inr cs \<Longrightarrow> set cs = lifted_by N target (active_set db)"
  by (simp add: unban_targets_active lifted_by_def active_set_def)

lemma distinct_active_scan:
  assumes "engine_laws E" "distinct (map row_cidr rows)"
  shows "distinct (active_cidrs (eng_scan E rows))"
proof -
  have "mset (map row_cidr (eng_scan E rows)) = mset (map row_cidr rows)"
    using assms(1) by (simp add: engine_laws_def)
  then have "distinct (map row_cidr (eng_scan E rows))"
    using assms(2) by (metis mset_eq_imp_distinct_iff)
  then show ?thesis by (simp add: active_cidrs_def distinct_map_filter)
qed

lemma record_ban_set:
  "qr_active rec \<Longrightarrow> (case record_ban E rec db of
      (Inl e, db') \<Rightarrow> db' = db
    | (Inr _, db') \<Rightarrow> active_set db' = insert (qr_cidr rec) (active_set db))"
  by (cases rule: record_ban_cases [of E rec db]) (simp_all add: active_banned)

lemma unban_set:
  "engine_laws E \<Longrightarrow> (case unban E N target details now db of
      (Inl e, db') \<Rightarrow> db' = db
    | (Inr cs, db') \<Rightarrow> set cs = lifted_by N target (active_set db) \<and> active_set db' = active_set db - set cs)"
  by (cases rule: unban_cases [of E N target details now db])
    (simp_all add: active_unbanned unban_targets_lifted)

lemma unban_all_set:
  assumes "store_inv db" "engine_laws E"
  shows "(case unban_all E details now db of
      (Inl e, db') \<Rightarrow> db' = db
    | (Inr n, db') \<Rightarrow> n = card (active_set db) \<and> active_set db' = {})"
proof (cases rule: unban_all_cases [of E details now db])
  case (ok cs)
  have s: "set cs = active_set db"
    unfolding ok(1) active_set_def by (rule set_active_cidrs_scan [OF assms(2)])
  moreover have "distinct cs"
    unfolding ok(1) using assms by (intro distinct_active_scan) (simp_all add: store_inv_def)
  ultimately have "length cs = card (active_set db)" by (metis distinct_card)
  moreover have "active_set (set_inactive (\<lambda>r. row_active r = 1) db) = {}"
    by (auto simp: active_inactive)
  ultimately show ?thesis using ok(2) s by auto
qed simp

text \<open>
  C20: the store implements a set of networks. A successful ban adds the record's network, a
  successful unban removes exactly the networks the target stands for and reports them, clearing
  empties the set and reports its size, and an operation that fails changes nothing at all.
\<close>

theorem store_implements_set:
  assumes "store_inv db" "engine_laws E" "qr_active rec"
  shows "(case record_ban E rec db of
      (Inl e, db') \<Rightarrow> db' = db
    | (Inr _, db') \<Rightarrow> active_set db' = insert (qr_cidr rec) (active_set db)) \<and>
    (case unban E N target details now db of
      (Inl e, db') \<Rightarrow> db' = db
    | (Inr cs, db') \<Rightarrow> set cs = lifted_by N target (active_set db) \<and> active_set db' = active_set db - set cs) \<and>
    (case unban_all E details now db of
      (Inl e, db') \<Rightarrow> db' = db
    | (Inr n, db') \<Rightarrow> n = card (active_set db) \<and> active_set db' = {})"
  by (intro conjI record_ban_set unban_set unban_all_set assms)

theorem store_implements_set_witness:
  "active_set (snd (record_ban plain_engine example_record empty_db)) = {''198.51.100.0/24''}"
proof -
  have "qr_active example_record" "active_set empty_db = {}" "qr_cidr example_record = ''198.51.100.0/24''"
    by (simp_all add: example_record_def active_set_def active_cidrs_def empty_db_def)
  moreover obtain db where "record_ban plain_engine example_record empty_db = (Inr (), db)"
    using record_ban_works [of plain_engine example_record empty_db] by (auto simp: example_record_def)
  ultimately show ?thesis
    using store_implements_set [OF store_inv_empty plain_engine_ok(1), of example_record cidr_lib "[]" "[]" 0] by simp
qed

section \<open>The contract of a ban registry\<close>

text \<open>
  What the store's clients (the persistence worker, the control socket and the command line) rely
  on: a registry whose state denotes a set of networks. Each request carries the engine that serves
  it; a good one is served without an error.
\<close>

locale ban_registry =
  fixes ok :: "'db \<Rightarrow> bool"
    and bans :: "'db \<Rightarrow> string set"
    and ban :: "'r \<Rightarrow> 'db \<Rightarrow> 'db" and good_ban :: "'r \<Rightarrow> bool" and key :: "'r \<Rightarrow> string"
    and lift :: "'t \<Rightarrow> 'db \<Rightarrow> 'db" and good_lift :: "'t \<Rightarrow> bool" and covers :: "'t \<Rightarrow> string set \<Rightarrow> string set"
  assumes ban_ok: "ok db \<Longrightarrow> good_ban r \<Longrightarrow> ok (ban r db)"
    and ban_bans: "ok db \<Longrightarrow> good_ban r \<Longrightarrow> bans (ban r db) = insert (key r) (bans db)"
    and lift_ok: "ok db \<Longrightarrow> good_lift t \<Longrightarrow> ok (lift t db)"
    and lift_bans: "ok db \<Longrightarrow> good_lift t \<Longrightarrow> bans (lift t db) = bans db - covers t (bans db)"
    and covers_sub: "covers t A \<subseteq> A"
begin

lemma bans_fold:
  "ok db \<Longrightarrow> list_all good_ban rs \<Longrightarrow>
     ok (fold ban rs db) \<and> bans (fold ban rs db) = bans db \<union> key ` set rs"
  by (induction rs arbitrary: db) (auto simp: ban_ok ban_bans)

lemma ban_idem: "ok db \<Longrightarrow> good_ban r \<Longrightarrow> bans (ban r (ban r db)) = bans (ban r db)"
  by (simp add: ban_ok ban_bans)

lemma bans_fold_perm:
  assumes "ok db" "list_all good_ban rs" "mset rs' = mset rs"
  shows "bans (fold ban rs' db) = bans (fold ban rs db)"
proof -
  have s: "set rs' = set rs" using assms(3) by (rule mset_eq_setD)
  then have "list_all good_ban rs'" using assms(2) by (simp add: list_all_iff)
  with s bans_fold [OF assms(1,2)] bans_fold [OF assms(1), of rs'] show ?thesis by simp
qed

lemma lift_fold_sub:
  "ok db \<Longrightarrow> list_all good_lift ts \<Longrightarrow> ok (fold lift ts db) \<and> bans (fold lift ts db) \<subseteq> bans db"
proof (induction ts arbitrary: db)
  case (Cons t ts)
  then have "ok (lift t db)" "bans (lift t db) \<subseteq> bans db" by (simp_all add: lift_ok lift_bans)
  with Cons.IH [of "lift t db"] Cons.prems(2) show ?case by auto
qed simp

end

lemma lifted_by_sub: "lifted_by N t A \<subseteq> A"
  by (auto simp: lifted_by_def split: option.splits)

fun good_ban_request :: "sql_engine \<times> quarantine_record \<Rightarrow> bool" where
  "good_ban_request (E, rec) =
     (engine_works E \<and> qr_active rec \<and> unat (qr_quarantined_at rec) < 2 ^ 63 \<and> unat (qr_expires_at rec) < 2 ^ 63)"

fun good_lift_request :: "sql_engine \<times> string \<times> string \<times> u64 \<Rightarrow> bool" where
  "good_lift_request (E, t, d, now) = (engine_works E \<and> engine_laws E \<and> unat now < 2 ^ 63)"

lemma lift_bans_works:
  "engine_works E \<Longrightarrow> unat now < 2 ^ 63 \<Longrightarrow> \<exists>db'. lift_bans E d now cs db = Inr db'"
  by (induction cs arbitrary: db) (auto simp: Let_def bind_u64_def)

lemma unban_works:
  assumes "engine_works E" "unat now < 2 ^ 63"
  shows "\<exists>cs. unban_targets E N t db = Inr cs \<and> unban E N t d now db = (Inr cs, unbanned_db d now cs db)"
proof -
  have "\<exists>cs. unban_targets E N t db = Inr cs"
    using assms(1) by (cases "parse_ip t") (simp_all add: unban_targets_def Let_def)
  then obtain cs where cs: "unban_targets E N t db = Inr cs" ..
  obtain db' where l: "lift_bans E d now cs db = Inr db'"
    using lift_bans_works [OF assms] by blast
  then have "db' = unbanned_db d now cs db" by (simp only: unbanned_db_def lift_bans_ok)
  then have "transaction E (lift_bans E d now cs) db = (Inr (), unbanned_db d now cs db)"
    using transaction_works [OF assms(1), of "lift_bans E d now cs" db db'] l by simp
  with cs show ?thesis by (cases cs) (simp_all add: unban_def)
qed

interpretation store: ban_registry store_inv active_set
    "\<lambda>(E, rec) db. snd (record_ban E rec db)" good_ban_request "\<lambda>(E, rec). qr_cidr rec"
    "\<lambda>(E, t, d, now) db. snd (unban E N t d now db)" good_lift_request "\<lambda>(E, t, d, now). lifted_by N t" for N
proof
  fix db and r :: "sql_engine \<times> quarantine_record"
  assume inv: "store_inv db" and g: "good_ban_request r"
  obtain E rec where r: "r = (E, rec)" by fastforce
  from inv g show "store_inv ((\<lambda>(E, rec) db. snd (record_ban E rec db)) r db)"
    by (simp add: r store_inv_record_ban)
  from g obtain row where "bind_record rec = Inr row" "record_ban E rec db = (Inr (), banned_db row rec db)"
    using record_ban_works [of E rec db] by (auto simp: r)
  with g show "active_set ((\<lambda>(E, rec) db. snd (record_ban E rec db)) r db) = insert ((\<lambda>(E, rec). qr_cidr rec) r) (active_set db)"
    by (simp add: r active_banned)
next
  fix db and x :: "sql_engine \<times> string \<times> string \<times> u64"
  assume inv: "store_inv db" and g: "good_lift_request x"
  obtain E t d now where x: "x = (E, t, d, now)" by (cases x) auto
  from inv g show "store_inv ((\<lambda>(E, t, d, now) db. snd (unban E N t d now db)) x db)"
    by (simp add: x store_inv_unban)
  from g obtain cs where "unban_targets E N t db = Inr cs" "unban E N t d now db = (Inr cs, unbanned_db d now cs db)"
    using unban_works [of E now N t db d] by (auto simp: x)
  moreover from g have "engine_laws E" by (simp add: x)
  ultimately show "active_set ((\<lambda>(E, t, d, now) db. snd (unban E N t d now db)) x db) =
      active_set db - (\<lambda>(E, t, d, now). lifted_by N t) x (active_set db)"
    using unban_targets_lifted [of E N t db cs] by (simp add: x active_unbanned)
next
  fix x :: "sql_engine \<times> string \<times> string \<times> u64" and A
  obtain E t d now where x: "x = (E, t, d, now)" by (cases x) auto
  show "(\<lambda>(E, t, d, now). lifted_by N t) x A \<subseteq> A" by (simp add: x lifted_by_sub)
qed

end
