(* ===== verification/Store_Queries.thy ===== *)
theory Store_Queries
  imports Store_Props
begin

text \<open>
  The queries of \<open>src/quarantine/store.rs\<close>: what a reader of the store sees of the bans that were
  recorded. A row is readable as long as its counter fits into the record's 32 bits.
\<close>

section \<open>Rows and records\<close>

definition readable :: "subnet_row \<Rightarrow> bool" where
  "readable r \<longleftrightarrow> row_infraction_count r < 2 ^ 32"

lemma set_map_filter: "set (List.map_filter f xs) = {y. \<exists>x \<in> set xs. f x = Some y}"
  by (force simp: List.map_filter_def)

lemma map_row_readable:
  "row_ok r \<Longrightarrow> readable r \<Longrightarrow> \<exists>rec. map_quarantine_row r = Some rec"
  by (auto simp: row_ok_def readable_def map_quarantine_row_def get_u8_def get_u32_def get_u64_def)

lemma map_row_unreadable: "\<not> readable r \<Longrightarrow> map_quarantine_row r = None"
  by (auto simp: readable_def map_quarantine_row_def get_u32_def)

lemma get_u64_Some: "get_u64 i = Some x \<Longrightarrow> uint x = i"
  by (auto simp: get_u64_def unsigned_of_int take_bit_int_eq_self_iff split: if_splits)

lemma map_row_fields:
  assumes "map_quarantine_row r = Some rec"
  shows "qr_cidr rec = row_cidr r" "uint (qr_quarantined_at rec) = row_quarantined_at r"
    "uint (qr_expires_at rec) = row_expires_at r" "qr_active rec \<longleftrightarrow> row_active r = 1"
    "qr_trigger_ip rec = row_trigger_ip r" "qr_infraction_type rec = row_infraction_type r"
    "qr_user_agent rec = row_user_agent r"
  using assms get_u64_Some by (auto simp: map_quarantine_row_def bind_eq_Some_conv)

lemma map_row_bind:
  assumes "bind_record rec = Inr row"
  shows "map_quarantine_row row = Some rec"
proof -
  from assms have row: "row = \<lparr>row_cidr = qr_cidr rec, row_ip_version = uint (qr_ip_version rec),
            row_trigger_ip = qr_trigger_ip rec, row_infraction_type = qr_infraction_type rec,
            row_infraction_count = uint (qr_infraction_count rec), row_quarantined_at = uint (qr_quarantined_at rec),
            row_expires_at = uint (qr_expires_at rec), row_user_agent = qr_user_agent rec,
            row_active = (if qr_active rec then 1 else 0)\<rparr>"
    and b: "uint (qr_quarantined_at rec) < 2 ^ 63" "uint (qr_expires_at rec) < 2 ^ 63"
    unfolding uint_less_63 by (auto simp: bind_record_def bind_u64_Inr)
  have "uint (qr_ip_version rec) < 2 ^ 8" "uint (qr_infraction_count rec) < 2 ^ 32"
    using unsigned_less [of "qr_ip_version rec"] unsigned_less [of "qr_infraction_count rec"] by simp_all
  with b show ?thesis
    by (simp add: row map_quarantine_row_def get_u8_def get_u32_def get_u64_def)
qed

section \<open>The active bans\<close>

lemma set_newest_first: "engine_laws E \<Longrightarrow> set (newest_first E rows) = set rows"
  by (simp add: newest_first_def set_scan)

lemma newest_first_sorted: "sorted_wrt (\<lambda>a b. row_quarantined_at b \<le> row_quarantined_at a) (newest_first E rows)"
proof -
  have "sorted (map (\<lambda>r. - row_quarantined_at r) (newest_first E rows))"
    by (simp add: newest_first_def)
  then show ?thesis by (simp add: sorted_wrt_map)
qed

lemma sorted_wrt_map_filter:
  "sorted_wrt R xs \<Longrightarrow> (\<And>a b x y. R a b \<Longrightarrow> f a = Some x \<Longrightarrow> f b = Some y \<Longrightarrow> S x y) \<Longrightarrow>
     sorted_wrt S (List.map_filter f xs)"
  by (induction xs) (auto simp: List.map_filter_def split: option.splits)

lemma get_active_bans_eq:
  "get_active_bans E now db = Inr rs \<Longrightarrow>
     rs = List.map_filter map_quarantine_row
       (filter (\<lambda>r. row_active r = 1 \<and> row_expires_at r > uint now) (newest_first E (db_subnets db)))"
  by (auto simp: get_active_bans_def bind_u64_Inr)

lemma get_active_bans_works:
  "engine_works E \<Longrightarrow> unat now < 2 ^ 63 \<Longrightarrow> \<exists>rs. get_active_bans E now db = Inr rs"
  by (simp add: get_active_bans_def bind_u64_def)

lemma active_bans_set:
  assumes "engine_laws E" "get_active_bans E now db = Inr rs"
  shows "set rs = {rec. \<exists>r \<in> set (db_subnets db). row_active r = 1 \<and> row_expires_at r > uint now \<and>
    map_quarantine_row r = Some rec}"
  unfolding get_active_bans_eq [OF assms(2)] set_map_filter
  by (auto simp: set_newest_first [OF assms(1)])

lemma active_bans_sorted:
  assumes "get_active_bans E now db = Inr rs"
  shows "sorted_wrt (\<lambda>a b. qr_quarantined_at b \<le> qr_quarantined_at a) rs"
  unfolding get_active_bans_eq [OF assms]
  by (rule sorted_wrt_map_filter [OF sorted_wrt_filter [OF newest_first_sorted]])
    (simp add: word_le_def map_row_fields(2))

text \<open>
  The list of active bans. It holds exactly the networks whose entry is active and not yet
  expired, except that an entry whose counter has outgrown 32 bits is left out without an error;
  the newest ban comes first, and every record listed is active and unexpired.
\<close>

theorem active_bans_spec:
  assumes "store_inv db" "engine_laws E" "get_active_bans E now db = Inr rs"
  shows "qr_cidr ` set rs =
      {row_cidr r | r. r \<in> set (db_subnets db) \<and> row_active r = 1 \<and> uint now < row_expires_at r \<and>
         row_infraction_count r < 2 ^ 32} \<and>
    sorted_wrt (\<lambda>a b. qr_quarantined_at b \<le> qr_quarantined_at a) rs \<and>
    (\<forall>rec \<in> set rs. qr_active rec \<and> now < qr_expires_at rec)"
proof (intro conjI ballI)
  have ok: "row_ok r" if "r \<in> set (db_subnets db)" for r
    using assms(1) that by (simp add: store_inv_def list_all_iff)
  note S = active_bans_set [OF assms(2,3)]
  show "qr_cidr ` set rs =
      {row_cidr r | r. r \<in> set (db_subnets db) \<and> row_active r = 1 \<and> uint now < row_expires_at r \<and>
         row_infraction_count r < 2 ^ 32}" (is "?A = ?B")
  proof
    show "?A \<subseteq> ?B"
      unfolding S using map_row_fields(1) map_row_unreadable by (fastforce simp: readable_def)
    show "?B \<subseteq> ?A"
    proof
      fix c assume "c \<in> ?B"
      then obtain r where r: "r \<in> set (db_subnets db)" "row_active r = 1" "uint now < row_expires_at r"
        "readable r" "c = row_cidr r" by (auto simp: readable_def)
      obtain rec where rec: "map_quarantine_row r = Some rec"
        using map_row_readable [OF ok [OF r(1)] r(4)] by blast
      then have "rec \<in> set rs" using r by (auto simp: S)
      moreover have "qr_cidr rec = c" using map_row_fields(1) [OF rec] r(5) by simp
      ultimately show "c \<in> ?A" by blast
    qed
  qed
  show "sorted_wrt (\<lambda>a b. qr_quarantined_at b \<le> qr_quarantined_at a) rs"
    by (rule active_bans_sorted [OF assms(3)])
  fix rec assume "rec \<in> set rs"
  then obtain r where "row_active r = 1" "row_expires_at r > uint now" "map_quarantine_row r = Some rec"
    by (auto simp: S)
  then show "qr_active rec" "now < qr_expires_at rec"
    using map_row_fields(3,4) by (auto simp: word_less_def)
qed

lemma bind_record_fields:
  assumes "bind_record rec = Inr row"
  shows "row_cidr row = qr_cidr rec" "row_expires_at row = uint (qr_expires_at rec)"
    "row_user_agent row = qr_user_agent rec" "row_infraction_count row = uint (qr_infraction_count rec)"
  using assms by (auto simp: bind_record_def bind_u64_Inr)

theorem active_bans_spec_witness:
  "\<exists>rs. get_active_bans plain_engine 1600 (snd (record_ban plain_engine example_record empty_db)) = Inr rs \<and>
     qr_cidr ` set rs = {''198.51.100.0/24''}"
proof -
  obtain row where row: "bind_record example_record = Inr row"
    "record_ban plain_engine example_record empty_db = (Inr (), banned_db row example_record empty_db)"
    using record_ban_works [of plain_engine example_record empty_db] by (auto simp: example_record_def)
  let ?db = "banned_db row example_record empty_db"
  have inv: "store_inv ?db" using store_inv_banned [OF store_inv_empty row(1)] by (simp add: example_record_def)
  have s: "db_subnets ?db = [row]" by (simp add: banned_db_def upsert_row_def empty_db_def)
  have r: "row_active row = 1" "row_cidr row = ''198.51.100.0/24''" "row_expires_at row = 5000" "row_infraction_count row = 1"
    using bind_record_row [OF row(1)] bind_record_fields [OF row(1)] by (simp_all add: example_record_def)
  obtain rs where rs: "get_active_bans plain_engine 1600 ?db = Inr rs"
    using get_active_bans_works [of plain_engine 1600 ?db] by auto
  have "qr_cidr ` set rs = {''198.51.100.0/24''}"
    using active_bans_spec [OF inv plain_engine_ok(1) rs] by (auto simp: s r)
  with rs row(2) show ?thesis by simp
qed

lemma record_ban_ok:
  assumes "record_ban E rec db = (Inr (), db')"
  obtains row where "bind_record rec = Inr row" "db_subnets db' = upsert_row row (db_subnets db)"
  using assms by (cases rule: record_ban_cases [of E rec db]) (auto simp: banned_db_def)

lemma map_row_merge:
  assumes "map_quarantine_row r = Some rec" "row_active r = 1" "bind_record rec2 = Inr row2"
    "unat (qr_infraction_count rec) + unat (qr_infraction_count rec2) < 2 ^ 32"
    "row_infraction_count r = uint (qr_infraction_count rec)"
  shows "map_quarantine_row (merge_row row2 r) = Some (rec\<lparr>
        qr_infraction_count := qr_infraction_count rec + qr_infraction_count rec2,
        qr_expires_at := qr_expires_at rec2,
        qr_user_agent := (case qr_user_agent rec2 of Some ua \<Rightarrow> Some ua | None \<Rightarrow> qr_user_agent rec)\<rparr>)"
proof -
  note b = bind_record_fields [OF assms(3)]
  have "int (unat (qr_infraction_count rec) + unat (qr_infraction_count rec2)) < int (2 ^ 32)"
    using assms(4) by (simp only: of_nat_less_iff)
  then have c: "uint (qr_infraction_count rec) + uint (qr_infraction_count rec2) < 2 ^ 32" by simp
  have "0 \<le> uint (qr_infraction_count rec) + uint (qr_infraction_count rec2)" by simp
  with c have n: "get_u32 (row_infraction_count r + row_infraction_count row2) =
      Some (qr_infraction_count rec + qr_infraction_count rec2)"
    by (simp add: get_u32_def assms(5) b(4))
  have "map_quarantine_row row2 = Some rec2" by (rule map_row_bind [OF assms(3)])
  then have e: "get_u64 (row_expires_at row2) = Some (qr_expires_at rec2)"
    by (auto simp: map_quarantine_row_def bind_eq_Some_conv)
  from assms(1) obtain v q where "get_u8 (row_ip_version r) = Some v" "get_u64 (row_quarantined_at r) = Some q"
    "v = qr_ip_version rec" "q = qr_quarantined_at rec"
    by (auto simp: map_quarantine_row_def bind_eq_Some_conv)
  with n e b(3) map_row_fields [OF assms(1)] assms(2) show ?thesis
    by (cases rec) (simp add: map_quarantine_row_def merge_row_def split: option.split)
qed

text \<open>
  C37: what is recorded is what is read. A ban recorded for a new network is listed as it was
  recorded until it expires. Recording a network again adds the counters, takes the new expiry even
  when it is earlier and the new user agent when there is one, and keeps the first trigger, kind
  and time.
\<close>

theorem ban_roundtrip:
  assumes "engine_laws E" "record_ban E rec db = (Inr (), db')" "qr_active rec"
    and "qr_cidr rec \<notin> row_cidr ` set (db_subnets db)"
    and "get_active_bans E' now db' = Inr rs" "engine_laws E'" "now < qr_expires_at rec"
    and "record_ban E rec2 db' = (Inr (), db'')" "qr_cidr rec2 = qr_cidr rec"
    and "get_active_bans E' now db'' = Inr rs2" "now < qr_expires_at rec2"
    and "unat (qr_infraction_count rec) + unat (qr_infraction_count rec2) < 2 ^ 32"
  shows "rec \<in> set rs \<and>
    rec\<lparr>qr_infraction_count := qr_infraction_count rec + qr_infraction_count rec2,
        qr_expires_at := qr_expires_at rec2,
        qr_user_agent := (case qr_user_agent rec2 of Some ua \<Rightarrow> Some ua | None \<Rightarrow> qr_user_agent rec)\<rparr> \<in> set rs2"
proof -
  obtain row where row: "bind_record rec = Inr row" "db_subnets db' = upsert_row row (db_subnets db)"
    using record_ban_ok [OF assms(2)] .
  obtain row2 where row2: "bind_record rec2 = Inr row2" "db_subnets db'' = upsert_row row2 (db_subnets db')"
    using record_ban_ok [OF assms(8)] .
  note f = bind_record_fields [OF row(1)] and f2 = bind_record_fields [OF row2(1)]
  have act: "row_active row = 1" using bind_record_row [OF row(1)] assms(3) by simp
  have in1: "row \<in> set (db_subnets db')" using row(2) f(1) assms(4) by (simp add: upsert_row_def)
  have m1: "map_quarantine_row row = Some rec" by (rule map_row_bind [OF row(1)])
  have "rec \<in> set rs"
    unfolding active_bans_set [OF assms(6,5)]
    using in1 act m1 f(2) assms(7) by (auto simp: word_less_def)
  moreover have "merge_row row2 row \<in> set (db_subnets db'')"
  proof -
    have "row_cidr row = row_cidr row2" using f(1) f2(1) assms(9) by simp
    with in1 show ?thesis unfolding row2(2) by (auto simp: upsert_row_def image_iff)
  qed
  moreover have "row_active (merge_row row2 row) = 1"
    "row_expires_at (merge_row row2 row) = uint (qr_expires_at rec2)"
    using f2(2) by (simp_all add: merge_row_def)
  moreover note map_row_merge [OF m1 act row2(1) assms(12) f(4)]
  ultimately show ?thesis
    unfolding active_bans_set [OF assms(6,10)] using assms(11) by (auto simp: word_less_def)
qed

definition longer_record :: quarantine_record where
  "longer_record = example_record\<lparr>qr_expires_at := 2000, qr_quarantined_at := 1500\<rparr>"

theorem ban_roundtrip_witness:
  "\<exists>db rs. snd (record_ban plain_engine longer_record (snd (record_ban plain_engine example_record empty_db))) = db \<and>
     get_active_bans plain_engine 1600 db = Inr rs \<and>
     example_record\<lparr>qr_infraction_count := 2, qr_expires_at := 2000\<rparr> \<in> set rs"
proof -
  obtain row db1 where 1: "record_ban plain_engine example_record empty_db = (Inr (), db1)"
    using record_ban_works [of plain_engine example_record empty_db] by (auto simp: example_record_def)
  obtain db2 where 2: "record_ban plain_engine longer_record db1 = (Inr (), db2)"
    using record_ban_works [of plain_engine longer_record db1] by (auto simp: longer_record_def example_record_def)
  obtain rs rs2 where 3: "get_active_bans plain_engine 1600 db1 = Inr rs" "get_active_bans plain_engine 1600 db2 = Inr rs2"
    using get_active_bans_works [of plain_engine 1600] by fastforce
  have "example_record\<lparr>qr_infraction_count := qr_infraction_count example_record + qr_infraction_count longer_record,
        qr_expires_at := qr_expires_at longer_record,
        qr_user_agent := (case qr_user_agent longer_record of Some ua \<Rightarrow> Some ua | None \<Rightarrow> qr_user_agent example_record)\<rparr> \<in> set rs2"
    using ban_roundtrip [OF plain_engine_ok(1) 1 _ _ 3(1) plain_engine_ok(1) _ 2 _ 3(2)]
    by (simp add: example_record_def longer_record_def empty_db_def)
  then have "example_record\<lparr>qr_infraction_count := 2, qr_expires_at := 2000\<rparr> \<in> set rs2"
    by (simp add: example_record_def longer_record_def)
  with 1 2 3 show ?thesis by auto
qed

end
