(* ===== verification/Manager.thy ===== *)
theory Manager
  imports Store_Queries Config
begin

text \<open>
  The quarantine manager (\<open>src/quarantine/mod.rs\<close>). The daemon's shared state is the in-memory
  quarantine, the tables of the store and the channel between the request handlers and the
  persistence worker; the manager's methods are steps on it. The in-memory quarantine is phylax's and
  a parameter; \<open>memory_law\<close> is what the code relies on: an added ban can be looked up.
\<close>

record 'q daemon =
  in_memory :: 'q
  daemon_db :: quarantine_db
  channel :: "quarantine_record list"
  receiver_alive :: bool
  control_sock :: string

definition new_manager :: "'q \<Rightarrow> quarantine_db \<Rightarrow> string \<Rightarrow> 'q daemon" where
  "new_manager memory db sock =
     \<lparr>in_memory = memory, daemon_db = db, channel = [], receiver_alive = True, control_sock = sock\<rparr>"

text \<open>\<open>send\<close> fails only when the receiver is gone, and the error is ignored.\<close>

definition queue_record :: "quarantine_record \<Rightarrow> 'q daemon \<Rightarrow> 'q daemon" where
  "queue_record rec d = (if receiver_alive d then d\<lparr>channel := channel d @ [rec]\<rparr> else d)"

definition rehydrate_memory ::
    "'n ipnet_lib \<Rightarrow> ('q, 'n) phylax_quarantine \<Rightarrow> quarantine_record list \<Rightarrow> 'q \<Rightarrow> 'q" where
  "rehydrate_memory N A recs q =
     foldl (\<lambda>q rec. case net_parse N (qr_cidr rec) of
              Some net \<Rightarrow> aq_add_ban A q net (qr_expires_at rec) | None \<Rightarrow> q) q recs"

definition rehydrate_with_timestamp ::
    "sql_engine \<Rightarrow> 'n ipnet_lib \<Rightarrow> ('q, 'n) phylax_quarantine \<Rightarrow> u64 \<Rightarrow> 'q daemon \<Rightarrow>
     (store_error + nat) \<times> 'q daemon" where
  "rehydrate_with_timestamp E N A now_ms d =
     (case get_active_bans E now_ms (daemon_db d) of
        Inl e \<Rightarrow> (Inl e, d)
      | Inr active_records \<Rightarrow>
          (Inr (length active_records),
           d\<lparr>in_memory := rehydrate_memory N A active_records (in_memory d)\<rparr>))"

text \<open>One turn of the worker's loop: the oldest record, and an error is only logged.\<close>

definition worker_step :: "sql_engine \<Rightarrow> 'q daemon \<Rightarrow> 'q daemon" where
  "worker_step E d =
     (case channel d of
        [] \<Rightarrow> d
      | rec # rest \<Rightarrow> d\<lparr>channel := rest, daemon_db := snd (record_ban E rec (daemon_db d))\<rparr>)"

text \<open>The worker with the engines that serve its turns.\<close>

definition run_persistence_worker :: "sql_engine list \<Rightarrow> 'q daemon \<Rightarrow> 'q daemon" where
  "run_persistence_worker Es d = fold worker_step Es d"

section \<open>What the worker persists\<close>

lemma worker_fold:
  "length Es = length (channel d) \<Longrightarrow>
     run_persistence_worker Es d =
       d\<lparr>channel := [],
         daemon_db := fold (\<lambda>(E, rec) db. snd (record_ban E rec db)) (zip Es (channel d)) (daemon_db d)\<rparr>"
  unfolding run_persistence_worker_def
proof (induction Es arbitrary: d)
  case (Cons E Es)
  then obtain rec rest where c: "channel d = rec # rest" "length Es = length rest"
    by (cases "channel d") auto
  with Cons.IH [of "worker_step E d"] show ?case by (simp add: worker_step_def)
qed simp

definition persistable :: "quarantine_record \<Rightarrow> bool" where
  "persistable rec \<longleftrightarrow>
     qr_active rec \<and> unat (qr_quarantined_at rec) < 2 ^ 63 \<and> unat (qr_expires_at rec) < 2 ^ 63"

lemma good_requests:
  "list_all engine_works Es \<Longrightarrow> list_all persistable recs \<Longrightarrow> list_all good_ban_request (zip Es recs)"
  by (fastforce simp: list_all_iff persistable_def dest: set_zip_leftD set_zip_rightD)

lemma worker_persists:
  assumes "store_inv (daemon_db d)" "list_all engine_works Es" "list_all persistable (channel d)"
    "length Es = length (channel d)"
  shows "store_inv (daemon_db (run_persistence_worker Es d))"
    and "active_set (daemon_db (run_persistence_worker Es d)) =
      active_set (daemon_db d) \<union> qr_cidr ` set (channel d)"
proof -
  have k: "(\<lambda>(E, rec). qr_cidr rec) ` set (zip Es (channel d)) = qr_cidr ` set (channel d)"
    using set_zip_leftD assms(4) image_image [of qr_cidr snd "set (zip Es (channel d))"]
    by (simp add: case_prod_unfold flip: set_map map_map)
  note f = store.bans_fold [OF assms(1) good_requests [OF assms(2,3)]]
  from f show "store_inv (daemon_db (run_persistence_worker Es d))"
    by (simp add: worker_fold [OF assms(4)])
  from f k show "active_set (daemon_db (run_persistence_worker Es d)) =
      active_set (daemon_db d) \<union> qr_cidr ` set (channel d)"
    by (simp add: worker_fold [OF assms(4)])
qed

section \<open>What a restart restores\<close>

definition memory_law ::
    "('q, 'n) phylax_quarantine \<Rightarrow> ('q \<Rightarrow> 'n \<Rightarrow> u64 option) \<Rightarrow> bool" where
  "memory_law A expiry \<longleftrightarrow> (\<forall>q n e. expiry (aq_add_ban A q n e) = (expiry q)(n := Some e))"

lemma rehydrate_memory_Cons:
  "rehydrate_memory N A (rec # recs) q =
     rehydrate_memory N A recs
       (case net_parse N (qr_cidr rec) of Some net \<Rightarrow> aq_add_ban A q net (qr_expires_at rec) | None \<Rightarrow> q)"
  by (simp add: rehydrate_memory_def)

text \<open>A ban that is restored, or was there, stays later than any bound on the restored expiries.\<close>

lemma rehydrate_keeps:
  assumes "memory_law A expiry" "\<forall>rec \<in> set recs. t < qr_expires_at rec"
    and "\<exists>e. expiry q net = Some e \<and> t < e"
  shows "\<exists>e. expiry (rehydrate_memory N A recs q) net = Some e \<and> t < e"
  using assms(2,3)
proof (induction recs arbitrary: q)
  case (Cons rec recs)
  let ?q = "case net_parse N (qr_cidr rec) of Some n \<Rightarrow> aq_add_ban A q n (qr_expires_at rec) | None \<Rightarrow> q"
  have "\<exists>e. expiry ?q net = Some e \<and> t < e"
    using Cons.prems assms(1) by (auto simp: memory_law_def split: option.split)
  with Cons.IH Cons.prems(1) show ?case by (simp add: rehydrate_memory_Cons)
qed (simp add: rehydrate_memory_def)

lemma rehydrate_adds:
  assumes "memory_law A expiry" "\<forall>rec \<in> set recs. t < qr_expires_at rec"
    and "rec \<in> set recs" "net_parse N (qr_cidr rec) = Some net"
  shows "\<exists>e. expiry (rehydrate_memory N A recs q) net = Some e \<and> t < e"
  using assms(2,3)
proof (induction recs arbitrary: q)
  case (Cons r recs)
  show ?case
  proof (cases "r = rec")
    case True
    then have "\<exists>e. expiry (aq_add_ban A q net (qr_expires_at r)) net = Some e \<and> t < e"
      using assms(1) Cons.prems(1) by (simp add: memory_law_def)
    with True show ?thesis
      using rehydrate_keeps [OF assms(1), of recs t "aq_add_ban A q net (qr_expires_at r)" net N] Cons.prems(1)
      by (simp add: rehydrate_memory_Cons assms(4))
  next
    case False
    with Cons show ?thesis by (simp add: rehydrate_memory_Cons)
  qed
qed simp

lemma upsert_last:
  assumes "bind_record rec = Inr row" "qr_active rec"
  shows "\<exists>r \<in> set (upsert_row row rows).
    row_cidr r = qr_cidr rec \<and> row_active r = 1 \<and> row_expires_at r = uint (qr_expires_at rec)"
proof (cases "row_cidr row \<in> row_cidr ` set rows")
  case True
  then obtain r where "r \<in> set rows" "row_cidr r = row_cidr row" by auto
  with True bind_record_fields [OF assms(1)] show ?thesis
    by (intro bexI [of _ "merge_row row r"]) (simp_all add: upsert_row_def merge_row_def)
next
  case False
  with assms bind_record_fields [OF assms(1)] show ?thesis
    by (auto simp: upsert_row_def bind_record_def result_bind_eq_Inr)
qed

lemma recorded_is_listed:
  assumes "store_inv db" "engine_laws E" "get_active_bans E t db = Inr recs"
    and "r \<in> set (db_subnets db)" "row_active r = 1" "uint t < row_expires_at r"
    and "row_infraction_count r < 2 ^ 32"
  shows "\<exists>rec \<in> set recs. qr_cidr rec = row_cidr r"
proof -
  from assms(1,4) have "row_ok r" by (simp add: store_inv_def list_all_iff)
  with assms(7) obtain rec where "map_quarantine_row r = Some rec"
    using map_row_readable by (fastforce simp: readable_def)
  with assms(4-6) show ?thesis
    unfolding active_bans_set [OF assms(2,3)] using map_row_fields(1) by fastforce
qed

lemma active_set_empty [simp]: "active_set empty_db = {}"
  by (simp add: active_set_def active_cidrs_def empty_db_def)

lemma worker_step_db:
  assumes "engine_works E" "persistable rec"
  shows "\<exists>r \<in> set (db_subnets (snd (record_ban E rec db))).
    row_cidr r = qr_cidr rec \<and> row_active r = 1 \<and> row_expires_at r = uint (qr_expires_at rec)"
proof -
  obtain row where "bind_record rec = Inr row" "record_ban E rec db = (Inr (), banned_db row rec db)"
    using record_ban_works [of E rec db] assms by (auto simp: persistable_def)
  with assms(2) upsert_last show ?thesis by (simp add: banned_db_def persistable_def append_audit_subnets)
qed

lemma ban_restored:
  assumes "store_inv (daemon_db d)" "channel d = queued @ [rec]" "list_all persistable (channel d)"
    and "length Es = length (channel d)" "list_all engine_works Es"
    and "db = daemon_db (run_persistence_worker Es d)"
    and "\<forall>r \<in> set (db_subnets db). row_infraction_count r < 2 ^ 32"
    and "engine_works E" "engine_laws E" "memory_law A expiry"
    and "net_parse N (qr_cidr rec) = Some net" "t < qr_expires_at rec" "unat t < 2 ^ 63"
  shows "\<exists>n d'. rehydrate_with_timestamp E N A t (new_manager memory db sock) = (Inr n, d') \<and>
           n > 0 \<and> (\<exists>e. expiry (in_memory d') net = Some e \<and> t < e)"
proof -
  obtain Es' E' where Es: "Es = Es' @ [E']"
    using assms(2,4) by (cases Es rule: rev_cases) auto
  have len: "length Es' = length queued" using assms(2,4) Es by simp
  have p: "persistable rec" "engine_works E'" using assms(2,3,5) Es by simp_all
  have db: "db = snd (record_ban E' rec
      (fold (\<lambda>(E, rec) db. snd (record_ban E rec db)) (zip Es' queued) (daemon_db d)))"
    unfolding assms(6) worker_fold [OF assms(4)] by (simp add: assms(2) Es len)
  from worker_step_db [OF p(2,1)] obtain r where
    r: "r \<in> set (db_subnets db)" "row_cidr r = qr_cidr rec" "row_active r = 1"
      "row_expires_at r = uint (qr_expires_at rec)" unfolding db by blast
  obtain recs where recs: "get_active_bans E t db = Inr recs"
    using get_active_bans_works [OF assms(8,13)] by blast
  have inv: "store_inv db" using worker_persists(1) [OF assms(1,5,3,4)] assms(6) by simp
  have "uint t < row_expires_at r" using assms(12) r(4) by (simp add: word_less_def)
  with recorded_is_listed [OF inv assms(9) recs r(1,3)] assms(7) r(1,2)
  obtain x where x: "x \<in> set recs" "qr_cidr x = qr_cidr rec" by auto
  have late: "\<forall>x \<in> set recs. t < qr_expires_at x"
    unfolding active_bans_set [OF assms(9) recs] using map_row_fields(3) by (auto simp: word_less_def)
  from rehydrate_adds [OF assms(10) late x(1)] x(2) assms(11)
  have "\<exists>e. expiry (rehydrate_memory N A recs memory) net = Some e \<and> t < e" by simp
  moreover have "0 < length recs" using x(1) by (rule length_pos_if_in_set)
  ultimately show ?thesis by (simp add: rehydrate_with_timestamp_def new_manager_def recs)
qed

text \<open>
  A ban survives a restart. The worker persists every record of the channel, in order; a daemon
  that starts later on the same file, at a time before the ban's expiry, restores the network into the
  memory with an expiry after that time. The count of infractions of the rows fits \<open>u32\<close>; a row above
  it is left out of the query.
\<close>

theorem ban_survives_restart:
  assumes "store_inv (daemon_db d)" "channel d = queued @ [rec]" "list_all persistable (channel d)"
    and "length Es = length (channel d)" "list_all engine_works Es"
    and "db = daemon_db (run_persistence_worker Es d)"
    and "\<forall>r \<in> set (db_subnets db). row_infraction_count r < 2 ^ 32"
    and "engine_works E" "engine_laws E" "memory_law A expiry"
    and "net_parse N (qr_cidr rec) = Some net" "t < qr_expires_at rec" "unat t < 2 ^ 63"
  shows "\<exists>n d'. rehydrate_with_timestamp E N A t (new_manager memory db sock) = (Inr n, d') \<and>
           n > 0 \<and> (\<exists>e. expiry (in_memory d') net = Some e \<and> t < e)"
  by (rule ban_restored [OF assms])

lemma list_quarantine_law: "memory_law list_quarantine map_of"
proof -
  have "map_of (filter (\<lambda>(m, _). m \<noteq> n) q) m = (if m = n then None else map_of q m)" for q :: "(cidr \<times> u64) list" and n m
    by (induction q) auto
  then show ?thesis by (auto simp: memory_law_def list_quarantine_def fun_eq_iff)
qed

theorem ban_survives_restart_witness:
  "\<exists>n d'. rehydrate_with_timestamp plain_engine cidr_lib list_quarantine 1600
      (new_manager [] (daemon_db (run_persistence_worker [plain_engine]
         (queue_record example_record (new_manager [] empty_db [])))) []) = (Inr n, d') \<and>
     n > 0 \<and> (\<exists>e. map_of (in_memory d') (V4 198 51 100 0, 24) = Some e \<and> 1600 < e)"
proof (rule ban_survives_restart [where d = "queue_record example_record (new_manager [] empty_db [])"
    and queued = "[]" and rec = example_record and Es = "[plain_engine]"])
  show "store_inv (daemon_db (queue_record example_record (new_manager [] empty_db [])))"
    by (simp add: queue_record_def new_manager_def store_inv_empty)
  show "channel (queue_record example_record (new_manager [] empty_db [])) = [] @ [example_record]"
    by (simp add: queue_record_def new_manager_def)
  show "list_all persistable (channel (queue_record example_record (new_manager [] empty_db [])))"
    by (simp add: queue_record_def new_manager_def persistable_def example_record_def)
  show "length [plain_engine] = length (channel (queue_record example_record (new_manager [] empty_db [])))"
    by (simp add: queue_record_def new_manager_def)
  show "net_parse cidr_lib (qr_cidr example_record) = Some (V4 198 51 100 0, 24)"
    by code_simp
  show "\<forall>r\<in>set (db_subnets (daemon_db (run_persistence_worker [plain_engine]
      (queue_record example_record (new_manager [] empty_db []))))). row_infraction_count r < 2 ^ 32"
    by code_simp
qed (simp_all add: example_record_def list_quarantine_law)

text \<open>
  The worker drains the channel: the networks of the store become those it had and those of the
  queued records, whatever the order in which they were queued, and the store's invariant holds.
\<close>

theorem worker_drains:
  assumes "store_inv (daemon_db d)" "list_all engine_works Es" "list_all persistable (channel d)"
    and "length Es = length (channel d)"
  shows "store_inv (daemon_db (run_persistence_worker Es d)) \<and> channel (run_persistence_worker Es d) = [] \<and>
    active_set (daemon_db (run_persistence_worker Es d)) = active_set (daemon_db d) \<union> qr_cidr ` set (channel d)"
  using worker_persists [OF assms] by (simp add: worker_fold [OF assms(4)])

theorem worker_drains_witness:
  "active_set (daemon_db (run_persistence_worker [plain_engine]
     (queue_record example_record (new_manager () empty_db [])))) = {''198.51.100.0/24''}"
  using worker_drains [of "queue_record example_record (new_manager () empty_db [])" "[plain_engine]"]
  by (simp add: queue_record_def new_manager_def store_inv_empty persistable_def example_record_def)

end
