(* ===== verification/Ipc.thy ===== *)
theory Ipc
  imports Manager
begin

text \<open>
  The control socket of the daemon (\<open>src/quarantine/ipc.rs\<close>): requests and responses, the handler of a
  connection and the client. The JSON codec is serde's and a parameter, as is what the socket yields;
  a handler returns an option, \<^term>\<open>None\<close> for the panic of an overflowing expiry. The statements for
  the \<open>i\<close>-th target of a request are served by the engine \<open>E i\<close>.
\<close>

datatype ipc_error =
    IpcIo string
  | Serialization string
  | DaemonOffline string
  | DaemonError string

datatype ipc_request =
    Ban "string list" "string option" "u64 option" bool
  | Unban "string list"
  | UnbanAll
  | ListActive
  | Status

datatype ipc_response =
    Banned nat "string list"
  | Unbanned nat "string list"
  | ListRecords "quarantine_record list"
  | StatusCounts nat nat
  | ErrorMessage string

fun store_error_message :: "store_error \<Rightarrow> string" where
  "store_error_message (Sqlite e) = ''SQLite database error: '' @ e"
| "store_error_message (StoreIo e) = ''I/O error: '' @ e"
| "store_error_message (InvalidNetwork e) = ''Invalid CIDR or IP representation: '' @ e"

record ipc_codec =
  enc_request :: "ipc_request \<Rightarrow> string + string"
  dec_request :: "string \<Rightarrow> string + ipc_request"
  enc_response :: "ipc_response \<Rightarrow> string + string"
  dec_response :: "string \<Rightarrow> string + ipc_response"

section \<open>The operations\<close>

text \<open>A trimmed target that is not empty, as a network and the text that triggered it.\<close>

definition ban_target ::
    "'n ipnet_lib \<Rightarrow> ('q, 'n) phylax_quarantine \<Rightarrow> bool \<Rightarrow> string \<Rightarrow> ('n \<times> string) option" where
  "ban_target N A exact target =
     (if contains target ''/'' then map_option (\<lambda>n. (n, target)) (net_parse N target)
      else if exact
      then (case parse_ip target of
              Some ip \<Rightarrow> map_option (\<lambda>n. (n, target)) (net_new N ip (if is_ipv4 ip then 32 else 128))
            | None \<Rightarrow> None)
      else map_option (\<lambda>n. (n, target))
             (Option.bind (aq_derive_quarantine_cidr A target) (net_parse N)))"

definition operator_record ::
    "'n ipnet_lib \<Rightarrow> string \<Rightarrow> u64 \<Rightarrow> u64 \<Rightarrow> 'n \<times> string \<Rightarrow> quarantine_record" where
  "operator_record N reason now_ms expires_at nt =
     \<lparr>qr_cidr = net_show N (fst nt), qr_ip_version = (if is_ipv4 (net_addr N (fst nt)) then 4 else 6),
      qr_trigger_ip = snd nt, qr_infraction_type = reason, qr_infraction_count = 1,
      qr_quarantined_at = now_ms, qr_expires_at = expires_at, qr_user_agent = None, qr_active = True\<rparr>"

text \<open>The loop over the targets; a failed insertion is ignored.\<close>

fun ban_targets ::
    "(nat \<Rightarrow> sql_engine) \<Rightarrow> 'n ipnet_lib \<Rightarrow> ('q, 'n) phylax_quarantine \<Rightarrow> string \<Rightarrow> u64 \<Rightarrow> u64 \<Rightarrow> bool \<Rightarrow>
     string list \<Rightarrow> 'q daemon \<Rightarrow> string list \<times> 'q daemon" where
  "ban_targets E N A reason now_ms expires_at exact [] d = ([], d)"
| "ban_targets E N A reason now_ms expires_at exact (t # ts) d =
     (let target = trim t;
          resolved = (if target = [] then None else ban_target N A exact target)
      in case resolved of
           None \<Rightarrow> ban_targets (\<lambda>i. E (Suc i)) N A reason now_ms expires_at exact ts d
         | Some nt \<Rightarrow>
             (let rec = operator_record N reason now_ms expires_at nt;
                  d1 = d\<lparr>in_memory := aq_add_ban A (in_memory d) (fst nt) expires_at,
                         daemon_db := snd (record_ban (E 0) rec (daemon_db d))\<rparr>;
                  (cidrs, d2) = ban_targets (\<lambda>i. E (Suc i)) N A reason now_ms expires_at exact ts d1
              in (qr_cidr rec # cidrs, d2)))"

definition exec_ban ::
    "bool \<Rightarrow> (nat \<Rightarrow> sql_engine) \<Rightarrow> 'n ipnet_lib \<Rightarrow> ('q, 'n) phylax_quarantine \<Rightarrow> string list \<Rightarrow>
     string option \<Rightarrow> u64 option \<Rightarrow> bool \<Rightarrow> u64 \<Rightarrow> 'q daemon \<Rightarrow> (ipc_response \<times> 'q daemon) option" where
  "exec_ban checks E N A targets reason duration_secs exact now_ms d =
     do { ms \<leftarrow> mul_u64 checks (case duration_secs of Some s \<Rightarrow> s | None \<Rightarrow> 86400) 1000;
          expires_at \<leftarrow> add_u64 checks now_ms ms;
          let (cidrs, d') = ban_targets E N A
                (case reason of Some r \<Rightarrow> r | None \<Rightarrow> ''Manual operator ban'') now_ms expires_at exact targets d;
          Some (Banned (length cidrs) cidrs, d') }"

fun unban_each ::
    "(nat \<Rightarrow> sql_engine) \<Rightarrow> 'n ipnet_lib \<Rightarrow> ('q, 'n) phylax_quarantine \<Rightarrow> u64 \<Rightarrow> string list \<Rightarrow> 'q daemon \<Rightarrow>
     string list \<times> 'q daemon" where
  "unban_each E N A now_ms [] d = ([], d)"
| "unban_each E N A now_ms (target # ts) d =
     (let (mem_unbanned, q) = aq_unban A (in_memory d) target;
          (res, db) = unban (E 0) N target ''Live IPC command'' now_ms (daemon_db d);
          here = (case res of
             Inl e \<Rightarrow> []
           | Inr cidrs \<Rightarrow> if cidrs \<noteq> [] then cidrs else if mem_unbanned then [target] else []);
          (rest, d') = unban_each (\<lambda>i. E (Suc i)) N A now_ms ts (d\<lparr>in_memory := q, daemon_db := db\<rparr>)
      in (here @ rest, d'))"

definition exec_unban ::
    "(nat \<Rightarrow> sql_engine) \<Rightarrow> 'n ipnet_lib \<Rightarrow> ('q, 'n) phylax_quarantine \<Rightarrow> string list \<Rightarrow> u64 \<Rightarrow> 'q daemon \<Rightarrow>
     ipc_response \<times> 'q daemon" where
  "exec_unban E N A targets now_ms d =
     (let (cidrs, d') = unban_each E N A now_ms targets d in (Unbanned (length cidrs) cidrs, d'))"

text \<open>The dispatch of a request in the connection handler.\<close>

definition dispatch ::
    "bool \<Rightarrow> (nat \<Rightarrow> sql_engine) \<Rightarrow> 'n ipnet_lib \<Rightarrow> ('q, 'n) phylax_quarantine \<Rightarrow> ipc_request \<Rightarrow> u64 \<Rightarrow>
     'q daemon \<Rightarrow> (ipc_response \<times> 'q daemon) option" where
  "dispatch checks E N A req now_ms d =
     (case req of
        Ban targets reason duration_secs exact \<Rightarrow>
          exec_ban checks E N A targets reason duration_secs exact now_ms d
      | Unban targets \<Rightarrow> Some (exec_unban E N A targets now_ms d)
      | UnbanAll \<Rightarrow>
          (let (res, db) = unban_all (E 0) ''Live IPC unban_all command'' now_ms (daemon_db d)
           in Some (case res of Inr n \<Rightarrow> Unbanned n [] | Inl e \<Rightarrow> ErrorMessage (store_error_message e),
                    d\<lparr>in_memory := aq_unban_all A (in_memory d), daemon_db := db\<rparr>))
      | ListActive \<Rightarrow>
          Some (case get_active_bans (E 0) now_ms (daemon_db d) of
                  Inr records \<Rightarrow> ListRecords records
                | Inl e \<Rightarrow> ErrorMessage (store_error_message e), d)
      | Status \<Rightarrow>
          Some (StatusCounts (aq_active_bans_count A (in_memory d))
                  (case get_all_records (E 0) 100000 (daemon_db d) of Inr r \<Rightarrow> length r | Inl e \<Rightarrow> 0), d))"

text \<open>
  The handler of a connection: the first line of the stream or the error of reading it, and the error
  of writing the answer, if there is one. The result is the handler's, what it wrote, and the state.
\<close>

definition handle_connection ::
    "ipc_codec \<Rightarrow> bool \<Rightarrow> (nat \<Rightarrow> sql_engine) \<Rightarrow> 'n ipnet_lib \<Rightarrow> ('q, 'n) phylax_quarantine \<Rightarrow>
     string + string \<Rightarrow> string option \<Rightarrow> u64 \<Rightarrow> 'q daemon \<Rightarrow>
     ((ipc_error + unit) \<times> string \<times> 'q daemon) option" where
  "handle_connection C checks E N A first_line write_error now_ms d =
     (case first_line of
        Inl e \<Rightarrow> Some (Inl (IpcIo e), [], d)
      | Inr line \<Rightarrow>
          if length line = 0 then Some (Inr (), [], d)
          else case dec_request C line of
            Inl e \<Rightarrow> Some (Inl (Serialization e), [], d)
          | Inr req \<Rightarrow>
              do { (res, d') \<leftarrow> dispatch checks E N A req now_ms d;
                   case enc_response C res of
                     Inl e \<Rightarrow> Some (Inl (Serialization e), [], d')
                   | Inr bytes \<Rightarrow>
                       (case write_error of
                          Some e \<Rightarrow> Some (Inl (IpcIo e), [], d')
                        | None \<Rightarrow> Some (Inr (), bytes @ [CHR 0x0A], d')) })"

section \<open>The client\<close>

text \<open>\<open>read_line\<close>: up to the line feed and with it, or to the end of the stream.\<close>

definition read_line :: "string \<Rightarrow> string" where
  "read_line s = (if CHR 0x0A \<in> set s then before CHR 0x0A s @ [CHR 0x0A] else s)"

text \<open>
  A request of the client: \<open>connected\<close> is whether the socket answers, \<open>serve\<close> what comes back for the
  bytes it writes.
\<close>

definition send_request ::
    "ipc_codec \<Rightarrow> string \<Rightarrow> bool \<Rightarrow> (string \<Rightarrow> string + string) \<Rightarrow> ipc_request \<Rightarrow> ipc_error + ipc_response" where
  "send_request C sock_path connected serve req =
     (if \<not> connected then Inl (DaemonOffline sock_path)
      else case enc_request C req of
        Inl e \<Rightarrow> Inl (Serialization e)
      | Inr req_bytes \<Rightarrow>
          (case serve (req_bytes @ [CHR 0x0A]) of
             Inl e \<Rightarrow> Inl (IpcIo e)
           | Inr answer \<Rightarrow>
               (case dec_response C (read_line answer) of
                  Inl e \<Rightarrow> Inl (Serialization e)
                | Inr res \<Rightarrow> Inr res)))"

section \<open>Bans\<close>

definition resolved_targets ::
    "'n ipnet_lib \<Rightarrow> ('q, 'n) phylax_quarantine \<Rightarrow> bool \<Rightarrow> string list \<Rightarrow> ('n \<times> string) list" where
  "resolved_targets N A exact ts =
     List.map_filter (\<lambda>t. if trim t = [] then None else ban_target N A exact (trim t)) ts"

lemma resolved_targets_simps [simp]:
  "resolved_targets N A exact [] = []"
  "resolved_targets N A exact (t # ts) =
     (case (if trim t = [] then None else ban_target N A exact (trim t)) of
        None \<Rightarrow> [] | Some nt \<Rightarrow> [nt]) @ resolved_targets N A exact ts"
  by (simp_all add: resolved_targets_def List.map_filter_simps split: option.split)

lemma ban_targets_cidrs:
  "fst (ban_targets E N A reason now e exact ts d) = map (net_show N \<circ> fst) (resolved_targets N A exact ts)"
proof (induction ts arbitrary: E d)
  case (Cons t ts)
  then show ?case
    by (auto simp: Let_def operator_record_def case_prod_unfold split: option.split)
qed simp

lemma ban_targets_memory:
  "in_memory (snd (ban_targets E N A reason now e exact ts d)) =
     foldl (\<lambda>q nt. aq_add_ban A q (fst nt) e) (in_memory d) (resolved_targets N A exact ts)"
proof (induction ts arbitrary: E d)
  case (Cons t ts)
  then show ?case by (auto simp: Let_def case_prod_unfold split: option.split)
qed simp

lemma operator_record_fields [simp]:
  "qr_cidr (operator_record N reason now e nt) = net_show N (fst nt)"
  "qr_active (operator_record N reason now e nt)"
  "qr_quarantined_at (operator_record N reason now e nt) = now"
  "qr_expires_at (operator_record N reason now e nt) = e"
  by (simp_all add: operator_record_def)

lemma ban_targets_inv:
  "store_inv (daemon_db d) \<Longrightarrow> store_inv (daemon_db (snd (ban_targets E N A reason now e exact ts d)))"
proof (induction ts arbitrary: E d)
  case (Cons t ts)
  then show ?case
    by (auto simp: Let_def case_prod_unfold store_inv_record_ban split: option.split)
qed simp

lemma ban_targets_set:
  assumes "\<forall>i. engine_works (E i)" "unat now < 2 ^ 63" "unat e < 2 ^ 63" "store_inv (daemon_db d)"
  shows "active_set (daemon_db (snd (ban_targets E N A reason now e exact ts d))) =
    active_set (daemon_db d) \<union> set (map (net_show N \<circ> fst) (resolved_targets N A exact ts))"
  using assms(1,4)
proof (induction ts arbitrary: E d)
  case (Cons t ts)
  have ban: "store_inv (snd (record_ban (E 0) (operator_record N reason now e nt) (daemon_db d)))"
    "active_set (snd (record_ban (E 0) (operator_record N reason now e nt) (daemon_db d))) =
       insert (net_show N (fst nt)) (active_set (daemon_db d))" for nt
    using store.ban_ok [of "daemon_db d" "(E 0, operator_record N reason now e nt)"]
      store.ban_bans [of "daemon_db d" "(E 0, operator_record N reason now e nt)"] Cons.prems assms(2,3)
    by simp_all
  show ?case
    using Cons.IH [of "\<lambda>i. E (Suc i)"] Cons.prems ban
    by (auto simp: Let_def case_prod_unfold split: option.split)
qed simp

lemma fold_bans_expiry:
  "memory_law A expiry \<Longrightarrow>
     expiry (foldl (\<lambda>q nt. aq_add_ban A q (fst nt) e) q nts) n =
       (if n \<in> fst ` set nts then Some e else expiry q n)"
  by (induction nts arbitrary: q) (auto simp: memory_law_def)

text \<open>
  C38: an operator's ban over the control socket. When the expiry does not overflow, every target that
  names a network is banned in memory until that expiry; the answer lists these networks in the order
  of the targets; with a working store they are added to the stored networks, and no other. The
  store's invariant holds even when statements fail.
\<close>

theorem exec_ban_bans:
  fixes ms e :: u64
  assumes "unat ms = unat secs * 1000" "unat e = unat now_ms + unat ms"
    and "store_inv (daemon_db d)" "memory_law A expiry"
  shows "\<exists>cidrs d'. exec_ban checks E N A targets reason (Some secs) exact now_ms d =
        Some (Banned (length cidrs) cidrs, d') \<and>
      cidrs = map (net_show N \<circ> fst) (resolved_targets N A exact targets) \<and>
      store_inv (daemon_db d') \<and>
      (\<forall>net. expiry (in_memory d') net =
         (if net \<in> fst ` set (resolved_targets N A exact targets) then Some e else expiry (in_memory d) net)) \<and>
      ((\<forall>i. engine_works (E i)) \<longrightarrow> unat e < 2 ^ 63 \<longrightarrow>
         active_set (daemon_db d') = active_set (daemon_db d) \<union> set cidrs)"
proof -
  have "mul_u64 checks secs 1000 = Some ms" "add_u64 checks now_ms ms = Some e"
    using assms(1,2) by (simp_all add: mul_u64_ok add_u64_ok)
  moreover define why where "why = (case reason of Some r \<Rightarrow> r | None \<Rightarrow> ''Manual operator ban'')"
  moreover obtain cidrs d' where r: "ban_targets E N A why now_ms e exact targets d = (cidrs, d')"
    by fastforce
  ultimately have res: "exec_ban checks E N A targets reason (Some secs) exact now_ms d =
      Some (Banned (length cidrs) cidrs, d')"
    by (simp add: exec_ban_def)
  have "cidrs = map (net_show N \<circ> fst) (resolved_targets N A exact targets)"
    using ban_targets_cidrs [of E N A why now_ms e exact targets d] by (simp add: r)
  moreover have "store_inv (daemon_db d')"
    using ban_targets_inv [OF assms(3), of E N A why now_ms e exact targets] by (simp add: r)
  moreover have "expiry (in_memory d') net =
      (if net \<in> fst ` set (resolved_targets N A exact targets) then Some e else expiry (in_memory d) net)" for net
    using ban_targets_memory [of E N A why now_ms e exact targets d]
    by (simp add: r fold_bans_expiry [OF assms(4)])
  moreover have "active_set (daemon_db d') = active_set (daemon_db d) \<union> set cidrs"
    if "\<forall>i. engine_works (E i)" "unat e < 2 ^ 63"
  proof -
    have "unat now_ms < 2 ^ 63" using assms(2) that(2) by simp
    with ban_targets_set [OF that(1) _ that(2) assms(3), of now_ms N A why exact targets] show ?thesis
      using ban_targets_cidrs [of E N A why now_ms e exact targets d] by (simp add: r)
  qed
  ultimately show ?thesis using res by blast
qed

theorem exec_ban_bans_witness:
  "\<exists>d'. exec_ban True (\<lambda>_. plain_engine) cidr_lib list_quarantine [''198.51.100.7''] None (Some 60) True 1000
        (new_manager [] empty_db []) = Some (Banned 1 [''198.51.100.7/32''], d') \<and>
     active_set (daemon_db d') = {''198.51.100.7/32''}"
proof -
  have "resolved_targets cidr_lib list_quarantine True [''198.51.100.7''] =
      [((V4 198 51 100 7, 32), ''198.51.100.7'')]"
    by code_simp
  moreover have "show_ip (V4 198 51 100 7) @ ''/'' @ show_nat 32 = ''198.51.100.7/32''"
    by code_simp
  ultimately show ?thesis
    using exec_ban_bans [of 60000 60 61000 1000 "new_manager [] empty_db []" list_quarantine map_of True
        "\<lambda>_. plain_engine" cidr_lib "[''198.51.100.7'']" None True]
    by (simp add: list_quarantine_law new_manager_def store_inv_empty cidr_lib_def) blast
qed

section \<open>The dispatcher\<close>

lemma unban_each_inv:
  "\<forall>i. engine_laws (E i) \<Longrightarrow> store_inv (daemon_db d) \<Longrightarrow>
     store_inv (daemon_db (snd (unban_each E N A now ts d)))"
proof (induction ts arbitrary: E d)
  case (Cons t ts)
  obtain b q where q: "aq_unban A (in_memory d) t = (b, q)" by fastforce
  obtain r db where u: "unban (E 0) N t ''Live IPC command'' now (daemon_db d) = (r, db)" by fastforce
  have "store_inv db"
    using store_inv_unban [OF Cons.prems(2), of "E 0" N t "''Live IPC command''" now] Cons.prems(1) u by simp
  with Cons.IH [of "\<lambda>i. E (Suc i)" "d\<lparr>in_memory := q, daemon_db := db\<rparr>"] Cons.prems(1) show ?case
    by (simp add: q u case_prod_unfold Let_def)
qed simp

lemma exec_ban_shape:
  "exec_ban checks E N A targets reason dur exact now d = Some (res, d') \<Longrightarrow>
     \<exists>why e. d' = snd (ban_targets E N A why now e exact targets d)"
  unfolding exec_ban_def bind_eq_Some_conv case_prod_unfold Let_def option.inject prod.inject by blast

lemma dispatch_inv:
  assumes "store_inv (daemon_db d)" "\<forall>i. engine_laws (E i)"
    and "dispatch checks E N A req now d = Some (res, d')"
  shows "store_inv (daemon_db d')"
proof (cases req)
  case (Ban ts reason dur exact)
  then have "exec_ban checks E N A ts reason dur exact now d = Some (res, d')"
    using assms(3) by (simp add: dispatch_def)
  then show ?thesis using exec_ban_shape ban_targets_inv [OF assms(1)] by metis
next
  case (Unban ts)
  then have "d' = snd (unban_each E N A now ts d)"
    using assms(3) by (auto simp: dispatch_def exec_unban_def split: prod.splits)
  with unban_each_inv [OF assms(2,1)] show ?thesis by simp
next
  case UnbanAll
  then have "daemon_db d' = snd (unban_all (E 0) ''Live IPC unban_all command'' now (daemon_db d))"
    using assms(3) by (auto simp: dispatch_def split: prod.splits)
  with store_inv_unban_all [OF assms(1), of "E 0"] assms(2) show ?thesis by simp
qed (use assms in \<open>auto simp: dispatch_def\<close>)

text \<open>The requests of a session, each with its engines and its time; one that panics changes nothing.\<close>

fun serve_all ::
    "bool \<Rightarrow> 'n ipnet_lib \<Rightarrow> ('q, 'n) phylax_quarantine \<Rightarrow> ((nat \<Rightarrow> sql_engine) \<times> ipc_request \<times> u64) list \<Rightarrow>
     'q daemon \<Rightarrow> 'q daemon" where
  "serve_all checks N A [] d = d"
| "serve_all checks N A ((E, req, now) # reqs) d =
     serve_all checks N A reqs (case dispatch checks E N A req now d of Some (_, d') \<Rightarrow> d' | None \<Rightarrow> d)"

text \<open>
  The control plane preserves the store's invariant: after any sequence of requests, with
  statements failing anywhere and expiries overflowing, the tables and the audit log are consistent.
\<close>

theorem control_plane_invariant:
  assumes "store_inv (daemon_db d)" "\<forall>(E, req, now) \<in> set reqs. \<forall>i. engine_laws (E i)"
  shows "store_inv (daemon_db (serve_all checks N A reqs d))"
  using assms
proof (induction reqs arbitrary: d)
  case (Cons x reqs)
  obtain E req now where x: "x = (E, req, now)" by (cases x) auto
  have "store_inv (daemon_db (case dispatch checks E N A req now d of Some (_, d') \<Rightarrow> d' | None \<Rightarrow> d))"
    using Cons.prems dispatch_inv [OF Cons.prems(1), of E checks N A req now]
    by (auto simp: x split: option.split)
  with Cons show ?case by (simp add: x)
qed simp

theorem control_plane_invariant_witness:
  "store_inv (daemon_db (serve_all True cidr_lib list_quarantine
     [(\<lambda>_. plain_engine, Ban [''198.51.100.7''] None None False, 1000), (\<lambda>_. plain_engine, UnbanAll, 2000)]
     (new_manager [] empty_db [])))"
  by (rule control_plane_invariant) (simp_all add: new_manager_def store_inv_empty)

text \<open>
  The two ends together: \<open>IpcClient::send_request\<close> on a socket whose other end is \<open>handle_connection\<close> of
  the daemon. No function of the source is this composition; it is what a command that finds the daemon
  running sets off. It gives what the client reads back, and the daemon's state after. A handler that panics
  closes the connection, and the client reads an empty line.
\<close>

definition remote_call ::
    "ipc_codec \<Rightarrow> bool \<Rightarrow> (nat \<Rightarrow> sql_engine) \<Rightarrow> 'n ipnet_lib \<Rightarrow> ('q, 'n) phylax_quarantine \<Rightarrow> string \<Rightarrow>
     ipc_request \<Rightarrow> u64 \<Rightarrow> 'q daemon \<Rightarrow> (ipc_error + ipc_response) \<times> 'q daemon" where
  "remote_call C checks E N A sock_path req now_ms d =
     (let serve = (\<lambda>bytes. handle_connection C checks E N A (Inr (read_line bytes)) None now_ms d)
      in (send_request C sock_path True
            (\<lambda>bytes. case serve bytes of Some (_, out, _) \<Rightarrow> Inr out | None \<Rightarrow> Inr []) req,
          case enc_request C req of
            Inl _ \<Rightarrow> d
          | Inr b \<Rightarrow> (case serve (b @ [CHR 0x0A]) of Some (_, _, d') \<Rightarrow> d' | None \<Rightarrow> d)))"

text \<open>What the protocol needs of the codec: one line per message, read back as it was written.\<close>

definition carries_request :: "ipc_codec \<Rightarrow> ipc_request \<Rightarrow> bool" where
  "carries_request C req \<longleftrightarrow>
     (\<exists>b. enc_request C req = Inr b \<and> CHR 0x0A \<notin> set b \<and> dec_request C (b @ [CHR 0x0A]) = Inr req)"

definition carries_response :: "ipc_codec \<Rightarrow> ipc_response \<Rightarrow> bool" where
  "carries_response C res \<longleftrightarrow>
     (\<exists>b. enc_response C res = Inr b \<and> CHR 0x0A \<notin> set b \<and> dec_response C (b @ [CHR 0x0A]) = Inr res)"

lemma read_line_message: "CHR 0x0A \<notin> set b \<Longrightarrow> read_line (b @ [CHR 0x0A]) = b @ [CHR 0x0A]"
  by (simp add: read_line_def before_def takeWhile_append)

lemma remote_call_eq:
  assumes "dispatch checks E N A req now d = Some (res, d')"
    and "carries_request C req" "carries_response C res"
  shows "remote_call C checks E N A sock_path req now d = (Inr res, d')"
proof -
  obtain b where b: "enc_request C req = Inr b" "CHR 0x0A \<notin> set b" "dec_request C (b @ [CHR 0x0A]) = Inr req"
    using assms(2) by (auto simp: carries_request_def)
  obtain c where c: "enc_response C res = Inr c" "CHR 0x0A \<notin> set c" "dec_response C (c @ [CHR 0x0A]) = Inr res"
    using assms(3) by (auto simp: carries_response_def)
  have "handle_connection C checks E N A (Inr (b @ [CHR 0x0A])) None now d = Some (Inr (), c @ [CHR 0x0A], d')"
    by (simp add: handle_connection_def b(3) assms(1) c(1))
  then show ?thesis
    by (simp add: remote_call_def send_request_def b(1) c(3) read_line_message [OF b(2)] read_line_message [OF c(2)])
qed

end
