(* ===== verification/Cli_Parsers.thy ===== *)
theory Cli_Parsers
  imports Ipc
begin

text \<open>
  The parsers of the quarantine command line (\<open>src/quarantine/cli/parsers.rs\<close>): durations, targets,
  exclusions and the addresses of a log line. Unicode's lower case of a text that is not ASCII is a
  parameter.
\<close>

section \<open>Durations\<close>

definition to_lowercase :: "(string \<Rightarrow> string) \<Rightarrow> string \<Rightarrow> string" where
  "to_lowercase unicode s = (if list_all is_ascii s then lower s else unicode s)"

definition duration_multiplier :: "string \<Rightarrow> u64 option" where
  "duration_multiplier s =
     (if ends_with s ''s'' then Some 1
      else if ends_with s ''m'' then Some 60
      else if ends_with s ''h'' then Some 3600
      else if ends_with s ''d'' then Some 86400
      else if ends_with s ''w'' then Some (7 * 86400)
      else None)"

definition quoted :: "string \<Rightarrow> string" where
  "quoted s = [CHR 0x27] @ s @ [CHR 0x27]"

text \<open>\<^term>\<open>None\<close>: the product overflows in a build with overflow checks.\<close>

definition parse_duration_str :: "(string \<Rightarrow> string) \<Rightarrow> bool \<Rightarrow> string \<Rightarrow> (string + u64) option" where
  "parse_duration_str unicode checks text =
     (let s = to_lowercase unicode (trim text) in
      if s = [] then Some (Inr 86400)
      else case parse_u64 s of
        Some num \<Rightarrow> Some (Inr num)
      | None \<Rightarrow>
          (case duration_multiplier s of
             None \<Rightarrow> Some (Inl (''Unrecognized duration format: '' @ quoted s))
           | Some multiplier \<Rightarrow>
               (case parse_u64 (butlast s) of
                  None \<Rightarrow> Some (Inl (''Invalid duration number: '' @ quoted (butlast s)))
                | Some num \<Rightarrow> map_option Inr (mul_u64 checks num multiplier))))"

section \<open>Targets and exclusions\<close>

definition resolve_target_cidr ::
    "'n ipnet_lib \<Rightarrow> ('q, 'n) phylax_quarantine \<Rightarrow> string \<Rightarrow> bool \<Rightarrow> ('n \<times> string) option" where
  "resolve_target_cidr N A text exact =
     (let target = trim text in
      if target = [] then None
      else if contains target ''/''
      then do { net \<leftarrow> net_parse N target; Some (net, target) }
      else if exact
      then do { addr \<leftarrow> parse_ip target;
                net \<leftarrow> net_new N addr (if is_ipv4 addr then 32 else 128);
                Some (net, target) }
      else do { cidr_str \<leftarrow> aq_derive_quarantine_cidr A target;
                net \<leftarrow> net_parse N cidr_str;
                Some (net, target) })"

fun is_excluded :: "'n ipnet_lib \<Rightarrow> ip_addr \<Rightarrow> string list \<Rightarrow> bool" where
  "is_excluded N addr [] = False"
| "is_excluded N addr (text # excludes) =
     (let ex = trim text in
      if ex = [] then is_excluded N addr excludes
      else case net_parse N ex of
        Some net \<Rightarrow> if net_contains N net addr then True else is_excluded N addr excludes
      | None \<Rightarrow>
          (case parse_ip ex of
             Some ex_addr \<Rightarrow> if ex_addr = addr then True else is_excluded N addr excludes
           | None \<Rightarrow> is_excluded N addr excludes))"

section \<open>Log lines\<close>

definition names_network :: "'n ipnet_lib \<Rightarrow> string \<Rightarrow> bool" where
  "names_network N s \<longleftrightarrow> parse_ip s \<noteq> None \<or> net_parse N s \<noteq> None"

definition keyed_value :: "string \<Rightarrow> string option" where
  "keyed_value part =
     (case strip_prefix ''ip='' part of
        Some val \<Rightarrow> Some val
      | None \<Rightarrow> strip_prefix ''ip:'' part)"

definition keyed_address :: "'n ipnet_lib \<Rightarrow> string \<Rightarrow> string option" where
  "keyed_address N text =
     (case keyed_value (trim text) of
        None \<Rightarrow> None
      | Some val \<Rightarrow>
          (let cleaned = trim_matches (\<lambda>c. c \<in> {CHR 0x22, CHR 0x27, CHR ''['', CHR '']''}) val
           in if names_network N cleaned then Some cleaned else None))"

definition token_address :: "'n ipnet_lib \<Rightarrow> string \<Rightarrow> string option" where
  "token_address N token =
     (let cleaned = trim_matches (\<lambda>c. c \<in> {CHR 0x22, CHR 0x27, CHR '','', CHR '';'', CHR ''['', CHR '']''}) token
      in if names_network N cleaned then Some cleaned else None)"

definition part_separator :: "char \<Rightarrow> bool" where
  "part_separator c \<longleftrightarrow> c \<in> {CHR '' '', CHR '','', CHR '';'', CHR 0x09}"

definition extract_ips_from_line :: "'n ipnet_lib \<Rightarrow> string \<Rightarrow> string list" where
  "extract_ips_from_line N line =
     (let trimmed = trim line in
      if trimmed = [] \<or> starts_with trimmed ''#'' then []
      else
        (let ips = (if contains trimmed ''ip='' \<or> contains trimmed ''ip:''
                    then List.map_filter (keyed_address N)
                           (split_by part_separator trimmed)
                    else [])
         in if ips = [] then List.map_filter (token_address N) (split_whitespace trimmed) else ips))"

text \<open>The addresses of a log line that are not excluded, as the ingestion collects them.\<close>

definition eligible :: "'n ipnet_lib \<Rightarrow> string list \<Rightarrow> string \<Rightarrow> bool" where
  "eligible N exclude ip_str =
     (case parse_ip ip_str of
        Some addr \<Rightarrow> \<not> is_excluded N addr exclude
      | None \<Rightarrow>
          (case net_parse N ip_str of
             Some net \<Rightarrow> \<not> is_excluded N (net_addr N net) exclude
           | None \<Rightarrow> False))"

definition ingest_targets :: "'n ipnet_lib \<Rightarrow> string list \<Rightarrow> string list \<Rightarrow> string list" where
  "ingest_targets N exclude lines =
     remdups (concat (map (\<lambda>line. filter (eligible N exclude) (extract_ips_from_line N line)) lines))"

section \<open>What they accept\<close>

lemma parse_u64_word_unit:
  assumes "\<not> is_digit u" "u \<noteq> CHR ''+''"
  shows "parse_u64 (show_word (n :: u64) @ [u]) = None"
  by (rule parse_u64_None) (use assms in auto)

lemma lower_digits: "list_all is_digit s \<Longrightarrow> lower s = s"
  by (induction s) (auto simp: lower_Cons lower_byte_def is_digit_def)

definition duration_units :: "(char \<times> u64) list" where
  "duration_units =
     [(CHR ''s'', 1), (CHR ''m'', 60), (CHR ''h'', 3600), (CHR ''d'', 86400), (CHR ''w'', 604800)]"

lemma unit_props:
  assumes "(u, m) \<in> set duration_units"
  shows "is_ascii u" "\<not> ascii_ws u" "\<not> is_digit u" "u \<noteq> CHR ''+''" "lower_byte u = u"
    and "duration_multiplier (s @ [u]) = Some m"
  using assms
  by (auto simp: duration_units_def is_ascii_def ascii_ws_def is_digit_def ord_def lower_byte_def
      duration_multiplier_def ends_with_def suffix_def)

lemma duration_number [simp]: "parse_duration_str U checks (show_word n) = Some (Inr n)"
  by (simp add: parse_duration_str_def to_lowercase_def show_word_ascii lower_digits show_word_digits)

lemma duration_empty: "list_all is_ascii s \<Longrightarrow> \<forall>b \<in> set s. ascii_ws b \<Longrightarrow> parse_duration_str U checks s = Some (Inr 86400)"
proof -
  assume s: "list_all is_ascii s" "\<forall>b \<in> set s. ascii_ws b"
  then have "trim s = []"
    by (auto simp: trim_ascii strip_by_def dest: set_dropWhileD)
  then show ?thesis by (simp add: parse_duration_str_def to_lowercase_def)
qed

lemma duration_unit:
  assumes "(u, m) \<in> set duration_units"
  shows "parse_duration_str U checks (show_word n @ [u]) = map_option Inr (mul_u64 checks n m)"
proof -
  note u = unit_props [OF assms]
  have a: "list_all is_ascii (show_word n @ [u])"
    using show_word_ascii [of n] u(1) by simp
  have "trim (show_word n @ [u]) = show_word n @ [u]"
    using a show_word_digits [of n] u(2) by (intro trim_no_ws) (auto simp: list_all_iff digit_props)
  moreover have "lower (show_word n @ [u]) = show_word n @ [u]"
    using lower_digits [OF show_word_digits [of n]] u(5) by (simp add: lower_append lower_Cons)
  ultimately show ?thesis
    using a by (simp add: parse_duration_str_def to_lowercase_def parse_u64_word_unit [OF u(3,4)] u(6))
qed

text \<open>
  C40: the duration grammar. A number with a unit is the number of seconds it names; a plain number is
  seconds, so a printed duration reads back; an empty text is a day. The one panic is a product of
  \<open>2^64\<close> or more in a build with overflow checks; a build without them wraps around.
\<close>

theorem duration_grammar:
  assumes "(u, m) \<in> set duration_units"
  shows "parse_duration_str U checks (show_word n) = Some (Inr n) \<and>
    parse_duration_str U checks [] = Some (Inr 86400) \<and>
    parse_duration_str U checks (show_word n @ [u]) =
      (if unat n * unat m < 2 ^ 64 then Some (Inr (of_nat (unat n * unat m)))
       else if checks then None else Some (Inr (n * m)))"
  by (simp add: duration_unit [OF assms] mul_u64_def duration_empty)

theorem duration_grammar_witness:
  "parse_duration_str (\<lambda>s. s) True ''24h'' = Some (Inr 86400) \<and>
   parse_duration_str (\<lambda>s. s) True ''30500568904944w'' = None"
proof -
  have "show_word (24 :: u64) = ''24''" "show_word (30500568904944 :: u64) = ''30500568904944''"
    by code_simp+
  then show ?thesis
    using duration_grammar [of "CHR ''h''" 3600 "\<lambda>s. s" True 24]
      duration_grammar [of "CHR ''w''" 604800 "\<lambda>s. s" True 30500568904944]
    by (simp add: duration_units_def)
qed

section \<open>What an exclusion covers\<close>

definition exclusion_covers :: "'n ipnet_lib \<Rightarrow> string \<Rightarrow> ip_addr \<Rightarrow> bool" where
  "exclusion_covers N ex addr \<longleftrightarrow>
     trim ex \<noteq> [] \<and>
     (case net_parse N (trim ex) of
        Some net \<Rightarrow> net_contains N net addr
      | None \<Rightarrow> parse_ip (trim ex) = Some addr)"

lemma is_excluded_iff: "is_excluded N addr excludes \<longleftrightarrow> (\<exists>ex \<in> set excludes. exclusion_covers N ex addr)"
  by (induction excludes) (auto simp: exclusion_covers_def Let_def split: option.split)

lemma split_chars_single:
  "split_chars P (map (\<lambda>b. [b]) s) = map (map (\<lambda>b. [b])) (split_by (\<lambda>b. P [b]) s)"
proof (induction s)
  case (Cons b s)
  obtain w ws where "split_by (\<lambda>b. P [b]) s = w # ws" by (cases "split_by (\<lambda>b. P [b]) s") auto
  with Cons show ?case by simp
qed simp

lemma split_whitespace_ascii:
  "list_all is_ascii s \<Longrightarrow> split_whitespace s = filter (\<lambda>w. w \<noteq> []) (split_by ascii_ws s)"
  by (simp add: split_whitespace_def chars_ascii split_chars_single is_whitespace_single filter_map comp_def)

lemma split_by_join:
  "ws \<noteq> [] \<Longrightarrow> \<forall>w \<in> set ws. \<forall>b \<in> set w. \<not> P b \<Longrightarrow> P c \<Longrightarrow> split_by P (join [c] ws) = ws"
proof (induction ws)
  case (Cons w ws)
  show ?case
  proof (cases "ws = []")
    case True
    with Cons.prems show ?thesis by (simp add: split_by_none)
  next
    case False
    with Cons show ?thesis by (simp add: join_Cons split_by_append_sep)
  qed
qed simp

section \<open>Log lines of fields\<close>

text \<open>A field: printable, and no separator or comment sign in it.\<close>

definition field :: "string \<Rightarrow> bool" where
  "field w \<longleftrightarrow> w \<noteq> [] \<and> (\<forall>b \<in> set w. is_ascii b \<and> \<not> ascii_ws b \<and> b \<notin> {CHR '','', CHR '';'', CHR ''#''})"

lemma join_set: "b \<in> set (join [c] ws) \<Longrightarrow> b = c \<or> (\<exists>w \<in> set ws. b \<in> set w)"
proof (induction ws)
  case (Cons w ws)
  then show ?case by (cases "ws = []") (auto simp: join_Cons)
qed simp

lemma sublist_join: "w \<in> set ws \<Longrightarrow> sublist w (join [c] ws)"
proof (induction ws)
  case (Cons v ws)
  show ?case
  proof (cases "ws = []")
    case False
    with Cons consider "w = v" | "sublist w (join [c] ws)" by auto
    then show ?thesis
    proof cases
      case 1
      with False show ?thesis by (auto simp: join_Cons sublist_def)
    next
      case 2
      then obtain p q where "join [c] ws = p @ w @ q" by (auto simp: sublist_def)
      then have "join [c] (v # ws) = (v @ [c] @ p) @ w @ q" using False by (simp add: join_Cons)
      then show ?thesis unfolding sublist_def by blast
    qed
  qed (use Cons in auto)
qed simp

lemma field_props:
  assumes "field w"
  shows "list_all is_ascii w" "\<forall>b \<in> set w. \<not> ascii_ws b" "trim w = w"
    "\<forall>b \<in> set w. \<not> part_separator b"
proof -
  show a: "list_all is_ascii w" and b: "\<forall>b \<in> set w. \<not> ascii_ws b"
    using assms by (auto simp: field_def list_all_iff)
  then show "trim w = w" by (rule trim_no_ws)
  have "ascii_ws CHR '' ''" "ascii_ws CHR 0x09" by (simp_all add: ascii_ws_def ord_def)
  with assms show "\<forall>b \<in> set w. \<not> part_separator b"
    by (auto simp: field_def part_separator_def)
qed

lemma fields_line:
  assumes "ws \<noteq> []" "list_all field ws"
  shows "list_all is_ascii (join [CHR '' ''] ws)" "trim (join [CHR '' ''] ws) = join [CHR '' ''] ws"
    "join [CHR '' ''] ws \<noteq> []" "\<not> starts_with (join [CHR '' ''] ws) ''#''"
proof -
  have sp: "ascii_ws CHR '' ''" "is_ascii CHR '' ''" by (simp_all add: ascii_ws_def is_ascii_def ord_def)
  show a: "list_all is_ascii (join [CHR '' ''] ws)"
    using assms(2) sp(2) by (auto simp: list_all_iff dest!: join_set) (auto simp: field_def)
  obtain w ws' where ws: "ws = w # ws'" using assms(1) by (cases ws) auto
  then obtain b w' where w: "w = b # w'" using assms(2) by (cases w) (auto simp: field_def)
  obtain vs v where vs: "ws = vs @ [v]" using assms(1) by (cases ws rule: rev_cases) auto
  then obtain v' e where v: "v = v' @ [e]" using assms(2) by (cases v rule: rev_cases) (auto simp: field_def)
  have hd: "\<exists>r. join [CHR '' ''] ws = b # r"
    by (cases "ws' = []") (simp_all add: ws w join_Cons)
  have lst: "\<exists>r. join [CHR '' ''] ws = r @ [e]"
    unfolding vs v
  proof (induction vs)
    case (Cons u vs)
    then obtain r where "join [CHR '' ''] (vs @ [v' @ [e]]) = r @ [e]" by blast
    then have "join [CHR '' ''] ((u # vs) @ [v' @ [e]]) = (u @ [CHR '' ''] @ r) @ [e]"
      by (simp add: join_Cons)
    then show ?case by blast
  qed simp
  have "field w" using assms(2) ws by simp
  then have b: "\<not> ascii_ws b" "b \<noteq> CHR ''#''" by (auto simp: field_def w)
  have "field v" using assms(2) vs by simp
  then have e: "\<not> ascii_ws e" by (auto simp: field_def v)
  have "hd (join [CHR '' ''] ws) = b" using hd by auto
  moreover have "last (join [CHR '' ''] ws) = e" using lst by auto
  ultimately show "trim (join [CHR '' ''] ws) = join [CHR '' ''] ws"
    unfolding trim_ascii [OF a] using b(1) e by (intro strip_by_id) simp
  show "join [CHR '' ''] ws \<noteq> []" using hd by auto
  show "\<not> starts_with (join [CHR '' ''] ws) ''#''"
    using hd b(2) by (auto simp: starts_with_def)
qed

lemma keyed_present:
  assumes "w \<in> set ws" "keyed_address N w = Some a" "trim w = w"
  shows "contains (join [c] ws) ''ip='' \<or> contains (join [c] ws) ''ip:''"
proof -
  obtain v where "keyed_value w = Some v"
    using assms(2,3) by (auto simp: keyed_address_def split: option.splits)
  then have "prefix ''ip='' w \<or> prefix ''ip:'' w"
    by (auto simp: keyed_value_def strip_prefix_def split: option.splits if_splits)
  with sublist_join [OF assms(1), of c] show ?thesis
    unfolding contains_iff_sublist
    by (meson prefix_imp_sublist sublist_order.order_trans)
qed

lemma trim_hash: "\<exists>r. trim (CHR ''#'' # s) = CHR ''#'' # r"
proof -
  have h: "\<not> is_whitespace ''#''" "utf8_len CHR ''#'' = 1"
    by (simp_all add: is_whitespace_single ascii_ws_def utf8_len_def ord_def)
  have "strip_by is_whitespace (''#'' # chars s) = rev (dropWhile is_whitespace (rev (''#'' # chars s)))"
    using h(1) by (simp add: strip_by_def)
  also have "\<exists>cs. \<dots> = ''#'' # cs" unfolding rstrip_Cons using h(1) by auto
  finally show ?thesis using h(2) by (auto simp: trim_def)
qed

text \<open>
  Reading a log line of blank-separated fields. The fields \<open>ip=A\<close> and \<open>ip:A\<close> whose value, out of
  its quotes and brackets, is an address or a network give the values; only a line with no such field
  is searched for bare addresses, and then every field that is one is found. A comment gives nothing.
\<close>

theorem log_line_fields:
  assumes "ws \<noteq> []" "list_all field ws"
  shows "extract_ips_from_line N (join [CHR '' ''] ws) =
      (if List.map_filter (keyed_address N) ws = [] then List.map_filter (token_address N) ws
       else List.map_filter (keyed_address N) ws) \<and>
    extract_ips_from_line N (CHR ''#'' # s) = []"
proof -
  let ?line = "join [CHR '' ''] ws"
  note l = fields_line [OF assms]
  have f: "w \<in> set ws \<Longrightarrow> field w" for w using assms(2) by (simp add: list_all_iff)
  have parts: "split_by part_separator ?line = ws"
    by (rule split_by_join [OF assms(1)]) (use field_props(4) [OF f] in \<open>auto simp: part_separator_def\<close>)
  have "split_by ascii_ws ?line = ws"
    by (rule split_by_join [OF assms(1)]) (use field_props(2) [OF f] in \<open>auto simp: ascii_ws_def ord_def\<close>)
  moreover have "\<forall>w \<in> set ws. w \<noteq> []" using f by (auto simp: field_def)
  ultimately have tokens: "split_whitespace ?line = ws"
    by (simp add: split_whitespace_ascii [OF l(1)])
  have none: "List.map_filter (keyed_address N) ws = []"
    if "\<not> contains ?line ''ip=''" "\<not> contains ?line ''ip:''"
    using keyed_present [of _ ws N _ "CHR '' ''"] field_props(3) [OF f] that
    by (fastforce simp: List.map_filter_def filter_empty_conv)
  have "trim (CHR ''#'' # s) \<noteq> [] \<and> starts_with (trim (CHR ''#'' # s)) ''#''"
    using trim_hash [of s] by (auto simp: starts_with_def)
  then show ?thesis
    using none l(2-4) by (auto simp: extract_ips_from_line_def Let_def parts tokens)
qed

theorem log_line_fields_witness:
  "extract_ips_from_line cidr_lib ''denied ip=[::1] 10.0.0.9'' = [''::1''] \<and>
   extract_ips_from_line cidr_lib ''denied 10.0.0.9 10.0.0.0/8'' = [''10.0.0.9'', ''10.0.0.0/8'']"
proof -
  have "list_all field [''denied'', ''ip=[::1]'', ''10.0.0.9'']" "list_all field [''denied'', ''10.0.0.9'', ''10.0.0.0/8'']"
    by (simp_all add: field_def is_ascii_def ascii_ws_def ord_def)
  moreover have "List.map_filter (keyed_address cidr_lib) [''denied'', ''ip=[::1]'', ''10.0.0.9''] = [''::1'']"
    "List.map_filter (keyed_address cidr_lib) [''denied'', ''10.0.0.9'', ''10.0.0.0/8''] = []"
    "List.map_filter (token_address cidr_lib) [''denied'', ''10.0.0.9'', ''10.0.0.0/8''] = [''10.0.0.9'', ''10.0.0.0/8'']"
    by code_simp+
  ultimately show ?thesis
    using log_line_fields [of "[''denied'', ''ip=[::1]'', ''10.0.0.9'']" cidr_lib "[]"]
      log_line_fields [of "[''denied'', ''10.0.0.9'', ''10.0.0.0/8'']" cidr_lib "[]"]
    by simp
qed

section \<open>Sound ingestion\<close>

lemma eligible_not_covered:
  "eligible N exclude s \<Longrightarrow> parse_ip s = Some addr \<Longrightarrow> ex \<in> set exclude \<Longrightarrow> \<not> exclusion_covers N ex addr"
  by (auto simp: eligible_def is_excluded_iff)

lemma map_filter_named: "s \<in> set (List.map_filter (token_address N) ts) \<Longrightarrow> names_network N s"
  "s \<in> set (List.map_filter (keyed_address N) ts) \<Longrightarrow> names_network N s"
  by (auto simp: set_map_filter token_address_def keyed_address_def Let_def split: option.splits if_splits)

lemma extracted_named: "s \<in> set (extract_ips_from_line N line) \<Longrightarrow> names_network N s"
  using map_filter_named by (auto simp: extract_ips_from_line_def Let_def split: if_splits)

end
