(* ===== verification/Export_Text.thy ===== *)
theory Export_Text
  imports Rust_Str
begin

text \<open>
  The literal texts of \<open>src/quarantine/export/html.rs\<close>: the style sheet, the page and the table row,
  with the named arguments of the two formats as records. A line feed joins the lines of a raw
  string; bytes that have no place in a string literal are written as codes.
\<close>

definition html_styles :: string where
  \<open>html_styles =
     join [CHR 0x0A]
       [[],
        '':root {'',
        ''    --bg-base: #0a0e14; --bg-surface: #121820; --bg-card: #1a222d;'',
        ''    --border: #263242; --text-main: #e6edf3; --text-muted: #8b949e;'',
        ''    --accent-cyan: #00ffcc; --accent-red: #ff3366; --accent-orange: #ffaa00; --accent-green: #00e676;'',
        ''}'',
        ''* { box-sizing: border-box; margin: 0; padding: 0; }'',
        ''body { background: var(--bg-base); color: var(--text-main); font-family: -apple-system, BlinkMacSystemFont, "Segoe UI", Roboto, sans-serif; padding: 32px 24px; line-height: 1.5; }'',
        ''.container { max-width: 1300px; margin: 0 auto; }'',
        ''header { display: flex; justify-content: space-between; align-items: center; padding-bottom: 24px; border-bottom: 1px solid var(--border); margin-bottom: 32px; flex-wrap: wrap; gap: 16px; }'',
        ''.brand { display: flex; align-items: center; gap: 12px; }'',
        ''.brand h1 { font-size: 24px; font-weight: 700; letter-spacing: -0.5px; }'',
        ''.brand p { color: var(--text-muted); font-size: 13px; }'',
        ''.badge-sovereign { background: rgba(0, 255, 204, 0.1); color: var(--accent-cyan); border: 1px solid rgba(0, 255, 204, 0.3); padding: 4px 10px; border-radius: 999px; font-size: 12px; font-weight: 600; text-transform: uppercase; }'',
        ''.grid { display: grid; grid-template-columns: repeat(auto-fit, minmax(220px, 1fr)); gap: 16px; margin-bottom: 32px; }'',
        ''.card { background: var(--bg-card); border: 1px solid var(--border); border-radius: 8px; padding: 20px; }'',
        ''.card-label { color: var(--text-muted); font-size: 12px; text-transform: uppercase; font-weight: 600; margin-bottom: 8px; }'',
        ''.card-value { font-size: 32px; font-weight: 800; font-family: monospace; }'',
        ''.card-value.active { color: var(--accent-red); }'',
        ''.card-value.total { color: var(--accent-cyan); }'',
        ''.card-value.sub { color: var(--text-main); }'',
        ''.toolbar { display: flex; gap: 16px; margin-bottom: 20px; align-items: center; flex-wrap: wrap; }'',
        ''.search-box { flex: 1; min-width: 260px; background: var(--bg-surface); border: 1px solid var(--border); border-radius: 6px; padding: 10px 14px; color: var(--text-main); font-size: 14px; outline: none; }'',
        ''.search-box:focus { border-color: var(--accent-cyan); }'',
        ''.filter-select { background: var(--bg-surface); border: 1px solid var(--border); border-radius: 6px; padding: 10px 14px; color: var(--text-main); font-size: 14px; outline: none; cursor: pointer; }'',
        ''.table-wrap { background: var(--bg-surface); border: 1px solid var(--border); border-radius: 8px; overflow-x: auto; }'',
        ''table { width: 100%; border-collapse: collapse; text-align: left; font-size: 13px; }'',
        ''th { background: var(--bg-card); color: var(--text-muted); padding: 14px 16px; font-size: 11px; text-transform: uppercase; font-weight: 700; letter-spacing: 0.5px; border-bottom: 1px solid var(--border); }'',
        ''td { padding: 14px 16px; border-bottom: 1px solid var(--border); vertical-align: middle; }'',
        ''tr:hover td { background: rgba(255, 255, 255, 0.02); }'',
        ''.font-mono { font-family: monospace; font-size: 13px; }'',
        ''.badge { display: inline-block; padding: 3px 8px; border-radius: 4px; font-size: 11px; font-weight: 700; letter-spacing: 0.3px; }'',
        ''.badge-active { background: rgba(255, 51, 102, 0.15); color: var(--accent-red); border: 1px solid rgba(255, 51, 102, 0.4); }'',
        ''.badge-expired { background: rgba(139, 148, 158, 0.1); color: var(--text-muted); border: 1px solid rgba(139, 148, 158, 0.3); }'',
        ''.pill { background: rgba(255, 255, 255, 0.06); color: var(--text-main); padding: 2px 6px; border-radius: 4px; font-size: 11px; font-family: monospace; }'',
        ''.tag { background: rgba(0, 255, 204, 0.08); color: var(--accent-cyan); padding: 3px 8px; border-radius: 4px; font-size: 11px; font-family: monospace; }'',
        ''.text-center { text-align: center; }'',
        ''.text-right { text-align: right; }'',
        ''.text-truncate { max-width: 250px; white-space: nowrap; overflow: hidden; text-overflow: ellipsis; }'',
        ''footer { margin-top: 32px; text-align: center; font-size: 12px; color: var(--text-muted); }'',
        []]\<close>

record html_row_args =
  tr_row_filter :: string
  tr_cidr :: string
  tr_ip_ver :: string
  tr_trigger :: string
  tr_infraction :: string
  tr_violations :: string
  tr_badge_class :: string
  tr_badge_text :: string
  tr_remaining :: string
  tr_ua_full :: string
  tr_ua_truncated :: string

definition html_row :: "html_row_args \<Rightarrow> string" where
  \<open>html_row a =
     ''<tr class="'' @
     tr_row_filter a @
     (join [CHR 0x0A]
       [''">'',
        ''                <td class="font-mono"><strong>'']) @
     tr_cidr a @
     (join [CHR 0x0A]
       [''</strong></td>'',
        ''                <td><span class="pill">v'']) @
     tr_ip_ver a @
     (join [CHR 0x0A]
       [''</span></td>'',
        ''                <td class="font-mono">'']) @
     tr_trigger a @
     (join [CHR 0x0A]
       [''</td>'',
        ''                <td><span class="tag">'']) @
     tr_infraction a @
     (join [CHR 0x0A]
       [''</span></td>'',
        ''                <td class="text-center">'']) @
     tr_violations a @
     (join [CHR 0x0A]
       [''</td>'',
        ''                <td><span class="badge '']) @
     tr_badge_class a @
     ''">'' @
     tr_badge_text a @
     (join [CHR 0x0A]
       [''</span></td>'',
        ''                <td class="text-right font-mono">'']) @
     tr_remaining a @
     (join [CHR 0x0A]
       [''</td>'',
        ''                <td class="text-truncate" title="'']) @
     tr_ua_full a @
     ''">'' @
     tr_ua_truncated a @
     (join [CHR 0x0A]
       [''</td>'',
        ''            </tr>''])\<close>

definition page_text_0 :: string where
  \<open>page_text_0 =
     join [CHR 0x0A]
       [''<!DOCTYPE html>'',
        ''<html lang="en">'',
        ''<head>'',
        ''    <meta charset="UTF-8">'',
        ''    <meta name="viewport" content="width=device-width, initial-scale=1.0">'',
        ''    <title>Propylea Autonomous Quarantine Intelligence Deck</title>'',
        ''    <style>'']\<close>

definition page_text_1 :: string where
  \<open>page_text_1 =
     join [CHR 0x0A]
       [''</style>'',
        ''</head>'',
        ''<body>'',
        ''    <div class="container">'',
        ''        <header>'',
        ''            <div class="brand">'',
        ''                <div>'',
        ''                    <h1>'' @ [CHR 0xF0, CHR 0x9F, CHR 0x9B, CHR 0xA1, CHR 0xEF, CHR 0xB8, CHR 0x8F] @ '' Propylea Quarantine Radar</h1>'',
        ''                    <p>Sovereign Edge Ingress Defense & Subnet Quarantine Operations</p>'',
        ''                </div>'',
        ''            </div>'',
        ''            <div><span class="badge-sovereign">100% Zero-Cloud Custody</span></div>'',
        ''        </header>'',
        ''        <div class="grid">'',
        ''            <div class="card"><div class="card-label">Active Enforced Bans</div><div class="card-value active">'']\<close>

definition page_text_2 :: string where
  \<open>page_text_2 =
     join [CHR 0x0A]
       [''</div></div>'',
        ''            <div class="card"><div class="card-label">Total Historical Records</div><div class="card-value total">'']\<close>

definition page_text_3 :: string where
  \<open>page_text_3 =
     join [CHR 0x0A]
       [''</div></div>'',
        ''            <div class="card"><div class="card-label">IPv4 Subnets (/24)</div><div class="card-value sub">'']\<close>

definition page_text_4 :: string where
  \<open>page_text_4 =
     join [CHR 0x0A]
       [''</div></div>'',
        ''            <div class="card"><div class="card-label">IPv6 Subnets (/48)</div><div class="card-value sub">'']\<close>

definition page_text_5 :: string where
  \<open>page_text_5 =
     join [CHR 0x0A]
       [''</div></div>'',
        ''        </div>'',
        ''        <div class="toolbar">'',
        ''            <input type="text" id="searchInput" class="search-box" placeholder="'' @ [CHR 0xF0, CHR 0x9F, CHR 0x94, CHR 0x8D] @ '' Filter by CIDR, Trigger IP, or Infraction vector..." onkeyup="filterTable()">'',
        ''            <select id="statusFilter" class="filter-select" onchange="filterTable()">'',
        ''                <option value="all">All Records</option>'',
        ''                <option value="active" selected>Active Bans Only</option>'',
        ''                <option value="expired">Expired Records Only</option>'',
        ''            </select>'',
        ''        </div>'',
        ''        <div class="table-wrap">'',
        ''            <table id="quarantineTable">'',
        ''                <thead>'',
        ''                    <tr>'',
        ''                        <th>Subnet CIDR</th><th>Ver</th><th>Trigger IP</th><th>Infraction Vector</th>'',
        ''                        <th class="text-center">Violations</th><th>Status</th><th class="text-right">Expires In</th><th>Captured User-Agent</th>'',
        ''                    </tr>'',
        ''                </thead>'',
        ''                <tbody>'']\<close>

definition page_text_6 :: string where
  \<open>page_text_6 =
     join [CHR 0x0A]
       [''</tbody>'',
        ''            </table>'',
        ''        </div>'',
        ''        <footer>Propylea Sovereign L7 Reverse Proxy & Perimeter Defense '' @ [CHR 0xE2, CHR 0x80, CHR 0xA2] @ '' Generated at Unix ms: '']\<close>

definition page_text_7 :: string where
  \<open>page_text_7 =
     join [CHR 0x0A]
       [''</footer>'',
        ''    </div>'',
        ''    <script>'',
        ''        function filterTable() {'',
        ''            const search = document.getElementById('' @ [CHR 0x27] @ ''searchInput'' @ [CHR 0x27] @ '').value.toLowerCase();'',
        ''            const status = document.getElementById('' @ [CHR 0x27] @ ''statusFilter'' @ [CHR 0x27] @ '').value;'',
        ''            const rows = document.querySelectorAll('' @ [CHR 0x27] @ ''#quarantineTable tbody tr'' @ [CHR 0x27] @ '');'',
        ''            rows.forEach(row => {'',
        ''                const text = row.innerText.toLowerCase();'',
        ''                const matchesSearch = text.includes(search);'',
        ''                const isActive = row.classList.contains('' @ [CHR 0x27] @ ''filter-active'' @ [CHR 0x27] @ '');'',
        ''                let matchesStatus = status === '' @ [CHR 0x27] @ ''all'' @ [CHR 0x27] @ '' || (status === '' @ [CHR 0x27] @ ''active'' @ [CHR 0x27] @ '' ? isActive : !isActive);'',
        ''                row.style.display = (matchesSearch && matchesStatus) ? '' @ [CHR 0x27, CHR 0x27] @ '' : '' @ [CHR 0x27] @ ''none'' @ [CHR 0x27] @ '';'',
        ''            });'',
        ''        }'',
        ''        filterTable();'',
        ''    </script>'',
        ''</body>'',
        ''</html>'']\<close>

record html_page_args =
  page_styles :: string
  page_active_count :: string
  page_total :: string
  page_ipv4_count :: string
  page_ipv6_count :: string
  page_rows :: string
  page_now_ms :: string

definition html_page :: "html_page_args \<Rightarrow> string" where
  \<open>html_page a =
     page_text_0 @ page_styles a @
     page_text_1 @ page_active_count a @
     page_text_2 @ page_total a @
     page_text_3 @ page_ipv4_count a @
     page_text_4 @ page_ipv6_count a @
     page_text_5 @ page_rows a @
     page_text_6 @ page_now_ms a @
     page_text_7\<close>

end
