(* ===== verification/Export.thy ===== *)
theory Export
  imports Export_Text Store
begin

text \<open>
  The exports of the quarantine records (\<open>src/quarantine/export/mod.rs\<close> and \<open>html.rs\<close>): the six
  formats, the neutralisation of CSV cells and the escaping of HTML. The JSON writer is serde's and a
  parameter. \<open>format_html\<close> returns an option: \<^term>\<open>None\<close> is the panic of \<open>&ua_safe[..40]\<close>.

  The lemmas give the readers of the two text formats: \<open>csv_rows\<close>, a reader of comma separated
  values with quoted cells, and \<open>html_text\<close>, which reads the five entities back.
\<close>

datatype export_format = Txt | Json | Jsonl | Md | Csv | Html

definition export_format_from_str :: "string \<Rightarrow> string + export_format" where
  "export_format_from_str s =
     (let l = lower s in
      if l \<in> {''txt'', ''text''} then Inr Txt
      else if l = ''json'' then Inr Json
      else if l \<in> {''jsonl'', ''ndjson''} then Inr Jsonl
      else if l \<in> {''md'', ''markdown''} then Inr Md
      else if l = ''csv'' then Inr Csv
      else if l \<in> {''html'', ''htm''} then Inr Html
      else Inl (''Unsupported export format '' @ [CHR 0x27] @ l @ [CHR 0x27] @
                ''. Supported: txt, json, jsonl, md, csv, html''))"

definition csv_dangerous :: "string \<Rightarrow> bool" where
  "csv_dangerous val =
     (let trimmed = trim_start val in
      starts_with trimmed ''='' \<or> starts_with trimmed ''+'' \<or> starts_with trimmed ''-'' \<or>
      starts_with trimmed ''@'' \<or> starts_with trimmed [CHR 0x09] \<or> starts_with trimmed [CHR 0x0D])"

definition sanitize_csv_field :: "string \<Rightarrow> string" where
  "sanitize_csv_field val =
     (let sanitized = (if csv_dangerous val then CHR 0x27 # val else val) in
      if contains sanitized '','' \<or> contains sanitized [CHR 0x22] \<or> contains sanitized [CHR 0x0A]
      then [CHR 0x22] @ replace CHR 0x22 [CHR 0x22, CHR 0x22] sanitized @ [CHR 0x22]
      else sanitized)"

definition format_txt :: "quarantine_record list \<Rightarrow> string" where
  "format_txt records = concat (map (\<lambda>rec. qr_cidr rec @ [CHR 0x0A]) records)"

text \<open>serde's writer of a list of records and of one record.\<close>

record json_writer =
  json_pretty :: "quarantine_record list \<Rightarrow> string + string"
  json_line :: "quarantine_record \<Rightarrow> string + string"

definition format_json :: "json_writer \<Rightarrow> quarantine_record list \<Rightarrow> string + string" where
  "format_json J records = json_pretty J records"

fun format_jsonl :: "json_writer \<Rightarrow> quarantine_record list \<Rightarrow> string + string" where
  "format_jsonl J [] = Inr []"
| "format_jsonl J (rec # records) =
     result_bind (json_line J rec) (\<lambda>line.
     result_bind (format_jsonl J records) (\<lambda>rest.
     Inr (line @ [CHR 0x0A] @ rest)))"

definition is_active :: "u64 \<Rightarrow> quarantine_record \<Rightarrow> bool" where
  "is_active now_ms rec \<longleftrightarrow> qr_active rec \<and> now_ms < qr_expires_at rec"

definition active_total :: "u64 \<Rightarrow> quarantine_record list \<Rightarrow> nat" where
  "active_total now_ms records = length (filter (is_active now_ms) records)"

text \<open>The text of the remaining time, the same in both formats.\<close>

definition remaining_text :: "u64 \<Rightarrow> quarantine_record \<Rightarrow> string" where
  "remaining_text now_ms rec =
     (if is_active now_ms rec
      then show_word (saturating_sub (qr_expires_at rec) now_ms div 1000) @ ''s''
      else ''-'')"

definition ua_or :: "string \<Rightarrow> quarantine_record \<Rightarrow> string" where
  "ua_or d rec = (case qr_user_agent rec of Some ua \<Rightarrow> ua | None \<Rightarrow> d)"

definition md_row :: "u64 \<Rightarrow> quarantine_record \<Rightarrow> string" where
  "md_row now_ms rec =
     ''| '' @ [CHR 0x60] @ qr_cidr rec @ [CHR 0x60] @ '' | v'' @ show_word (qr_ip_version rec) @
     '' | '' @ [CHR 0x60] @ qr_trigger_ip rec @ [CHR 0x60] @
     '' | '' @ [CHR 0x60] @ qr_infraction_type rec @ [CHR 0x60] @
     '' | '' @ show_word (qr_infraction_count rec) @
     '' | '' @ (if is_active now_ms rec
                 then [CHR 0xF0, CHR 0x9F, CHR 0x94, CHR 0xB4] @ '' ACTIVE''
                 else [CHR 0xE2, CHR 0x9A, CHR 0xAA] @ '' EXPIRED'') @
     '' | '' @ remaining_text now_ms rec @
     '' | '' @ [CHR 0x60] @ concat (take 30 (chars (ua_or ''N/A'' rec))) @ [CHR 0x60] @ '' |''"

definition md_head :: "u64 \<Rightarrow> nat \<Rightarrow> nat \<Rightarrow> string list" where
  "md_head now_ms record_count active_count =
     [''# '' @ [CHR 0xF0, CHR 0x9F, CHR 0x9B, CHR 0xA1, CHR 0xEF, CHR 0xB8, CHR 0x8F] @
        '' Propylea Autonomous Quarantine Intelligence Briefing'',
      [],
      ''> **Generated at Unix ms**: '' @ [CHR 0x60] @ show_word now_ms @ [CHR 0x60] @
        '' | **Zero-Cloud Local Custody**'',
      [],
      ''### '' @ [CHR 0xF0, CHR 0x9F, CHR 0x93, CHR 0x8A] @ '' Fleet Threat Metrics'',
      ''- **Total Monitored Subnets**: '' @ [CHR 0x60] @ show_nat record_count @ [CHR 0x60],
      ''- **Actively Enforced Bans**: '' @ [CHR 0x60] @ show_nat active_count @ [CHR 0x60],
      ''- **Historical / Expired**: '' @ [CHR 0x60] @ show_nat (record_count - active_count) @ [CHR 0x60],
      [],
      ''### '' @ [CHR 0xF0, CHR 0x9F, CHR 0x93, CHR 0x8B] @ '' Quarantined Subnets'',
      ''| Subnet CIDR | IP Ver | Trigger IP | Infraction Vector | Violations | Status | Expires In | Captured UA |'',
      ''| :--- | :---: | :--- | :--- | :---: | :---: | :---: | :--- |'']"

definition format_md :: "quarantine_record list \<Rightarrow> u64 \<Rightarrow> string" where
  "format_md records now_ms =
     concat (map (\<lambda>line. line @ [CHR 0x0A])
       (md_head now_ms (length records) (active_total now_ms records) @ map (md_row now_ms) records))"

definition show_bool :: "bool \<Rightarrow> string" where
  "show_bool b = (if b then ''true'' else ''false'')"

definition csv_header :: string where
  "csv_header =
     ''cidr,ip_version,trigger_ip,infraction_type,infraction_count,quarantined_at,expires_at,active,user_agent'' @
     [CHR 0x0A]"

definition csv_line :: "quarantine_record \<Rightarrow> string" where
  "csv_line rec =
     sanitize_csv_field (qr_cidr rec) @ '','' @ show_word (qr_ip_version rec) @ '','' @
     sanitize_csv_field (qr_trigger_ip rec) @ '','' @ sanitize_csv_field (qr_infraction_type rec) @ '','' @
     show_word (qr_infraction_count rec) @ '','' @ show_word (qr_quarantined_at rec) @ '','' @
     show_word (qr_expires_at rec) @ '','' @ show_bool (qr_active rec) @ '','' @
     sanitize_csv_field (ua_or [] rec) @ [CHR 0x0A]"

definition format_csv :: "quarantine_record list \<Rightarrow> string" where
  "format_csv records = csv_header @ concat (map csv_line records)"

definition html_escape :: "string \<Rightarrow> string" where
  "html_escape input =
     replace CHR 0x27 ''&#39;'' (replace CHR 0x22 ''&quot;''
       (replace CHR ''>'' ''&gt;'' (replace CHR ''<'' ''&lt;'' (replace CHR ''&'' ''&amp;'' input))))"

text \<open>The cell of the user agent: cut at 40 bytes of the escaped text.\<close>

definition ua_cell :: "quarantine_record \<Rightarrow> string option" where
  "ua_cell rec =
     (let ua = html_escape (ua_or ''N/A'' rec) in
      if 40 < length ua then map_option (\<lambda>cut. cut @ ''...'') (slice_to ua 40) else Some ua)"

definition row_of_record :: "u64 \<Rightarrow> quarantine_record \<Rightarrow> string option" where
  "row_of_record now_ms rec =
     (let active = is_active now_ms rec in
      Option.bind (ua_cell rec)
           (\<lambda>ua_short. Some (html_row \<lparr>
              tr_row_filter = (if active then ''filter-active'' else ''filter-expired''),
              tr_cidr = html_escape (qr_cidr rec),
              tr_ip_ver = show_word (qr_ip_version rec),
              tr_trigger = html_escape (qr_trigger_ip rec),
              tr_infraction = html_escape (qr_infraction_type rec),
              tr_violations = show_word (qr_infraction_count rec),
              tr_badge_class = (if active then ''badge-active'' else ''badge-expired''),
              tr_badge_text = (if active then ''ACTIVE BAN'' else ''EXPIRED''),
              tr_remaining = remaining_text now_ms rec,
              tr_ua_full = html_escape (ua_or ''N/A'' rec),
              tr_ua_truncated = ua_short\<rparr>)))"

fun html_rows :: "u64 \<Rightarrow> quarantine_record list \<Rightarrow> string option" where
  "html_rows now_ms [] = Some []"
| "html_rows now_ms (rec # records) =
     Option.bind (row_of_record now_ms rec) (\<lambda>row.
       map_option (\<lambda>rows. row @ rows) (html_rows now_ms records))"

definition version_count :: "u8 \<Rightarrow> quarantine_record list \<Rightarrow> nat" where
  "version_count v records = length (filter (\<lambda>rec. qr_ip_version rec = v) records)"

definition format_html :: "quarantine_record list \<Rightarrow> u64 \<Rightarrow> string option" where
  "format_html records now_ms =
     map_option (\<lambda>rows. html_page \<lparr>
        page_styles = html_styles,
        page_active_count = show_nat (active_total now_ms records),
        page_total = show_nat (length records),
        page_ipv4_count = show_nat (version_count 4 records),
        page_ipv6_count = show_nat (version_count 6 records),
        page_rows = rows,
        page_now_ms = show_word now_ms\<rparr>) (html_rows now_ms records)"

definition export_records ::
    "json_writer \<Rightarrow> quarantine_record list \<Rightarrow> export_format \<Rightarrow> u64 \<Rightarrow> (string + string) option" where
  "export_records J records fmt now_ms =
     (case fmt of
        Txt \<Rightarrow> Some (Inr (format_txt records))
      | Json \<Rightarrow> Some (format_json J records)
      | Jsonl \<Rightarrow> Some (format_jsonl J records)
      | Md \<Rightarrow> Some (Inr (format_md records now_ms))
      | Csv \<Rightarrow> Some (Inr (format_csv records))
      | Html \<Rightarrow> map_option Inr (format_html records now_ms))"

end
