(* ===== verification/Export_Props.thy ===== *)
theory Export_Props
  imports Export
begin

text \<open>
  What the exports promise: a reader of comma separated values gets every cell back, with no cell a
  spreadsheet would run as a formula; the values of a record add no markup to the page; the only
  panic is a user agent that is cut inside a character.
\<close>

section \<open>Comma separated values\<close>

text \<open>
  The reader: a cell in quotes may hold separators, and a pair of quotes in it stands for one; a line
  feed ends the row.
\<close>

datatype csv_state = Cell | Plain | Quoted | Closing

fun csv_go :: "csv_state \<Rightarrow> string \<Rightarrow> string list \<Rightarrow> string \<Rightarrow> string list list" where
  "csv_go st cur row [] = (if st = Cell \<and> row = [] then [] else [row @ [cur]])"
| "csv_go st cur row (b # s) =
     (if st = Quoted
      then (if b = CHR 0x22 then csv_go Closing cur row s else csv_go Quoted (cur @ [b]) row s)
      else if b = CHR 0x22 \<and> st = Closing then csv_go Quoted (cur @ [b]) row s
      else if b = CHR 0x22 \<and> st = Cell then csv_go Quoted [] row s
      else if b = CHR '','' then csv_go Cell [] (row @ [cur]) s
      else if b = CHR 0x0A then (row @ [cur]) # csv_go Cell [] [] s
      else csv_go Plain (cur @ [b]) row s)"

definition csv_rows :: "string \<Rightarrow> string list list" where
  "csv_rows s = csv_go Cell [] [] s"

definition plain_cell :: "string \<Rightarrow> bool" where
  "plain_cell w \<longleftrightarrow> CHR '','' \<notin> set w \<and> CHR 0x22 \<notin> set w \<and> CHR 0x0A \<notin> set w"

lemma csv_go_plain:
  "plain_cell w \<Longrightarrow> csv_go Plain cur row (w @ s) = csv_go Plain (cur @ w) row s"
  by (induction w arbitrary: cur) (auto simp: plain_cell_def)

lemma csv_go_quoted:
  "csv_go Quoted cur row (replace CHR 0x22 [CHR 0x22, CHR 0x22] w @ s) = csv_go Quoted (cur @ w) row s"
  by (induction w arbitrary: cur) (simp_all add: replace_Cons)

definition csv_sep :: "char \<Rightarrow> string list \<Rightarrow> string \<Rightarrow> string list list" where
  "csv_sep sep row s = (if sep = CHR '','' then csv_go Cell [] row s else row # csv_go Cell [] [] s)"

lemma csv_sep_simps:
  "csv_sep CHR '','' row s = csv_go Cell [] row s"
  "csv_sep CHR 0x0A row s = row # csv_go Cell [] [] s"
  by (simp_all add: csv_sep_def)

lemma csv_go_cell:
  assumes "plain_cell w" and "sep = CHR '','' \<or> sep = CHR 0x0A"
  shows "csv_go Cell [] row (w @ sep # s) = csv_sep sep (row @ [w]) s"
proof (cases w)
  case Nil
  with assms(2) show ?thesis by (auto simp: csv_sep_def)
next
  case (Cons b v)
  with assms(1) have "plain_cell v" and "b \<noteq> CHR '',''" "b \<noteq> CHR 0x22" "b \<noteq> CHR 0x0A"
    by (auto simp: plain_cell_def)
  with Cons assms(2) show ?thesis by (auto simp: csv_sep_def csv_go_plain)
qed

definition neutral_cell :: "string \<Rightarrow> string" where
  "neutral_cell val = (if csv_dangerous val then CHR 0x27 # val else val)"

lemma contains_single: "contains s [b] \<longleftrightarrow> b \<in> set s"
  by (auto simp: contains_iff_sublist sublist_def in_set_conv_decomp)

lemma sanitize_csv_field_eq:
  "sanitize_csv_field val =
     (if plain_cell (neutral_cell val) then neutral_cell val
      else [CHR 0x22] @ replace CHR 0x22 [CHR 0x22, CHR 0x22] (neutral_cell val) @ [CHR 0x22])"
  unfolding sanitize_csv_field_def neutral_cell_def [symmetric] Let_def contains_single plain_cell_def
  by (simp only: de_Morgan_conj not_not disj_assoc if_not_P split: if_splits) simp

lemma csv_go_field:
  assumes "sep = CHR '','' \<or> sep = CHR 0x0A"
  shows "csv_go Cell [] row (sanitize_csv_field v @ sep # s) = csv_sep sep (row @ [neutral_cell v]) s"
proof (cases "plain_cell (neutral_cell v)")
  case True
  then show ?thesis by (simp add: sanitize_csv_field_eq csv_go_cell [OF _ assms])
next
  case False
  then have "csv_go Cell [] row (sanitize_csv_field v @ sep # s) =
      csv_go Closing (neutral_cell v) row (sep # s)"
    using csv_go_quoted [of "[]" row "neutral_cell v" "CHR 0x22 # sep # s"]
    by (simp add: sanitize_csv_field_eq)
  with assms show ?thesis by (auto simp: csv_sep_def)
qed

lemma plain_show [simp]: "plain_cell (show_word w)"
  using show_word_digits [of w] by (auto simp: plain_cell_def list_all_iff is_digit_def ord_def)

lemma plain_bool [simp]: "plain_cell (show_bool b)"
  by (simp add: show_bool_def plain_cell_def)

text \<open>
  A cell starts a formula when its first character behind any white space is one of the four
  operators. The two checks of the code for a tab and a carriage return say nothing more: no trimmed
  text starts with either.
\<close>

definition formula_operators :: "char list" where
  "formula_operators = [CHR ''='', CHR ''+'', CHR ''-'', CHR ''@'']"

definition formula_start :: "string \<Rightarrow> bool" where
  "formula_start w \<longleftrightarrow>
     (\<exists>u b r. w = u @ b # r \<and> list_all is_whitespace (chars u) \<and> b \<in> set formula_operators)"

lemma ws_valid: "is_whitespace c \<Longrightarrow> valid_char c"
proof -
  have "list_all valid_char ws_chars"
    by (simp add: ws_chars_def valid_char_def is_cont_def utf8_len_def ord_def)
  then show "is_whitespace c \<Longrightarrow> valid_char c" by (simp add: is_whitespace_def list_all_iff)
qed

lemma operator_ascii: "b \<in> set formula_operators \<Longrightarrow> is_ascii b"
  by (auto simp: formula_operators_def is_ascii_def ord_def)

lemma operator_not_blank: "b \<in> set formula_operators \<Longrightarrow> \<not> is_whitespace [b]"
  by (auto simp: formula_operators_def is_whitespace_single ascii_ws_def ord_def)

lemma trim_start_operator:
  assumes "list_all is_whitespace (chars u)" and "b \<in> set formula_operators"
  shows "trim_start (u @ b # r) = b # r"
proof -
  have "valid_utf8 u"
    using assms(1) ws_valid by (auto simp: valid_utf8_def list_all_iff)
  moreover have "chars (b # r) = [b] # chars r"
    using operator_ascii [OF assms(2)] by (simp add: utf8_len_ascii)
  ultimately have "chars (u @ b # r) = chars u @ [b] # chars r"
    by (simp add: chars_append_valid)
  moreover have "dropWhile is_whitespace (chars u @ [b] # chars r) = [b] # chars r"
    using assms(1) operator_not_blank [OF assms(2)] by (subst dropWhile_append2) (auto simp: list_all_iff)
  ultimately show ?thesis by (simp add: trim_start_def)
qed

lemma chars_ascii_head: "c \<in> set (chars v) \<Longrightarrow> is_ascii (hd c) \<Longrightarrow> c = [hd c]"
  by (induction v rule: chars.induct) (auto simp: utf8_len_ascii)

lemma trim_start_head:
  assumes "trim_start v = b # r" and "is_ascii b"
  shows "\<not> is_whitespace [b]" and "\<exists>u. v = u @ b # r \<and> list_all is_whitespace (chars u)"
proof -
  let ?w = "takeWhile is_whitespace (chars v)"
  have r: "concat (dropWhile is_whitespace (chars v)) = b # r"
    using assms(1) by (simp add: trim_start_def)
  then obtain c cs where d: "dropWhile is_whitespace (chars v) = c # cs"
    by (cases "dropWhile is_whitespace (chars v)") auto
  then have c: "\<not> is_whitespace c" "c \<in> set (chars v)"
    using dropWhile_eq_Cons_conv [of is_whitespace "chars v" c cs]
    by (auto dest: arg_cong [where f = set])
  have "hd c = b"
    using chars_nonempty [OF c(2)] r d by (cases c) auto
  with chars_ascii_head [OF c(2)] assms(2) c(1) show "\<not> is_whitespace [b]" by auto
  have "v = concat ?w @ b # r"
    using r by (metis concat_append concat_chars takeWhile_dropWhile_id)
  moreover have "chars (concat ?w) = ?w"
    using ws_valid by (intro chars_concat) (auto simp: list_all_iff dest: set_takeWhileD)
  ultimately show "\<exists>u. v = u @ b # r \<and> list_all is_whitespace (chars u)"
    by (intro exI [of _ "concat ?w"]) (auto simp: list_all_iff dest: set_takeWhileD)
qed

lemma starts_with_head: "starts_with w [b] \<longleftrightarrow> (\<exists>r. w = b # r)"
  by (auto simp: starts_with_def prefix_def)

lemma trim_start_not_blank: "ascii_ws b \<Longrightarrow> is_ascii b \<Longrightarrow> \<not> starts_with (trim_start v) [b]"
  using trim_start_head(1) [of v b] by (auto simp: starts_with_head is_whitespace_single)

theorem csv_dangerous_iff: "csv_dangerous v \<longleftrightarrow> formula_start v"
proof -
  have dead: "\<not> starts_with (trim_start v) [CHR 0x09]" "\<not> starts_with (trim_start v) [CHR 0x0D]"
    by (rule trim_start_not_blank; simp add: ascii_ws_def is_ascii_def ord_def)+
  have "csv_dangerous v \<longleftrightarrow> (\<exists>b \<in> set formula_operators. \<exists>r. trim_start v = b # r)"
    using dead by (auto simp: csv_dangerous_def Let_def formula_operators_def starts_with_head)
  also have "\<dots> \<longleftrightarrow> formula_start v"
    unfolding formula_start_def
    using trim_start_operator trim_start_head(2) operator_ascii by (metis (no_types, lifting))
  finally show ?thesis .
qed

lemma neutral_cell_safe: "\<not> formula_start (neutral_cell v)"
proof (cases "csv_dangerous v")
  case True
  have "trim_start (CHR 0x27 # v) = CHR 0x27 # v"
    by (simp add: trim_start_def utf8_len_ascii is_ascii_def ord_def is_whitespace_single ascii_ws_def)
  then have "\<not> csv_dangerous (CHR 0x27 # v)"
    by (simp add: csv_dangerous_def starts_with_head)
  with True show ?thesis by (simp add: neutral_cell_def flip: csv_dangerous_iff)
next
  case False
  then show ?thesis by (simp add: neutral_cell_def flip: csv_dangerous_iff)
qed

lemma digits_safe: "is_digit (hd w) \<Longrightarrow> w \<noteq> [] \<Longrightarrow> \<not> formula_start w"
proof -
  assume w: "is_digit (hd w)" "w \<noteq> []"
  then obtain b r where e: "w = b # r" and b: "is_digit b" by (cases w) auto
  then have "trim_start w = w"
    by (simp add: trim_start_def utf8_len_ascii digit_props is_whitespace_single)
  moreover have "b \<notin> set formula_operators \<and> b \<noteq> CHR 0x09 \<and> b \<noteq> CHR 0x0D"
    using b by (auto simp: formula_operators_def is_digit_def ord_def)
  ultimately have "\<not> csv_dangerous w"
    by (auto simp: csv_dangerous_def e starts_with_head formula_operators_def)
  then show ?thesis by (simp add: csv_dangerous_iff)
qed

definition csv_columns :: "string list" where
  "csv_columns =
     [''cidr'', ''ip_version'', ''trigger_ip'', ''infraction_type'', ''infraction_count'',
      ''quarantined_at'', ''expires_at'', ''active'', ''user_agent'']"

definition csv_cells :: "quarantine_record \<Rightarrow> string list" where
  "csv_cells rec =
     [neutral_cell (qr_cidr rec), show_word (qr_ip_version rec), neutral_cell (qr_trigger_ip rec),
      neutral_cell (qr_infraction_type rec), show_word (qr_infraction_count rec),
      show_word (qr_quarantined_at rec), show_word (qr_expires_at rec), show_bool (qr_active rec),
      neutral_cell (ua_or [] rec)]"

lemma csv_go_header: "csv_go Cell [] [] (csv_header @ s) = csv_columns # csv_go Cell [] [] s"
  by (simp add: csv_header_def csv_columns_def)

lemma csv_go_line: "csv_go Cell [] [] (csv_line rec @ s) = csv_cells rec # csv_go Cell [] [] s"
  by (simp add: csv_line_def csv_cells_def csv_go_field csv_go_cell csv_sep_simps)

lemma csv_go_lines: "csv_go Cell [] [] (concat (map csv_line recs)) = map csv_cells recs"
  by (induction recs) (simp_all add: csv_go_line)

lemma show_word_safe: "\<not> formula_start (show_word w)"
  using show_word_digits [of w] by (intro digits_safe) (auto simp: list_all_iff)

lemma show_bool_safe: "\<not> formula_start (show_bool b)"
proof -
  have "\<not> csv_dangerous (show_bool b)"
    by (simp add: csv_dangerous_def show_bool_def trim_start_def utf8_len_ascii is_ascii_def ord_def
        is_whitespace_single ascii_ws_def starts_with_head)
  then show ?thesis by (simp add: csv_dangerous_iff)
qed


definition hostile_record :: quarantine_record where
  "hostile_record =
     \<lparr>qr_cidr = ''198.51.100.0/24'', qr_ip_version = 4, qr_trigger_ip = ''198.51.100.7'',
      qr_infraction_type = ''a,b'', qr_infraction_count = 1, qr_quarantined_at = 5,
      qr_expires_at = 90, qr_user_agent = Some (''=1+'' @ [CHR 0x22, CHR 0x0A]), qr_active = True\<rparr>"


section \<open>The HTML page\<close>

definition escape_byte :: "char \<Rightarrow> string" where
  "escape_byte b =
     (if b = CHR ''&'' then ''&amp;'' else if b = CHR ''<'' then ''&lt;''
      else if b = CHR ''>'' then ''&gt;'' else if b = CHR 0x22 then ''&quot;''
      else if b = CHR 0x27 then ''&#39;'' else [b])"

lemma html_escape_Nil [simp]: "html_escape [] = []"
  by (simp add: html_escape_def)

lemma html_escape_Cons: "html_escape (b # s) = escape_byte b @ html_escape s"
  by (simp add: html_escape_def escape_byte_def replace_Cons)

text \<open>The reader of the five entities.\<close>

definition entities :: "(string \<times> char) list" where
  "entities =
     [(''amp;'', CHR ''&''), (''lt;'', CHR ''<''), (''gt;'', CHR ''>''), (''quot;'', CHR 0x22),
      (''#39;'', CHR 0x27)]"

fun html_text :: "string \<Rightarrow> string" where
  "html_text [] = []"
| "html_text (b # s) =
     (if b = CHR ''&''
      then (case find (\<lambda>e. prefix (fst e) s) entities of
              Some e \<Rightarrow> snd e # html_text (drop (length (fst e)) s)
            | None \<Rightarrow> b # html_text s)
      else b # html_text s)"

lemma html_text_escaped: "html_text (escape_byte b @ s) = b # html_text s"
  by (simp add: escape_byte_def entities_def)

lemma html_text_escape: "html_text (html_escape s) = s"
  by (induction s) (simp_all add: html_escape_Cons html_text_escaped)

definition markup_bytes :: "char list" where
  "markup_bytes = [CHR ''<'', CHR ''>'', CHR 0x22, CHR 0x27]"

lemma escape_no_markup: "c \<in> set markup_bytes \<Longrightarrow> count_list (html_escape s) c = 0"
proof (induction s)
  case (Cons b s)
  have "c \<notin> set (escape_byte b)"
    using Cons.prems by (auto simp: markup_bytes_def escape_byte_def)
  with Cons show ?case by (simp add: html_escape_Cons count_notin)
qed simp

lemma no_markup:
  "c \<in> set markup_bytes \<Longrightarrow> list_all (\<lambda>b. b \<notin> set markup_bytes) w \<Longrightarrow> count_list w c = 0"
  by (rule count_notin) (auto simp: list_all_iff)

lemma digits_no_markup: "list_all is_digit w \<Longrightarrow> list_all (\<lambda>b. b \<notin> set markup_bytes) w"
  by (auto simp: list_all_iff markup_bytes_def is_digit_def ord_def)

lemma show_no_markup:
  assumes "c \<in> set markup_bytes"
  shows "count_list (show_nat n) c = 0" and "count_list (show_word w) c = 0"
  by (rule no_markup [OF assms] digits_no_markup show_nat_digits show_word_digits)+

lemma label_no_markup:
  assumes "c \<in> set markup_bytes"
  shows "count_list (if b then ''filter-active'' else ''filter-expired'') c = 0"
    and "count_list (if b then ''badge-active'' else ''badge-expired'') c = 0"
    and "count_list (if b then ''ACTIVE BAN'' else ''EXPIRED'') c = 0"
  by (rule no_markup [OF assms]; cases b; simp add: markup_bytes_def)+

lemma remaining_no_markup:
  assumes "c \<in> set markup_bytes"
  shows "count_list (remaining_text now_ms rec) c = 0"
proof -
  have "count_list ''s'' c = 0" "count_list ''-'' c = 0"
    by (rule no_markup [OF assms]; simp add: markup_bytes_def)+
  then show ?thesis by (simp only: remaining_text_def count_list_append show_no_markup [OF assms] split: if_split) simp
qed

definition empty_row :: html_row_args where
  "empty_row =
     \<lparr>tr_row_filter = [], tr_cidr = [], tr_ip_ver = [], tr_trigger = [], tr_infraction = [],
      tr_violations = [], tr_badge_class = [], tr_badge_text = [], tr_remaining = [],
      tr_ua_full = [], tr_ua_truncated = []\<rparr>"

definition empty_page :: html_page_args where
  "empty_page =
     \<lparr>page_styles = html_styles, page_active_count = [], page_total = [], page_ipv4_count = [],
      page_ipv6_count = [], page_rows = [], page_now_ms = []\<rparr>"

lemma count_row:
  "count_list (html_row a) c =
     count_list (html_row empty_row) c +
     (count_list (tr_row_filter a) c + count_list (tr_cidr a) c + count_list (tr_ip_ver a) c +
      count_list (tr_trigger a) c + count_list (tr_infraction a) c + count_list (tr_violations a) c +
      count_list (tr_badge_class a) c + count_list (tr_badge_text a) c + count_list (tr_remaining a) c +
      count_list (tr_ua_full a) c + count_list (tr_ua_truncated a) c)"
  by (simp only: html_row_def empty_row_def count_list_append html_row_args.select_convs count_list.simps(1)
      add_0_left add_0_right ac_simps)

lemma count_page:
  "page_styles a = html_styles \<Longrightarrow>
   count_list (html_page a) c =
     count_list (html_page empty_page) c +
     (count_list (page_active_count a) c + count_list (page_total a) c + count_list (page_ipv4_count a) c +
      count_list (page_ipv6_count a) c + count_list (page_rows a) c + count_list (page_now_ms a) c)"
  by (simp only: html_page_def empty_page_def count_list_append html_page_args.select_convs count_list.simps(1)
      add_0_left add_0_right ac_simps)

lemma slice_count: "slice_to s n = Some t \<Longrightarrow> c \<notin> set s \<Longrightarrow> count_list t c = 0"
  by (auto simp: slice_to_def split: if_splits dest: in_set_takeD intro!: count_notin)

lemma escape_no_markup_mem: "c \<in> set markup_bytes \<Longrightarrow> c \<notin> set (html_escape s)"
  using escape_no_markup [of c s] by (simp add: count_list_0_iff)

lemma dots_no_markup: "c \<in> set markup_bytes \<Longrightarrow> count_list ''...'' c = 0"
  by (rule no_markup) (simp_all add: markup_bytes_def)

lemma ua_cell_no_markup: "ua_cell rec = Some t \<Longrightarrow> c \<in> set markup_bytes \<Longrightarrow> count_list t c = 0"
  using slice_count [OF _ escape_no_markup_mem]
  by (auto simp: ua_cell_def Let_def dots_no_markup escape_no_markup simp del: count_list.simps split: if_splits)

lemma row_markup:
  assumes "row_of_record now_ms rec = Some row" and c: "c \<in> set markup_bytes"
  shows "count_list row c = count_list (html_row empty_row) c"
proof -
  obtain ua where ua: "ua_cell rec = Some ua"
    and row: "row = html_row \<lparr>
      tr_row_filter = (if is_active now_ms rec then ''filter-active'' else ''filter-expired''),
      tr_cidr = html_escape (qr_cidr rec), tr_ip_ver = show_word (qr_ip_version rec),
      tr_trigger = html_escape (qr_trigger_ip rec), tr_infraction = html_escape (qr_infraction_type rec),
      tr_violations = show_word (qr_infraction_count rec),
      tr_badge_class = (if is_active now_ms rec then ''badge-active'' else ''badge-expired''),
      tr_badge_text = (if is_active now_ms rec then ''ACTIVE BAN'' else ''EXPIRED''),
      tr_remaining = remaining_text now_ms rec, tr_ua_full = html_escape (ua_or ''N/A'' rec),
      tr_ua_truncated = ua\<rparr>"
    using assms(1) unfolding row_of_record_def Let_def bind_eq_Some_conv by blast
  show ?thesis
    unfolding row
    by (subst count_row) (simp only: html_row_args.select_convs label_no_markup [OF c] remaining_no_markup [OF c] show_no_markup [OF c]
        escape_no_markup [OF c] ua_cell_no_markup [OF ua c] add_0_right)
qed

lemma rows_markup:
  assumes "html_rows now_ms recs = Some rows" and c: "c \<in> set markup_bytes"
  shows "count_list rows c = length recs * count_list (html_row empty_row) c"
  using assms(1)
proof (induction recs arbitrary: rows)
  case (Cons rec recs)
  then obtain r rs where "row_of_record now_ms rec = Some r" "html_rows now_ms recs = Some rs"
    and "rows = r @ rs"
    by (auto simp: bind_eq_Some_conv)
  with Cons.IH row_markup [OF _ c] show ?case by simp
qed simp

text \<open>
  C21: Nothing a client or an operator put into a record becomes markup of the HTML page: the number
  of angle brackets and quotes of a page with \<open>n\<close> records is the number in the fixed texts of the
  page and of \<open>n\<close> rows. And nothing is lost: each escaped text reads back as the original.
\<close>

theorem html_page_inert:
  assumes "format_html recs now_ms = Some page" and "c \<in> set markup_bytes"
  shows "count_list page c =
           count_list (html_page empty_page) c + length recs * count_list (html_row empty_row) c \<and>
         html_text (html_escape s) = s"
proof -
  obtain rows where rows: "html_rows now_ms recs = Some rows"
    and page: "page = html_page \<lparr>page_styles = html_styles,
      page_active_count = show_nat (active_total now_ms recs), page_total = show_nat (length recs),
      page_ipv4_count = show_nat (version_count 4 recs), page_ipv6_count = show_nat (version_count 6 recs),
      page_rows = rows, page_now_ms = show_word now_ms\<rparr>"
    using assms(1) unfolding format_html_def by blast
  have "count_list page c = count_list (html_page empty_page) c + count_list rows c"
    unfolding page
    by (subst count_page) (simp_all only: html_page_args.select_convs show_no_markup [OF assms(2)] add_0_right add_0_left)
  with rows_markup [OF rows assms(2)] html_text_escape show ?thesis by simp
qed

lemma row_panics: "row_of_record now_ms rec = None \<longleftrightarrow> ua_cell rec = None"
  by (simp add: row_of_record_def Let_def bind_eq_None_conv)

lemma ua_cell_None:
  "ua_cell rec = None \<longleftrightarrow>
     (let ua = html_escape (ua_or ''N/A'' rec) in 40 < length ua \<and> \<not> is_char_boundary ua 40)"
  by (simp add: ua_cell_def Let_def slice_to_def)

lemma html_rows_None: "html_rows now_ms recs = None \<longleftrightarrow> (\<exists>rec \<in> set recs. ua_cell rec = None)"
  by (induction recs) (auto simp: bind_eq_None_conv row_panics)

lemma escape_ascii: "list_all is_ascii s \<Longrightarrow> list_all is_ascii (html_escape s)"
  by (induction s) (simp_all add: html_escape_Cons escape_byte_def is_ascii_def ord_def)

lemma ascii_boundary: "list_all is_ascii s \<Longrightarrow> n \<le> length s \<Longrightarrow> is_char_boundary s n"
  by (force simp: is_char_boundary_def list_all_length is_ascii_def is_cont_def not_le)

text \<open>
  C39: The HTML export panics exactly when the escaped user agent of some record is longer than 40 bytes
  and byte 40 is inside a character; it returns a page for records with ASCII user agents, however long.
\<close>

theorem html_panics_iff:
  "(format_html recs now_ms = None \<longleftrightarrow>
      (\<exists>rec \<in> set recs. let ua = html_escape (ua_or ''N/A'' rec) in
         40 < length ua \<and> \<not> is_char_boundary ua 40)) \<and>
   ((\<forall>rec \<in> set recs. list_all is_ascii (ua_or ''N/A'' rec)) \<longrightarrow> (\<exists>page. format_html recs now_ms = Some page))"
proof -
  have iff: "format_html recs now_ms = None \<longleftrightarrow> (\<exists>rec \<in> set recs. ua_cell rec = None)"
    by (simp add: format_html_def html_rows_None)
  moreover have "ua_cell rec \<noteq> None" if "list_all is_ascii (ua_or ''N/A'' rec)" for rec
    using ascii_boundary [OF escape_ascii [OF that]] by (simp add: ua_cell_None Let_def)
  ultimately show ?thesis by (auto simp: ua_cell_None)
qed

text \<open>39 letters and an \<open>e\<close> with an accent: byte 40 is the second one of the accented letter.\<close>

definition accented_record :: quarantine_record where
  "accented_record =
     hostile_record \<lparr>qr_user_agent := Some (replicate 39 CHR ''a'' @ [CHR 0xC3, CHR 0xA9])\<rparr>"

lemma escape_letters: "html_escape (replicate n CHR ''a'' @ s) = replicate n CHR ''a'' @ html_escape s"
  by (induction n) (simp_all add: html_escape_Cons escape_byte_def)

theorem html_panics_iff_witness:
  "format_html [accented_record] 7 = None \<and> (\<exists>page. format_html [hostile_record] 7 = Some page)"
proof (rule conjI)
  have "is_cont (CHR 0xA9)" by (simp add: is_cont_def ord_def)
  then show "format_html [accented_record] 7 = None"
    using html_panics_iff [of "[accented_record]" 7]
    by (simp add: accented_record_def ua_or_def escape_letters html_escape_Cons escape_byte_def
        is_char_boundary_def nth_append)
  show "\<exists>page. format_html [hostile_record] 7 = Some page"
    using html_panics_iff [of "[hostile_record]" 7]
    by (simp add: hostile_record_def ua_or_def is_ascii_def ord_def)
qed

theorem html_page_inert_witness:
  "\<exists>page. format_html [hostile_record] 7 = Some page \<and>
     count_list page CHR 0x22 =
       count_list (html_page empty_page) CHR 0x22 + count_list (html_row empty_row) CHR 0x22"
proof -
  have "format_html [hostile_record] 7 \<noteq> None"
    unfolding format_html_def option.map_disc_iff html_rows_None
    by (simp add: ua_cell_None hostile_record_def ua_or_def Let_def html_escape_Cons escape_byte_def)
  then obtain page where "format_html [hostile_record] 7 = Some page" by blast
  then show ?thesis
    using html_page_inert(1) [of "[hostile_record]" 7 page "CHR 0x22"] by (simp add: markup_bytes_def)
qed

text \<open>A pipe in a reason adds a cell to the row of the Markdown table.\<close>

lemma md_row_pipe:
  "count_list (md_row now_ms (rec\<lparr>qr_infraction_type := ''a|b''\<rparr>)) CHR ''|'' =
     Suc (count_list (md_row now_ms (rec\<lparr>qr_infraction_type := ''ab''\<rparr>)) CHR ''|'')"
  by (simp add: md_row_def is_active_def remaining_text_def ua_or_def)

lemma export_total:
  "fmt \<noteq> Html \<Longrightarrow> \<exists>r. export_records J recs fmt now_ms = Some r"
  by (cases fmt) (simp_all add: export_records_def)

end
