(* ===== verification/Quarantine_Cli.thy ===== *)
theory Quarantine_Cli
  imports Cli_Parsers Export_Props
begin

text \<open>
  The commands of the quarantine command line (\<open>src/quarantine/cli\<close>). A command runs against a world:
  the daemon, when one answers on the control socket, and the tables in the database file. The
  daemon's tables are that file. What a command prints is a list of reports, one constructor per
  message; a command is an option, \<^term>\<open>None\<close> for a panic.
\<close>

datatype quarantine_commands =
    CmdList string bool usize
  | CmdExport string string bool
  | CmdBan "string list" string string bool
  | CmdUnban "string list"
  | CmdIngestLogs string string string "string list" bool
  | CmdClear
  | CmdStatus

datatype cli_error =
    InvalidInput string
  | CliStore store_error
  | CliIpc ipc_error
  | CliIo string
  | CliOther string

datatype report =
    ReportBanned bool nat "string list"
  | ReportUnbanned bool nat "string list"
  | ReportCleared bool nat
  | ReportDaemonError string
  | ReportNoTargets
  | ReportDiscovered nat
  | ReportIngested nat
  | ReportRendered string
  | ReportExported nat string string
  | ReportStatus bool "(nat \<times> nat) option"

record 'q world =
  running :: "'q daemon option"
  disk :: "quarantine_db option"
  written :: "(string \<times> string) list"

text \<open>
  What the commands use of their surroundings: the codecs, the overflow checks of the build, the
  engines by statement number, the network library, the quarantine, Unicode's lower case, the path of
  the socket, the errors of creating the database's directory and of writing an export, and the order
  in which a hash set of targets is listed.
\<close>

record ('q, 'n) cli_env =
  env_codec :: ipc_codec
  env_json :: json_writer
  env_checks :: bool
  env_engine :: "nat \<Rightarrow> sql_engine"
  env_net :: "'n ipnet_lib"
  env_quarantine :: "('q, 'n) phylax_quarantine"
  env_lower :: "string \<Rightarrow> string"
  env_sock :: string
  env_dir_error :: "string option"
  env_write_error :: "string option"
  env_set_order :: "string list \<Rightarrow> string list"

type_synonym 'q outcome = "(cli_error + unit) \<times> report list \<times> 'q world"

section \<open>Calling the daemon and opening the store\<close>

text \<open>
  A call over the control socket. The command and the daemon run on one machine; each reads the clock
  itself, the daemon when it handles the request, and the model gives both the one reading \<open>now_ms\<close>: the time
  between the two is taken to be less than a millisecond.
\<close>

definition call_daemon ::
    "('q, 'n) cli_env \<Rightarrow> ipc_request \<Rightarrow> u64 \<Rightarrow> 'q daemon \<Rightarrow> 'q world \<Rightarrow>
     (ipc_error + ipc_response) \<times> 'q world" where
  "call_daemon X req now_ms d w =
     (let (ans, d') = remote_call (env_codec X) (env_checks X) (env_engine X) (env_net X) (env_quarantine X)
            (env_sock X) req now_ms d
      in (ans, w\<lparr>running := Some d'\<rparr>))"

definition file_db :: "'q world \<Rightarrow> quarantine_db option" where
  "file_db w = (case running w of Some d \<Rightarrow> Some (daemon_db d) | None \<Rightarrow> disk w)"

definition set_file :: "quarantine_db \<Rightarrow> 'q world \<Rightarrow> 'q world" where
  "set_file db w =
     (case running w of Some d \<Rightarrow> w\<lparr>running := Some (d\<lparr>daemon_db := db\<rparr>)\<rparr> | None \<Rightarrow> w\<lparr>disk := Some db\<rparr>)"

definition open_file :: "('q, 'n) cli_env \<Rightarrow> 'q world \<Rightarrow> store_error + quarantine_db" where
  "open_file X w = open_store (env_engine X 0) (env_dir_error X) (file_db w)"

definition later_engines :: "('q, 'n) cli_env \<Rightarrow> nat \<Rightarrow> sql_engine" where
  "later_engines X i = env_engine X (Suc i)"

section \<open>Bans\<close>

text \<open>The loop without a daemon; the first error ends it, and what was stored stays.\<close>

fun offline_ban ::
    "(nat \<Rightarrow> sql_engine) \<Rightarrow> 'n ipnet_lib \<Rightarrow> ('q, 'n) phylax_quarantine \<Rightarrow> string \<Rightarrow> u64 \<Rightarrow> u64 \<Rightarrow> bool \<Rightarrow>
     string list \<Rightarrow> quarantine_db \<Rightarrow> (store_error + string list) \<times> quarantine_db" where
  "offline_ban E N A reason now_ms expires_at exact [] db = (Inr [], db)"
| "offline_ban E N A reason now_ms expires_at exact (target # targets) db =
     (case resolve_target_cidr N A target exact of
        None \<Rightarrow> offline_ban (\<lambda>i. E (Suc i)) N A reason now_ms expires_at exact targets db
      | Some nt \<Rightarrow>
          (let rec = operator_record N reason now_ms expires_at nt in
           case record_ban (E 0) rec db of
             (Inl e, db1) \<Rightarrow> (Inl e, db1)
           | (Inr _, db1) \<Rightarrow>
               (case offline_ban (\<lambda>i. E (Suc i)) N A reason now_ms expires_at exact targets db1 of
                  (Inl e, db2) \<Rightarrow> (Inl e, db2)
                | (Inr cidrs, db2) \<Rightarrow> (Inr (qr_cidr rec # cidrs), db2))))"

definition exec_cli_ban ::
    "('q, 'n) cli_env \<Rightarrow> string list \<Rightarrow> string \<Rightarrow> string \<Rightarrow> bool \<Rightarrow> u64 \<Rightarrow> 'q world \<Rightarrow> 'q outcome option" where
  "exec_cli_ban X targets reason duration exact now_ms w =
     do { dur \<leftarrow> parse_duration_str (env_lower X) (env_checks X) duration;
          case dur of
            Inl e \<Rightarrow> Some (Inl (InvalidInput e), [], w)
          | Inr duration_secs \<Rightarrow>
              (case running w of
                 Some d \<Rightarrow>
                   (let (ans, w') = call_daemon X (Ban targets (Some reason) (Some duration_secs) exact) now_ms d w
                    in Some (case ans of
                         Inl e \<Rightarrow> (Inl (CliIpc e), [], w')
                       | Inr (Banned n cidrs) \<Rightarrow> (Inr (), [ReportBanned True n cidrs], w')
                       | Inr (ErrorMessage m) \<Rightarrow> (Inr (), [ReportDaemonError m], w')
                       | Inr _ \<Rightarrow> (Inr (), [], w')))
               | None \<Rightarrow>
                   (case open_file X w of
                      Inl e \<Rightarrow> Some (Inl (CliStore e), [], w)
                    | Inr db \<Rightarrow>
                        do { ms \<leftarrow> mul_u64 (env_checks X) duration_secs 1000;
                             expires_at \<leftarrow> add_u64 (env_checks X) now_ms ms;
                             let (res, db') = offline_ban (later_engines X) (env_net X) (env_quarantine X)
                                   reason now_ms expires_at exact targets db;
                             Some (case res of
                                 Inl e \<Rightarrow> (Inl (CliStore e), [], set_file db' w)
                               | Inr cidrs \<Rightarrow>
                                   (Inr (), [ReportBanned False (length cidrs) cidrs], set_file db' w)) })) }"

section \<open>Ingestion\<close>

function chunks :: "nat \<Rightarrow> 'a list \<Rightarrow> 'a list list" where
  "chunks n xs = (if n = 0 \<or> xs = [] then [] else take n xs # chunks n (drop n xs))"
  by pat_completeness auto
termination by (relation "measure (\<lambda>(n, xs). length xs)") auto

declare chunks.simps [simp del]

text \<open>A command after another: an error ends the sequence, the reports add up.\<close>

definition then_run ::
    "'q outcome option \<Rightarrow> ('q world \<Rightarrow> 'q outcome option) \<Rightarrow> 'q outcome option" where
  "then_run r f =
     do { (res, reports, w) \<leftarrow> r;
          case res of
            Inl e \<Rightarrow> Some (Inl e, reports, w)
          | Inr _ \<Rightarrow> do { (res', reports', w') \<leftarrow> f w; Some (res', reports @ reports', w') } }"

fun ban_chunks ::
    "('q, 'n) cli_env \<Rightarrow> string \<Rightarrow> u64 \<Rightarrow> bool \<Rightarrow> u64 \<Rightarrow> string list list \<Rightarrow> 'q world \<Rightarrow> 'q outcome option" where
  "ban_chunks X reason duration_secs exact now_ms [] w = Some (Inr (), [], w)"
| "ban_chunks X reason duration_secs exact now_ms (c # cs) w =
     then_run (exec_cli_ban X c reason (show_word duration_secs) exact now_ms w)
       (\<lambda>w'. ban_chunks X reason duration_secs exact now_ms cs w')"

text \<open>
  The input: the error of opening the file, or its lines, \<^term>\<open>None\<close> for one that cannot be read;
  \<open>map_while(Result::ok)\<close> stops at the first of those.
\<close>

definition readable_lines :: "string option list \<Rightarrow> string list" where
  "readable_lines ls = List.map_filter (\<lambda>l. l) (takeWhile (\<lambda>l. l \<noteq> None) ls)"

definition exec_cli_ingest ::
    "('q, 'n) cli_env \<Rightarrow> string + string option list \<Rightarrow> string \<Rightarrow> string \<Rightarrow> string list \<Rightarrow> bool \<Rightarrow> u64 \<Rightarrow>
     'q world \<Rightarrow> 'q outcome option" where
  "exec_cli_ingest X input reason duration exclude exact now_ms w =
     do { dur \<leftarrow> parse_duration_str (env_lower X) (env_checks X) duration;
          case dur of
            Inl e \<Rightarrow> Some (Inl (InvalidInput e), [], w)
          | Inr duration_secs \<Rightarrow>
              (case input of
                 Inl e \<Rightarrow> Some (Inl (CliIo e), [], w)
               | Inr lines \<Rightarrow>
                   (let target_list = env_set_order X (ingest_targets (env_net X) exclude (readable_lines lines))
                    in if target_list = [] then Some (Inr (), [ReportNoTargets], w)
                       else then_run (Some (Inr (), [ReportDiscovered (length target_list)], w))
                              (\<lambda>w. then_run (ban_chunks X reason duration_secs exact now_ms (chunks 500 target_list) w)
                                 (\<lambda>w. Some (Inr (), [ReportIngested (length target_list)], w))))) }"

section \<open>Lifting bans\<close>

fun offline_unban ::
    "(nat \<Rightarrow> sql_engine) \<Rightarrow> 'n ipnet_lib \<Rightarrow> u64 \<Rightarrow> string list \<Rightarrow> quarantine_db \<Rightarrow>
     (store_error + string list) \<times> quarantine_db" where
  "offline_unban E N now_ms [] db = (Inr [], db)"
| "offline_unban E N now_ms (target # targets) db =
     (case unban (E 0) N target ''Offline CLI unban'' now_ms db of
        (Inl e, db1) \<Rightarrow> (Inl e, db1)
      | (Inr unbanned, db1) \<Rightarrow>
          (case offline_unban (\<lambda>i. E (Suc i)) N now_ms targets db1 of
             (Inl e, db2) \<Rightarrow> (Inl e, db2)
           | (Inr rest, db2) \<Rightarrow> (Inr (unbanned @ rest), db2)))"

definition exec_cli_unban ::
    "('q, 'n) cli_env \<Rightarrow> string list \<Rightarrow> u64 \<Rightarrow> 'q world \<Rightarrow> 'q outcome" where
  "exec_cli_unban X targets now_ms w =
     (case running w of
        Some d \<Rightarrow>
          (let (ans, w') = call_daemon X (Unban targets) now_ms d w
           in case ans of
                Inl e \<Rightarrow> (Inl (CliIpc e), [], w')
              | Inr (Unbanned n cidrs) \<Rightarrow> (Inr (), [ReportUnbanned True n cidrs], w')
              | Inr (ErrorMessage m) \<Rightarrow> (Inr (), [ReportDaemonError m], w')
              | Inr _ \<Rightarrow> (Inr (), [], w'))
      | None \<Rightarrow>
          (case open_file X w of
             Inl e \<Rightarrow> (Inl (CliStore e), [], w)
           | Inr db \<Rightarrow>
               (let (res, db') = offline_unban (later_engines X) (env_net X) now_ms targets db
                in case res of
                     Inl e \<Rightarrow> (Inl (CliStore e), [], set_file db' w)
                   | Inr cidrs \<Rightarrow> (Inr (), [ReportUnbanned False (length cidrs) cidrs], set_file db' w))))"

definition exec_cli_clear :: "('q, 'n) cli_env \<Rightarrow> u64 \<Rightarrow> 'q world \<Rightarrow> 'q outcome" where
  "exec_cli_clear X now_ms w =
     (case running w of
        Some d \<Rightarrow>
          (let (ans, w') = call_daemon X UnbanAll now_ms d w
           in case ans of
                Inl e \<Rightarrow> (Inl (CliIpc e), [], w')
              | Inr (Unbanned n cidrs) \<Rightarrow> (Inr (), [ReportCleared True n], w')
              | Inr (ErrorMessage m) \<Rightarrow> (Inr (), [ReportDaemonError m], w')
              | Inr _ \<Rightarrow> (Inr (), [], w'))
      | None \<Rightarrow>
          (case open_file X w of
             Inl e \<Rightarrow> (Inl (CliStore e), [], w)
           | Inr db \<Rightarrow>
               (let (res, db') = unban_all (env_engine X 1) ''Offline CLI unban_all'' now_ms db
                in case res of
                     Inl e \<Rightarrow> (Inl (CliStore e), [], set_file db' w)
                   | Inr n \<Rightarrow> (Inr (), [ReportCleared False n], set_file db' w))))"

section \<open>Reading\<close>

definition select_records ::
    "('q, 'n) cli_env \<Rightarrow> bool \<Rightarrow> usize \<Rightarrow> u64 \<Rightarrow> quarantine_db \<Rightarrow> store_error + quarantine_record list" where
  "select_records X active_only limit now_ms db =
     (if active_only then get_active_bans (env_engine X 1) now_ms db
      else get_all_records (env_engine X 1) limit db)"

text \<open>The common part of \<open>List\<close> and \<open>Export\<close>: the records and their rendering.\<close>

definition rendered_records ::
    "('q, 'n) cli_env \<Rightarrow> string \<Rightarrow> bool \<Rightarrow> usize \<Rightarrow> u64 \<Rightarrow> 'q world \<Rightarrow>
     (cli_error + quarantine_record list \<times> string) option" where
  "rendered_records X format active_only limit now_ms w =
     (case export_format_from_str format of
        Inl e \<Rightarrow> Some (Inl (InvalidInput e))
      | Inr fmt \<Rightarrow>
          (case result_bind (open_file X w) (select_records X active_only limit now_ms) of
             Inl e \<Rightarrow> Some (Inl (CliStore e))
           | Inr records \<Rightarrow>
               do { out \<leftarrow> export_records (env_json X) records fmt now_ms;
                    Some (case out of Inl e \<Rightarrow> Inl (CliOther e) | Inr rendered \<Rightarrow> Inr (records, rendered)) }))"

text \<open>Opening creates the file.\<close>

definition after_open :: "('q, 'n) cli_env \<Rightarrow> 'q world \<Rightarrow> 'q world" where
  "after_open X w = (case open_file X w of Inl e \<Rightarrow> w | Inr db \<Rightarrow> set_file db w)"

definition exec_cli_list ::
    "('q, 'n) cli_env \<Rightarrow> string \<Rightarrow> bool \<Rightarrow> usize \<Rightarrow> u64 \<Rightarrow> 'q world \<Rightarrow> 'q outcome option" where
  "exec_cli_list X format active_only limit now_ms w =
     do { out \<leftarrow> rendered_records X format active_only limit now_ms w;
          Some (case out of
              Inl (InvalidInput e) \<Rightarrow> (Inl (InvalidInput e), [], w)
            | Inl e \<Rightarrow> (Inl e, [], after_open X w)
            | Inr (_, rendered) \<Rightarrow> (Inr (), [ReportRendered rendered], after_open X w)) }"

definition exec_cli_export ::
    "('q, 'n) cli_env \<Rightarrow> string \<Rightarrow> string \<Rightarrow> bool \<Rightarrow> u64 \<Rightarrow> 'q world \<Rightarrow> 'q outcome option" where
  "exec_cli_export X file format active_only now_ms w =
     do { out \<leftarrow> rendered_records X format active_only 100000 now_ms w;
          Some (case out of
              Inl (InvalidInput e) \<Rightarrow> (Inl (InvalidInput e), [], w)
            | Inl e \<Rightarrow> (Inl e, [], after_open X w)
            | Inr (records, rendered) \<Rightarrow>
                (case env_write_error X of
                   Some e \<Rightarrow> (Inl (CliIo e), [], after_open X w)
                 | None \<Rightarrow>
                     (Inr (), [ReportExported (length records) file format],
                      (after_open X w)\<lparr>written := written w @ [(file, rendered)]\<rparr>))) }"

definition exec_cli_status :: "('q, 'n) cli_env \<Rightarrow> u64 \<Rightarrow> 'q world \<Rightarrow> 'q outcome" where
  "exec_cli_status X now_ms w =
     (Inr (),
      [ReportStatus (running w \<noteq> None)
        (case open_file X w of
           Inl e \<Rightarrow> None
         | Inr db \<Rightarrow>
             Some (case get_active_bans (env_engine X 1) now_ms db of Inr r \<Rightarrow> length r | Inl e \<Rightarrow> 0,
                   case get_all_records (env_engine X 2) 100000 db of Inr r \<Rightarrow> length r | Inl e \<Rightarrow> 0))],
      after_open X w)"

text \<open>The command dispatch; \<open>read_input\<close> is what opening and reading the named log gives.\<close>

definition handle_quarantine_command ::
    "('q, 'n) cli_env \<Rightarrow> (string \<Rightarrow> string + string option list) \<Rightarrow> quarantine_commands \<Rightarrow> u64 \<Rightarrow> 'q world \<Rightarrow>
     'q outcome option" where
  "handle_quarantine_command X read_input cmd now_ms w =
     (case cmd of
        CmdBan targets reason duration exact \<Rightarrow> exec_cli_ban X targets reason duration exact now_ms w
      | CmdIngestLogs input reason duration exclude exact \<Rightarrow>
          exec_cli_ingest X (read_input input) reason duration exclude exact now_ms w
      | CmdUnban targets \<Rightarrow> Some (exec_cli_unban X targets now_ms w)
      | CmdClear \<Rightarrow> Some (exec_cli_clear X now_ms w)
      | CmdList format active_only limit \<Rightarrow> exec_cli_list X format active_only limit now_ms w
      | CmdExport file format active_only \<Rightarrow> exec_cli_export X file format active_only now_ms w
      | CmdStatus \<Rightarrow> Some (exec_cli_status X now_ms w))"

end
