(* ===== verification/Quarantine_Cli_Props.thy ===== *)
theory Quarantine_Cli_Props
  imports Quarantine_Cli
begin

text \<open>
  What the quarantine commands promise: a ban has the same effect on the database with and without a
  daemon, and an ingestion bans exactly the networks of the addresses it found and did not exclude.
\<close>

section \<open>Two copies of one loop\<close>

lemma bind_Some_map: "Option.bind x (\<lambda>a. Some (f a)) = map_option f x"
  by (cases x) simp_all

lemma bind_map_option: "Option.bind x (\<lambda>a. map_option f (g a)) = map_option f (Option.bind x g)"
  by (cases x) simp_all

lemma resolve_target_eq:
  "resolve_target_cidr N A t exact = (if trim t = [] then None else ban_target N A exact (trim t))"
  by (simp add: resolve_target_cidr_def ban_target_def Let_def bind_Some_map bind_map_option
      split: option.split)

text \<open>The effect of the bans of a list of networks on a working store.\<close>

definition ban_one :: "'n ipnet_lib \<Rightarrow> string \<Rightarrow> u64 \<Rightarrow> u64 \<Rightarrow> 'n \<times> string \<Rightarrow> quarantine_db \<Rightarrow> quarantine_db" where
  "ban_one N reason now_ms e nt db = snd (record_ban plain_engine (operator_record N reason now_ms e nt) db)"

definition ban_all ::
    "'n ipnet_lib \<Rightarrow> string \<Rightarrow> u64 \<Rightarrow> u64 \<Rightarrow> ('n \<times> string) list \<Rightarrow> quarantine_db \<Rightarrow> quarantine_db" where
  "ban_all N reason now_ms e nts db = fold (ban_one N reason now_ms e) nts db"

lemma ban_all_simps [simp]:
  "ban_all N reason now e [] db = db"
  "ban_all N reason now e (nt # nts) db = ban_all N reason now e nts (ban_one N reason now e nt db)"
  by (simp_all add: ban_all_def)

definition fits :: "u64 \<Rightarrow> u64 \<Rightarrow> bool" where
  "fits now_ms e \<longleftrightarrow> unat now_ms < 2 ^ 63 \<and> unat e < 2 ^ 63"

lemma record_ban_any_engine:
  assumes "engine_works E" "fits now e"
  shows "record_ban E (operator_record N reason now e nt) db = (Inr (), ban_one N reason now e nt db)"
  using record_ban_works [of E "operator_record N reason now e nt" db]
    record_ban_works [of plain_engine "operator_record N reason now e nt" db] assms
  by (auto simp: fits_def ban_one_def)

lemma ban_targets_db:
  "\<forall>i. engine_works (E i) \<Longrightarrow> fits now e \<Longrightarrow>
     daemon_db (snd (ban_targets E N A reason now e exact ts d)) =
       ban_all N reason now e (resolved_targets N A exact ts) (daemon_db d)"
proof (induction ts arbitrary: E d)
  case (Cons t ts)
  then show ?case
    by (cases "if trim t = [] then None else ban_target N A exact (trim t)")
      (simp_all add: Let_def case_prod_unfold record_ban_any_engine)
qed simp

lemma offline_ban_db:
  "\<forall>i. engine_works (E i) \<Longrightarrow> fits now e \<Longrightarrow>
     offline_ban E N A reason now e exact ts db =
       (Inr (map (net_show N \<circ> fst) (resolved_targets N A exact ts)),
        ban_all N reason now e (resolved_targets N A exact ts) db)"
proof (induction ts arbitrary: E db)
  case (Cons t ts)
  then show ?case
    by (cases "if trim t = [] then None else ban_target N A exact (trim t)")
      (simp_all add: Let_def record_ban_any_engine resolve_target_eq)
qed simp

lemma ban_all_append: "ban_all N reason now e (xs @ ys) db = ban_all N reason now e ys (ban_all N reason now e xs db)"
  by (simp add: ban_all_def)

lemma ban_all_set:
  assumes "store_inv db" "fits now e"
  shows "store_inv (ban_all N reason now e nts db) \<and>
    active_set (ban_all N reason now e nts db) = active_set db \<union> (net_show N \<circ> fst) ` set nts"
  using assms(1)
proof (induction nts arbitrary: db)
  case (Cons nt nts)
  let ?r = "(plain_engine, operator_record N reason now e nt)"
  have "good_ban_request ?r" using assms(2) by (simp add: fits_def)
  with store.ban_ok [of db ?r] store.ban_bans [of db ?r] Cons.prems
  have "store_inv (ban_one N reason now e nt db)"
    "active_set (ban_one N reason now e nt db) = insert (net_show N (fst nt)) (active_set db)"
    by (simp_all add: ban_one_def)
  with Cons.IH show ?case by simp
qed simp

section \<open>Commands on a working store\<close>

definition works :: "('q, 'n) cli_env \<Rightarrow> bool" where
  "works X \<longleftrightarrow> (\<forall>i. engine_works (env_engine X i)) \<and> env_dir_error X = None"

definition stored :: "'q world \<Rightarrow> quarantine_db" where
  "stored w = (case file_db w of Some db \<Rightarrow> db | None \<Rightarrow> empty_db)"

lemma open_file_works: "works X \<Longrightarrow> open_file X w = Inr (stored w)"
  by (simp add: open_file_def open_store_def works_def init_schema_def stored_def)

lemma later_works: "works X \<Longrightarrow> engine_works (later_engines X i)" "works X \<Longrightarrow> engine_works (env_engine X i)"
  by (simp_all add: works_def later_engines_def)

lemma stored_simps [simp]:
  "stored (w\<lparr>disk := Some db, running := None\<rparr>) = db"
  "running w = None \<Longrightarrow> stored (set_file db w) = db"
  "running w = None \<Longrightarrow> running (set_file db w) = None"
  by (simp_all add: stored_def file_db_def set_file_def)

text \<open>The expiry of a ban, when no product or sum of it overflows.\<close>

definition expiry_ms :: "u64 \<Rightarrow> u64 \<Rightarrow> u64 \<Rightarrow> bool" where
  "expiry_ms now_ms secs e \<longleftrightarrow> unat e = unat now_ms + unat secs * 1000 \<and> unat e < 2 ^ 63"

lemma expiry_ms_computed:
  assumes "expiry_ms now secs e"
  shows "mul_u64 checks secs 1000 = Some (secs * 1000)" "add_u64 checks now (secs * 1000) = Some e"
    "fits now e"
proof -
  have l: "unat secs * 1000 < 2 ^ 64" using assms by (simp add: expiry_ms_def)
  then have "unat (secs * 1000) = unat secs * 1000" by (simp add: unat_word_ariths)
  with assms show "mul_u64 checks secs 1000 = Some (secs * 1000)" "add_u64 checks now (secs * 1000) = Some e"
    "fits now e"
    by (simp_all add: mul_u64_ok add_u64_ok expiry_ms_def fits_def)
qed

lemma exec_cli_ban_offline:
  assumes "works X" "running w = None" "expiry_ms now secs e"
    and "parse_duration_str (env_lower X) (env_checks X) dur = Some (Inr secs)"
  shows "exec_cli_ban X ts reason dur exact now w =
    (let nts = resolved_targets (env_net X) (env_quarantine X) exact ts;
         cidrs = map (net_show (env_net X) \<circ> fst) nts
     in Some (Inr (), [ReportBanned False (length cidrs) cidrs],
              set_file (ban_all (env_net X) reason now e nts (stored w)) w))"
  using expiry_ms_computed [OF assms(3)] later_works [OF assms(1)]
  by (simp add: exec_cli_ban_def assms(2,4) open_file_works [OF assms(1)] offline_ban_db Let_def)

lemma dispatch_ban:
  assumes "works X" "expiry_ms now secs e"
  shows "\<exists>d'. dispatch (env_checks X) (env_engine X) (env_net X) (env_quarantine X)
        (Ban ts (Some reason) (Some secs) exact) now d =
      Some (let cidrs = map (net_show (env_net X) \<circ> fst) (resolved_targets (env_net X) (env_quarantine X) exact ts)
            in Banned (length cidrs) cidrs, d') \<and>
    daemon_db d' = ban_all (env_net X) reason now e
      (resolved_targets (env_net X) (env_quarantine X) exact ts) (daemon_db d)"
proof -
  obtain cidrs d' where r: "ban_targets (env_engine X) (env_net X) (env_quarantine X) reason now e exact ts d = (cidrs, d')"
    by fastforce
  with expiry_ms_computed [OF assms(2)] show ?thesis
    using ban_targets_cidrs [of "env_engine X" "env_net X" "env_quarantine X" reason now e exact ts d]
      ban_targets_db [of "env_engine X" now e "env_net X" "env_quarantine X" reason exact ts d] later_works(2) [OF assms(1)]
    by (simp add: dispatch_def exec_ban_def Let_def)
qed

text \<open>
  C19: a ban has one effect, whether a daemon runs or not: on the same tables, the command that goes
  through the control socket and the one that opens the database report the same networks and leave
  the same tables behind.
\<close>

theorem live_and_offline_ban_agree:
  assumes "works X" "expiry_ms now secs e"
    and "parse_duration_str (env_lower X) (env_checks X) dur = Some (Inr secs)"
    and "running live = Some d" "running offline = None" "disk offline = Some (daemon_db d)"
    and "cidrs = map (net_show (env_net X) \<circ> fst) (resolved_targets (env_net X) (env_quarantine X) exact ts)"
    and "carries_request (env_codec X) (Ban ts (Some reason) (Some secs) exact)"
    and "carries_response (env_codec X) (Banned (length cidrs) cidrs)"
  shows "\<exists>live' offline'.
    exec_cli_ban X ts reason dur exact now live = Some (Inr (), [ReportBanned True (length cidrs) cidrs], live') \<and>
    exec_cli_ban X ts reason dur exact now offline =
      Some (Inr (), [ReportBanned False (length cidrs) cidrs], offline') \<and>
    file_db live' = file_db offline'"
proof -
  let ?nts = "resolved_targets (env_net X) (env_quarantine X) exact ts"
  obtain d' where d': "dispatch (env_checks X) (env_engine X) (env_net X) (env_quarantine X)
        (Ban ts (Some reason) (Some secs) exact) now d = Some (Banned (length cidrs) cidrs, d')"
    "daemon_db d' = ban_all (env_net X) reason now e ?nts (daemon_db d)"
    using dispatch_ban [OF assms(1,2), of ts reason exact d] by (auto simp: Let_def assms(7))
  have "remote_call (env_codec X) (env_checks X) (env_engine X) (env_net X) (env_quarantine X) (env_sock X)
      (Ban ts (Some reason) (Some secs) exact) now d = (Inr (Banned (length cidrs) cidrs), d')"
    by (rule remote_call_eq [OF d'(1) assms(8,9)])
  then have "exec_cli_ban X ts reason dur exact now live =
      Some (Inr (), [ReportBanned True (length cidrs) cidrs], live\<lparr>running := Some d'\<rparr>)"
    by (simp add: exec_cli_ban_def assms(3,4) call_daemon_def)
  moreover have "stored offline = daemon_db d"
    by (simp add: stored_def file_db_def assms(5,6))
  ultimately show ?thesis
    using exec_cli_ban_offline [OF assms(1,5,2,3), of ts reason exact] assms(5) d'(2)
    by (simp add: Let_def file_db_def set_file_def assms(7))
qed

definition ban_codec :: ipc_codec where
  "ban_codec =
     \<lparr>enc_request = (\<lambda>_. Inr ''ban''), dec_request = (\<lambda>_. Inr (Ban [''10.0.0.9''] (Some ''x'') (Some 60) True)),
      enc_response = (\<lambda>_. Inr ''ok''), dec_response = (\<lambda>_. Inr (Banned 1 [''10.0.0.9/32'']))\<rparr>"

definition example_env :: "((cidr \<times> u64) list, cidr) cli_env" where
  "example_env =
     \<lparr>env_codec = ban_codec, env_json = \<lparr>json_pretty = (\<lambda>_. Inr []), json_line = (\<lambda>_. Inr [])\<rparr>,
      env_checks = True, env_engine = (\<lambda>_. plain_engine), env_net = cidr_lib,
      env_quarantine = list_quarantine, env_lower = (\<lambda>s. s), env_sock = ''s'', env_dir_error = None,
      env_write_error = None, env_set_order = (\<lambda>ts. ts)\<rparr>"

lemma example_env_simps:
  "env_codec example_env = ban_codec" "env_net example_env = cidr_lib"
  "env_quarantine example_env = list_quarantine" "env_set_order example_env = (\<lambda>ts. ts)"
  by (simp_all add: example_env_def)

lemma example_env_works: "works example_env"
  by (simp add: works_def example_env_def)

lemma duration_60: "parse_duration_str U checks ''60'' = Some (Inr 60)"
proof -
  have "show_word (60 :: u64) = ''60''" by code_simp
  then show ?thesis using duration_number [of U checks 60] by simp
qed

lemma example_resolved:
  "resolved_targets cidr_lib list_quarantine True [''10.0.0.9''] = [((V4 10 0 0 9, 32), ''10.0.0.9'')]"
  "net_show cidr_lib (V4 10 0 0 9, 32) = ''10.0.0.9/32''"
  by code_simp+

theorem live_and_offline_ban_agree_witness:
  "\<exists>live' offline'.
    exec_cli_ban example_env [''10.0.0.9''] ''x'' ''60'' True 1000
      \<lparr>running = Some (new_manager [] empty_db []), disk = None, written = []\<rparr> =
        Some (Inr (), [ReportBanned True 1 [''10.0.0.9/32'']], live') \<and>
    exec_cli_ban example_env [''10.0.0.9''] ''x'' ''60'' True 1000
      \<lparr>running = None, disk = Some empty_db, written = []\<rparr> =
        Some (Inr (), [ReportBanned False 1 [''10.0.0.9/32'']], offline') \<and>
    file_db live' = file_db offline'"
proof -
  have "carries_request ban_codec (Ban [''10.0.0.9''] (Some ''x'') (Some 60) True)"
    "carries_response ban_codec (Banned 1 [''10.0.0.9/32''])"
    by (simp_all add: ban_codec_def carries_request_def carries_response_def)
  then show ?thesis
    using live_and_offline_ban_agree [OF example_env_works, of 1000 60 61000 "''60''"
        "\<lparr>running = Some (new_manager [] empty_db []), disk = None, written = []\<rparr>" "new_manager [] empty_db []"
        "\<lparr>running = None, disk = Some empty_db, written = []\<rparr>" "[''10.0.0.9/32'']" True "[''10.0.0.9'']" "''x''"]
    by (simp add: example_env_simps expiry_ms_def duration_60 new_manager_def example_resolved
        del: resolved_targets_simps)
qed

section \<open>Ingestion\<close>

lemma concat_chunks: "0 < n \<Longrightarrow> concat (chunks n xs) = xs"
  by (induction n xs rule: chunks.induct) (subst chunks.simps, simp)

lemma resolved_append:
  "resolved_targets N A exact (xs @ ys) = resolved_targets N A exact xs @ resolved_targets N A exact ys"
  by (induction xs) simp_all

lemma ban_chunks_offline:
  assumes "works X" "expiry_ms now secs e"
  shows "running w = None \<Longrightarrow> cs \<noteq> [] \<Longrightarrow>
    \<exists>reports w'. ban_chunks X reason secs exact now cs w = Some (Inr (), reports, w') \<and> running w' = None \<and>
      stored w' = ban_all (env_net X) reason now e
        (resolved_targets (env_net X) (env_quarantine X) exact (concat cs)) (stored w)"
proof (induction cs arbitrary: w)
  case (Cons c cs)
  let ?w1 = "set_file (ban_all (env_net X) reason now e
      (resolved_targets (env_net X) (env_quarantine X) exact c) (stored w)) w"
  have 1: "exec_cli_ban X c reason (show_word secs) exact now w =
      Some (Inr (), [ReportBanned False (length (resolved_targets (env_net X) (env_quarantine X) exact c))
        (map (net_show (env_net X) \<circ> fst) (resolved_targets (env_net X) (env_quarantine X) exact c))], ?w1)"
    using exec_cli_ban_offline [OF assms(1) Cons.prems(1) assms(2) duration_number] by (simp add: Let_def)
  show ?case
  proof (cases "cs = []")
    case True
    then show ?thesis using 1 Cons.prems(1) by (simp add: then_run_def)
  next
    case False
    obtain reports w' where "ban_chunks X reason secs exact now cs ?w1 = Some (Inr (), reports, w')"
      "running w' = None" "stored w' = ban_all (env_net X) reason now e
        (resolved_targets (env_net X) (env_quarantine X) exact (concat cs)) (stored ?w1)"
      using Cons.IH [of ?w1] False Cons.prems(1) by auto
    then show ?thesis using 1 Cons.prems(1) by (simp add: then_run_def resolved_append ban_all_append)
  qed
qed simp

lemma set_resolved:
  "(net_show N \<circ> fst) ` set (resolved_targets N A exact ts) =
     {net_show N net | net. \<exists>t \<in> set ts. \<exists>trigger. resolve_target_cidr N A t exact = Some (net, trigger)}"
  unfolding resolved_targets_def set_map_filter resolve_target_eq by force

lemma ingest_targets_set:
  "t \<in> set (ingest_targets N exclude lines) \<longleftrightarrow>
     eligible N exclude t \<and> (\<exists>line \<in> set lines. t \<in> set (extract_ips_from_line N line))"
  by (auto simp: ingest_targets_def)

definition sound_target :: "'n ipnet_lib \<Rightarrow> string list \<Rightarrow> string list \<Rightarrow> string \<Rightarrow> bool" where
  "sound_target N exclude lines t \<longleftrightarrow>
     (\<exists>line \<in> set lines. t \<in> set (extract_ips_from_line N line)) \<and> names_network N t \<and>
     (\<forall>addr. parse_ip t = Some addr \<longrightarrow> (\<forall>ex \<in> set exclude. \<not> exclusion_covers N ex addr))"

lemma ingest_targets_sound: "t \<in> set (ingest_targets N exclude lines) \<Longrightarrow> sound_target N exclude lines t"
  using extracted_named eligible_not_covered by (fastforce simp: ingest_targets_set sound_target_def)

lemma exec_cli_ingest_offline:
  assumes "works X" "expiry_ms now secs e" "running w = None"
    and "parse_duration_str (env_lower X) (env_checks X) dur = Some (Inr secs)"
    and "ts = env_set_order X (ingest_targets (env_net X) exclude (readable_lines lines))"
  shows "\<exists>reports w'. exec_cli_ingest X (Inr lines) reason dur exclude exact now w = Some (Inr (), reports, w') \<and>
    stored w' = ban_all (env_net X) reason now e (resolved_targets (env_net X) (env_quarantine X) exact ts) (stored w)"
proof (cases "ts = []")
  case True
  with assms(4,5) show ?thesis by (simp add: exec_cli_ingest_def Let_def)
next
  case False
  then have "chunks 500 ts \<noteq> []" by (subst chunks.simps) simp
  from ban_chunks_offline [OF assms(1,2,3) this, of reason exact] obtain reports w' where
    "ban_chunks X reason secs exact now (chunks 500 ts) w = Some (Inr (), reports, w')"
    "stored w' = ban_all (env_net X) reason now e (resolved_targets (env_net X) (env_quarantine X) exact ts) (stored w)"
    by (auto simp: concat_chunks)
  with False assms(4,5) show ?thesis by (simp add: exec_cli_ingest_def Let_def then_run_def)
qed

text \<open>
  C35: an ingestion without a daemon adds to the stored networks those of the targets it found, in
  whatever order and however they fall into chunks, and no other; every target was read from a line
  before the first unreadable one, names an address or a network, and is no excluded address.
\<close>

theorem ingest_bans_targets:
  assumes "works X" "expiry_ms now secs e" "running w = None" "store_inv (stored w)"
    and "parse_duration_str (env_lower X) (env_checks X) dur = Some (Inr secs)"
    and "ts = ingest_targets (env_net X) exclude (readable_lines lines)" "set (env_set_order X ts) = set ts"
  shows "\<exists>reports w'. exec_cli_ingest X (Inr lines) reason dur exclude exact now w = Some (Inr (), reports, w') \<and>
    active_set (stored w') = active_set (stored w) \<union>
      {net_show (env_net X) net | net. \<exists>t \<in> set ts. \<exists>trigger.
         resolve_target_cidr (env_net X) (env_quarantine X) t exact = Some (net, trigger)} \<and>
    (\<forall>t \<in> set ts. sound_target (env_net X) exclude (readable_lines lines) t)"
proof -
  obtain reports w' where w: "exec_cli_ingest X (Inr lines) reason dur exclude exact now w = Some (Inr (), reports, w')"
    "stored w' = ban_all (env_net X) reason now e
      (resolved_targets (env_net X) (env_quarantine X) exact (env_set_order X ts)) (stored w)"
    using exec_cli_ingest_offline [OF assms(1,2,3,5) refl, where exclude = exclude and lines = lines and reason = reason and exact = exact] assms(6) by auto
  have "active_set (stored w') = active_set (stored w) \<union>
      (net_show (env_net X) \<circ> fst) ` set (resolved_targets (env_net X) (env_quarantine X) exact (env_set_order X ts))"
    unfolding w(2) using ban_all_set [OF assms(4) expiry_ms_computed(3) [OF assms(2)]] by blast
  then have "active_set (stored w') = active_set (stored w) \<union>
      {net_show (env_net X) net | net. \<exists>t \<in> set ts. \<exists>trigger.
         resolve_target_cidr (env_net X) (env_quarantine X) t exact = Some (net, trigger)}"
    unfolding set_resolved assms(7) .
  with w(1) show ?thesis using ingest_targets_sound assms(6) by blast
qed

theorem ingest_bans_targets_witness:
  "\<exists>reports w'. exec_cli_ingest example_env (Inr [Some ''10.0.0.9'', None, Some ''10.0.0.7'']) ''x'' ''60'' [''10.0.0.5''] False
      1000 \<lparr>running = None, disk = None, written = []\<rparr> = Some (Inr (), reports, w') \<and>
    active_set (stored w') = {''10.0.0.0/24''}"
proof -
  let ?w = "\<lparr>running = None, disk = None, written = []\<rparr> :: (cidr \<times> u64) list world"
  have t: "ingest_targets cidr_lib [''10.0.0.5''] (readable_lines [Some ''10.0.0.9'', None, Some ''10.0.0.7'']) = [''10.0.0.9'']"
    and r: "resolve_target_cidr cidr_lib list_quarantine ''10.0.0.9'' False = Some ((V4 10 0 0 0, 24), ''10.0.0.9'')"
    and s: "net_show cidr_lib (V4 10 0 0 0, 24) = ''10.0.0.0/24''"
    by code_simp+
  have "stored ?w = empty_db" by (simp add: stored_def file_db_def)
  then show ?thesis
    using ingest_bans_targets [OF example_env_works, of 1000 60 61000 ?w "''60''" "[''10.0.0.9'']" "[''10.0.0.5'']"
        "[Some ''10.0.0.9'', None, Some ''10.0.0.7'']" "''x''" False]
    by (simp add: example_env_simps expiry_ms_def duration_60 t r store_inv_empty s) blast
qed

text \<open>
  The exclusion looks at the address of a target, not at the network that is banned for it: without
  \<open>--exact\<close> a neighbour's ban covers the excluded address, and so does a listed network around it.
\<close>

lemma exclusion_not_transferred:
  "ingest_targets cidr_lib [''10.0.0.5''] [''10.0.0.9''] = [''10.0.0.9'']"
  "map_option (\<lambda>nt. net_contains cidr_lib (fst nt) (V4 10 0 0 5))
     (resolve_target_cidr cidr_lib list_quarantine ''10.0.0.9'' False) = Some True"
  "ingest_targets cidr_lib [''10.0.0.5''] [''10.0.0.0/24''] = [''10.0.0.0/24'']"
  by code_simp+

end
