(* ===== verification/Defense.thy ===== *)
theory Defense
  imports Manager Headers Tls_Fingerprint
begin

text \<open>
  The perimeter defence (\<open>src/defense.rs\<close>). The detectors (the payload guard, the shield pipeline and
  the bot guard) are phylax's and parameters, with one state for all of them; what this repository
  adds is the order of the checks, the exemption of trusted networks, the bans that a trap queues and
  the responses.
\<close>

section \<open>The interface of phylax\<close>

datatype 'c bot_verdict =
    BotAllowed 'c
  | BotBlocked 'c string

record payload_threat =
  category_name :: string
  description :: string

record shield_request =
  sr_client_ip :: string
  sr_target_uri :: string
  sr_http_method :: string
  sr_user_agent :: "string option"
  sr_now_ms :: u64

record informant_config =
  inf_enabled :: bool
  inf_dry_run :: bool
  inf_api_key :: "string option"
  inf_webhook_url :: "string option"
  inf_webhook_auth :: "string option"
  inf_syslog_cef :: bool

datatype abuse_reporting = NoReporting | DefaultReporting | WithInformant informant_config

record promotion_verdict =
  promoted_path :: string
  promoted_category :: string
  distinct_subnets :: nat
  total_hits :: nat

record ('s, 'c) phylax_lib =
  px_build :: "bool \<Rightarrow> bool \<Rightarrow> abuse_reporting \<Rightarrow> 's"
  px_inspect :: "string \<Rightarrow> string \<Rightarrow> payload_threat + unit"
  px_normalize_path :: "string \<Rightarrow> string"
  px_record_and_check :: "'s \<Rightarrow> string \<Rightarrow> u64 \<Rightarrow> 's"
  px_harvest :: "'s \<Rightarrow> string option \<Rightarrow> string \<Rightarrow> u64 \<Rightarrow> 's"
  px_shield :: "'s \<Rightarrow> shield_request \<Rightarrow> string option \<times> 's"
  px_bot :: "'s \<Rightarrow> string option \<Rightarrow> string \<Rightarrow> 'c bot_verdict"
  px_record_anomalous :: "'s \<Rightarrow> string \<Rightarrow> ip_addr \<Rightarrow> u64 \<Rightarrow> promotion_verdict option \<times> 's"
  px_derive_cidr :: "string \<Rightarrow> string option"
  px_unknown :: 'c
  px_automation_tool :: 'c
  px_category_name :: "'c \<Rightarrow> string"

section \<open>The defence\<close>

record ('s, 'n, 'q) edge_defense =
  ed_shield :: 's
  ed_manager :: "'q daemon option"
  ed_trusted_subnets :: "'n list"

text \<open>\<open>IpNet::from(ip)\<close> is the network of the one address.\<close>

definition trusted_subnets :: "'n ipnet_lib \<Rightarrow> string list \<Rightarrow> 'n list" where
  "trusted_subnets N cidrs =
     List.map_filter (\<lambda>s. case net_parse N s of
         Some net \<Rightarrow> Some net
       | None \<Rightarrow> (case parse_ip s of
             Some ip \<Rightarrow> net_new N ip (if is_ipv4 ip then 32 else 128)
           | None \<Rightarrow> None)) cidrs"

definition reporting_of :: "security_config \<Rightarrow> abuse_reporting" where
  "reporting_of c =
     (if \<not> enable_defense c then NoReporting
      else if abuseipdb_api_key c \<noteq> None \<or> webhook_url c \<noteq> None \<or> syslog_cef c
      then WithInformant \<lparr>inf_enabled = True, inf_dry_run = False, inf_api_key = abuseipdb_api_key c,
             inf_webhook_url = webhook_url c, inf_webhook_auth = None, inf_syslog_cef = syslog_cef c\<rparr>
      else DefaultReporting)"

definition new_edge_defense ::
    "('s, 'c) phylax_lib \<Rightarrow> 'n ipnet_lib \<Rightarrow> security_config \<Rightarrow> ('s, 'n, 'q) edge_defense" where
  "new_edge_defense P N c =
     \<lparr>ed_shield = px_build P False False (reporting_of c), ed_manager = None,
      ed_trusted_subnets = trusted_subnets N (trusted_cidrs c)\<rparr>"

definition with_pipeline :: "'s \<Rightarrow> ('s, 'n, 'q) edge_defense" where
  "with_pipeline s = \<lparr>ed_shield = s, ed_manager = None, ed_trusted_subnets = []\<rparr>"

definition with_quarantine_manager ::
    "'q daemon \<Rightarrow> ('s, 'n, 'q) edge_defense \<Rightarrow> ('s, 'n, 'q) edge_defense" where
  "with_quarantine_manager qm ed = ed\<lparr>ed_manager := Some qm\<rparr>"

fun in_subnets :: "'n ipnet_lib \<Rightarrow> 'n list \<Rightarrow> ip_addr \<Rightarrow> bool" where
  "in_subnets N [] ip = False"
| "in_subnets N (net # nets) ip = (if net_contains N net ip then True else in_subnets N nets ip)"

definition is_trusted :: "'n ipnet_lib \<Rightarrow> ('s, 'n, 'q) edge_defense \<Rightarrow> ip_addr \<Rightarrow> bool" where
  "is_trusted N ed ip = in_subnets N (ed_trusted_subnets ed) ip"

text \<open>
  The record a trap queues. The sum is on \<open>u64\<close>; it does not reach \<open>2^64\<close> for a clock of this era.
\<close>

definition trap_record :: "string \<Rightarrow> ip_addr \<Rightarrow> string \<Rightarrow> string option \<Rightarrow> u64 \<Rightarrow> quarantine_record" where
  "trap_record cidr client_ip reason user_agent now_ms =
     \<lparr>qr_cidr = cidr, qr_ip_version = (if is_ipv4 client_ip then 4 else 6),
      qr_trigger_ip = show_ip client_ip, qr_infraction_type = reason, qr_infraction_count = 1,
      qr_quarantined_at = now_ms, qr_expires_at = now_ms + 24 * 60 * 60 * 1000,
      qr_user_agent = user_agent, qr_active = True\<rparr>"

definition notify_quarantine ::
    "('s, 'c) phylax_lib \<Rightarrow> ip_addr \<Rightarrow> string \<Rightarrow> string option \<Rightarrow> u64 \<Rightarrow> ('s, 'n, 'q) edge_defense \<Rightarrow>
     ('s, 'n, 'q) edge_defense" where
  "notify_quarantine P client_ip reason user_agent now_ms ed =
     (case ed_manager ed of
        None \<Rightarrow> ed
      | Some qm \<Rightarrow>
          (case px_derive_cidr P (show_ip client_ip) of
             None \<Rightarrow> ed
           | Some cidr \<Rightarrow>
               ed\<lparr>ed_manager := Some (queue_record (trap_record cidr client_ip reason user_agent now_ms) qm)\<rparr>))"

definition on_shield :: "('s \<Rightarrow> 's) \<Rightarrow> ('s, 'n, 'q) edge_defense \<Rightarrow> ('s, 'n, 'q) edge_defense" where
  "on_shield f ed = ed\<lparr>ed_shield := f (ed_shield ed)\<rparr>"

text \<open>Harvesting the user agent of a trapped client, if it sent one.\<close>

definition harvest_if_some ::
    "('s, 'c) phylax_lib \<Rightarrow> string option \<Rightarrow> string \<Rightarrow> u64 \<Rightarrow> ('s, 'n, 'q) edge_defense \<Rightarrow>
     ('s, 'n, 'q) edge_defense" where
  "harvest_if_some P user_agent reason now_ms ed =
     (case user_agent of
        Some ua \<Rightarrow> on_shield (\<lambda>s. px_harvest P s (Some ua) reason now_ms) ed
      | None \<Rightarrow> ed)"

definition record_anomalous_uri ::
    "('s, 'c) phylax_lib \<Rightarrow> string \<Rightarrow> ip_addr \<Rightarrow> u64 \<Rightarrow> ('s, 'n, 'q) edge_defense \<Rightarrow>
     promotion_verdict option \<times> ('s, 'n, 'q) edge_defense" where
  "record_anomalous_uri P path client_ip now_ms ed =
     (let (v, s) = px_record_anomalous P (ed_shield ed) path client_ip now_ms in (v, ed\<lparr>ed_shield := s\<rparr>))"

section \<open>The responses\<close>

definition text_plain :: string where
  "text_plain = ''text/plain; charset=utf-8''"

definition stealth_404_response :: "'h http_lib \<Rightarrow> 'h response" where
  "stealth_404_response L =
     set_header L ''content-length'' ''14'' (set_header L ''content-type'' text_plain
       ((new_response L (''404 Not Found'' @ [CHR 0x0A]))\<lparr>rs_status := 404\<rparr>))"

text \<open>\<open>HeaderValue::from_str(&body_len_str).unwrap()\<close>: digits are a header value.\<close>

definition forbidden_response :: "'h http_lib \<Rightarrow> string \<Rightarrow> 'h response" where
  "forbidden_response L body =
     set_header L ''content-length'' (show_nat (length body)) (set_header L ''content-type'' text_plain
       ((new_response L body)\<lparr>rs_status := 403\<rparr>))"

definition forbidden_bot_response :: "'h http_lib \<Rightarrow> string \<Rightarrow> string \<Rightarrow> 'h response" where
  "forbidden_bot_response L category matched_token =
     forbidden_response L (''Access Denied: '' @ category @ '' ('' @ matched_token @
       '') is prohibited on Sovereign infrastructure (RFC 9309).'' @ [CHR 0x0A])"

definition forbidden_payload_response :: "'h http_lib \<Rightarrow> string \<Rightarrow> 'h response" where
  "forbidden_payload_response L desc =
     forbidden_response L (''Access Denied: Adversarial Exploit Payload ('' @ desc @
       '') is prohibited on Sovereign infrastructure.'' @ [CHR 0x0A])"

section \<open>The evaluation of a request\<close>

definition is_canary :: "string \<Rightarrow> bool" where
  "is_canary norm_path \<longleftrightarrow>
     norm_path = ''/_sovereign/canary_trap'' \<or> starts_with norm_path ''/_sovereign/canary_trap/'' \<or>
     norm_path = ''/decoy/canary'' \<or> starts_with norm_path ''/decoy/canary/''"

definition spoof_reason :: "client_tls_profile option \<Rightarrow> string option \<Rightarrow> string option" where
  "spoof_reason tls_profile user_agent =
     (case tls_profile of
        None \<Rightarrow> None
      | Some profile \<Rightarrow>
          (case verify_user_agent_coherence profile user_agent of
             Spoofed reason \<Rightarrow> Some reason | Coherent \<Rightarrow> None))"

definition bot_verdict_for ::
    "('s, 'c) phylax_lib \<Rightarrow> 's \<Rightarrow> ip_addr \<Rightarrow> string option \<Rightarrow> string \<Rightarrow> 'c bot_verdict" where
  "bot_verdict_for P s client_ip user_agent norm_path =
     (if is_loopback client_ip \<and> user_agent = None then BotAllowed (px_unknown P)
      else px_bot P s user_agent norm_path)"

definition evaluate_request_full ::
    "'h http_lib \<Rightarrow> ('s, 'c) phylax_lib \<Rightarrow> 'n ipnet_lib \<Rightarrow> u64 \<Rightarrow> ip_addr \<Rightarrow> string \<Rightarrow> string \<Rightarrow>
     string option \<Rightarrow> string option \<Rightarrow> client_tls_profile option \<Rightarrow> ('s, 'n, 'q) edge_defense \<Rightarrow>
     'h response option \<times> ('s, 'n, 'q) edge_defense" where
  "evaluate_request_full L P N now_ms client_ip rmethod path query user_agent tls_profile ed =
     (if is_trusted N ed client_ip then (None, ed)
      else
        (let ip_str = show_ip client_ip;
             query_str = (case query of Some q \<Rightarrow> q | None \<Rightarrow> []);
             quarantine = on_shield (\<lambda>s. px_record_and_check P s ip_str now_ms)
         in case px_inspect P path query_str of
              Inl threat \<Rightarrow>
                (Some (forbidden_payload_response L (description threat)),
                 harvest_if_some P user_agent (description threat) now_ms
                   (notify_quarantine P client_ip (category_name threat) user_agent now_ms (quarantine ed)))
            | Inr _ \<Rightarrow>
              (let norm_path = px_normalize_path P path in
               case spoof_reason tls_profile user_agent of
                 Some reason \<Rightarrow>
                   (Some (stealth_404_response L),
                    harvest_if_some P user_agent reason now_ms
                      (notify_quarantine P client_ip ''tls_clienthello_spoof'' user_agent now_ms (quarantine ed)))
               | None \<Rightarrow>
                 if is_canary norm_path
                 then (Some (stealth_404_response L),
                       notify_quarantine P client_ip ''canary_trap_honeylink'' user_agent now_ms
                         (quarantine (on_shield (\<lambda>s. px_harvest P s user_agent
                            ''Tripped invisible canary trap honeylink'' now_ms) ed)))
                 else
                   (let (denied, s1) = px_shield P (ed_shield ed)
                          \<lparr>sr_client_ip = ip_str, sr_target_uri = norm_path, sr_http_method = rmethod,
                           sr_user_agent = user_agent, sr_now_ms = now_ms\<rparr>;
                        ed1 = ed\<lparr>ed_shield := s1\<rparr>
                    in case denied of
                         Some public_message \<Rightarrow>
                           (Some (stealth_404_response L), harvest_if_some P user_agent public_message now_ms ed1)
                       | None \<Rightarrow>
                           (case bot_verdict_for P s1 client_ip user_agent norm_path of
                              BotBlocked category matched_token \<Rightarrow>
                                (Some (if category = px_automation_tool P then stealth_404_response L
                                       else forbidden_bot_response L (px_category_name P category) matched_token),
                                 ed1)
                            | BotAllowed _ \<Rightarrow> (None, ed1))))))"

definition evaluate_request_with_tls where
  "evaluate_request_with_tls L P N now_ms client_ip rmethod path user_agent tls_profile ed =
     evaluate_request_full L P N now_ms client_ip rmethod path None user_agent tls_profile ed"

definition evaluate_request where
  "evaluate_request L P N now_ms client_ip rmethod path user_agent ed =
     evaluate_request_full L P N now_ms client_ip rmethod path None user_agent None ed"

end
