(* ===== verification/Defense_Props.thy ===== *)
theory Defense_Props
  imports Defense
begin

text \<open>
  What the perimeter defence promises: which requests pass, what a trap queues, and that a trapped
  client is still banned after a restart of the daemon.
\<close>

definition trap_of ::
    "('s, 'c) phylax_lib \<Rightarrow> string \<Rightarrow> string option \<Rightarrow> string option \<Rightarrow> client_tls_profile option \<Rightarrow> string option" where
  "trap_of P path query user_agent tls_profile =
     (case px_inspect P path (case query of Some q \<Rightarrow> q | None \<Rightarrow> []) of
        Inl threat \<Rightarrow> Some (category_name threat)
      | Inr _ \<Rightarrow>
          if spoof_reason tls_profile user_agent \<noteq> None then Some ''tls_clienthello_spoof''
          else if is_canary (px_normalize_path P path) then Some ''canary_trap_honeylink''
          else None)"

definition shield_verdict ::
    "('s, 'c) phylax_lib \<Rightarrow> u64 \<Rightarrow> ip_addr \<Rightarrow> string \<Rightarrow> string \<Rightarrow> string option \<Rightarrow> 's \<Rightarrow> string option \<times> 's" where
  "shield_verdict P now_ms ip rmethod path user_agent s =
     px_shield P s \<lparr>sr_client_ip = show_ip ip, sr_target_uri = px_normalize_path P path,
       sr_http_method = rmethod, sr_user_agent = user_agent, sr_now_ms = now_ms\<rparr>"

lemma on_shield_manager [simp]: "ed_manager (on_shield f ed) = ed_manager ed"
  by (simp add: on_shield_def)

lemma harvest_manager [simp]: "ed_manager (harvest_if_some P ua r now ed) = ed_manager ed"
  by (simp add: harvest_if_some_def split: option.split)

lemma notify_manager:
  "ed_manager (notify_quarantine P ip reason ua now ed) =
     (case ed_manager ed of None \<Rightarrow> None
      | Some qm \<Rightarrow> Some (case px_derive_cidr P (show_ip ip) of None \<Rightarrow> qm
          | Some cidr \<Rightarrow> queue_record (trap_record cidr ip reason ua now) qm))"
  by (simp add: notify_quarantine_def split: option.split)

lemma evaluate_trusted:
  "is_trusted N ed ip \<Longrightarrow> evaluate_request_full L P N now ip m path q ua tls ed = (None, ed)"
  by (simp add: evaluate_request_full_def)

lemma evaluate_trap:
  assumes "\<not> is_trusted N ed ip" "trap_of P path q ua tls = Some reason"
  shows "\<exists>r. fst (evaluate_request_full L P N now ip m path q ua tls ed) = Some r \<and> rs_status r \<in> {403, 404}"
    and "ed_manager (snd (evaluate_request_full L P N now ip m path q ua tls ed)) =
      ed_manager (notify_quarantine P ip reason ua now ed)"
  using assms
  by (auto simp: evaluate_request_full_def trap_of_def Let_def notify_manager stealth_404_response_def
      forbidden_payload_response_def forbidden_response_def split: sum.splits option.splits if_splits)

lemma evaluate_no_trap:
  assumes "\<not> is_trusted N ed ip" "trap_of P path q ua tls = None"
  shows "evaluate_request_full L P N now ip m path q ua tls ed =
    (let (denied, s1) = shield_verdict P now ip m path ua (ed_shield ed);
         ed1 = ed\<lparr>ed_shield := s1\<rparr>
     in case denied of
          Some msg \<Rightarrow> (Some (stealth_404_response L), harvest_if_some P ua msg now ed1)
        | None \<Rightarrow>
            (case bot_verdict_for P s1 ip ua (px_normalize_path P path) of
               BotBlocked c tok \<Rightarrow>
                 (Some (if c = px_automation_tool P then stealth_404_response L
                        else forbidden_bot_response L (px_category_name P c) tok), ed1)
             | BotAllowed _ \<Rightarrow> (None, ed1)))"
  using assms
  by (auto simp: evaluate_request_full_def trap_of_def Let_def shield_verdict_def
      split: sum.splits option.splits if_splits)

lemma evaluate_no_trap_result:
  assumes "\<not> is_trusted N ed ip" "trap_of P path q ua tls = None"
    and "shield_verdict P now ip m path ua (ed_shield ed) = (denied, s1)"
  shows "fst (evaluate_request_full L P N now ip m path q ua tls ed) = None \<longleftrightarrow>
      denied = None \<and> (\<exists>c. bot_verdict_for P s1 ip ua (px_normalize_path P path) = BotAllowed c)"
    and "ed_manager (snd (evaluate_request_full L P N now ip m path q ua tls ed)) = ed_manager ed"
  unfolding evaluate_no_trap [OF assms(1,2)]
  by (simp_all add: assms(3) Let_def split: option.split bot_verdict.split)

text \<open>
  C24: which requests pass the perimeter: those of a trusted network, whatever they hold, and those
  that trip no trap (no payload threat, no user agent that contradicts the handshake, no canary
  path), are not denied by the shield and whose user agent is allowed. A trusted client leaves no
  trace in the state of the defence.
\<close>

theorem perimeter_passes_iff:
  "(fst (evaluate_request_full L P N now ip m path q ua tls ed) = None \<longleftrightarrow>
      is_trusted N ed ip \<or>
      (trap_of P path q ua tls = None \<and>
       (let (denied, s1) = shield_verdict P now ip m path ua (ed_shield ed) in
          denied = None \<and> (\<exists>c. bot_verdict_for P s1 ip ua (px_normalize_path P path) = BotAllowed c)))) \<and>
   (is_trusted N ed ip \<longrightarrow> snd (evaluate_request_full L P N now ip m path q ua tls ed) = ed)"
proof (cases "is_trusted N ed ip")
  case False
  obtain denied s1 where s: "shield_verdict P now ip m path ua (ed_shield ed) = (denied, s1)" by fastforce
  show ?thesis
  proof (cases "trap_of P path q ua tls")
    case None
    with False evaluate_no_trap_result(1) [OF False None s] s show ?thesis by simp
  next
    case (Some reason)
    with False evaluate_trap(1) [OF False Some, of L now m] show ?thesis by fastforce
  qed
qed (simp add: evaluate_trusted)

text \<open>A library of detectors for evaluation: a payload guard that knows one word, and no bot.\<close>

definition word_guard :: "(unit, string) phylax_lib" where
  "word_guard =
     \<lparr>px_build = (\<lambda>_ _ _. ()),
      px_inspect = (\<lambda>path query. if contains query ''UNION'' then Inl \<lparr>category_name = ''sqli'', description = ''SQL injection''\<rparr> else Inr ()),
      px_normalize_path = (\<lambda>p. p), px_record_and_check = (\<lambda>s _ _. s), px_harvest = (\<lambda>s _ _ _. s),
      px_shield = (\<lambda>s _. (None, s)), px_bot = (\<lambda>s _ _. BotAllowed ''none''),
      px_record_anomalous = (\<lambda>s _ _ _. (None, s)), px_derive_cidr = derive_cidr,
      px_unknown = ''none'', px_automation_tool = ''tool'', px_category_name = (\<lambda>c. c)\<rparr>"

theorem perimeter_passes_iff_witness:
  "fst (evaluate_request_full assoc_http word_guard cidr_lib 5 (V4 10 0 0 9) ''GET'' ''/'' (Some ''q=UNION'') None None
     \<lparr>ed_shield = (), ed_manager = (None :: unit daemon option), ed_trusted_subnets = [(V4 10 0 0 0, 8)]\<rparr>) = None"
  using perimeter_passes_iff [of assoc_http word_guard cidr_lib 5 "V4 10 0 0 9" "''GET''" "''/''" "Some ''q=UNION''" None None
     "\<lparr>ed_shield = (), ed_manager = (None :: unit daemon option), ed_trusted_subnets = [(V4 10 0 0 0, 8)]\<rparr>"]
  by (simp add: is_trusted_def cidr_lib_def cidr_contains_def addr_bits_def)

section \<open>A trapped client\<close>

lemma trap_queues:
  assumes "\<not> is_trusted N ed ip" "trap_of P path q ua tls = Some reason"
    and "ed_manager ed = Some qm" "receiver_alive qm" "px_derive_cidr P (show_ip ip) = Some cidr"
  shows "ed_manager (snd (evaluate_request_full L P N now ip m path q ua tls ed)) =
    Some (qm\<lparr>channel := channel qm @ [trap_record cidr ip reason ua now]\<rparr>)"
  unfolding evaluate_trap(2) [OF assms(1,2)]
  by (simp add: notify_manager assms(3-5) queue_record_def)

lemma trap_expiry:
  "unat now + 86400000 < 2 ^ 63 \<Longrightarrow> unat (now + 24 * 60 * 60 * 1000 :: u64) = unat now + 86400000"
  by (simp add: unat_word_ariths)

lemma trapped_ban_restored:
  assumes "\<not> is_trusted N ed ip" "trap_of P path q ua tls = Some reason"
    and "ed_manager ed = Some qm" "receiver_alive qm" "px_derive_cidr P (show_ip ip) = Some cidr"
    and "net_parse N cidr = Some net" "unat now + 86400000 < 2 ^ 63" "unat t < unat now + 86400000"
    and "store_inv (daemon_db qm)" "list_all persistable (channel qm)"
    and "length Es = Suc (length (channel qm))" "list_all engine_works Es"
    and "evaluate_request_full L P N now ip m path q ua tls ed = (res, ed')"
    and "\<forall>r \<in> set (db_subnets (daemon_db (run_persistence_worker Es (the (ed_manager ed'))))).
           row_infraction_count r < 2 ^ 32"
    and "engine_works E" "engine_laws E" "memory_law A expiry"
  shows "(\<exists>r. res = Some r \<and> rs_status r \<in> {403, 404}) \<and>
    (\<exists>n d'. rehydrate_with_timestamp E N A t
        (new_manager memory (daemon_db (run_persistence_worker Es (the (ed_manager ed')))) sock) = (Inr n, d') \<and>
      (\<exists>e. expiry (in_memory d') net = Some e \<and> t < e))"
proof -
  let ?rec = "trap_record cidr ip reason ua now"
  let ?d = "qm\<lparr>channel := channel qm @ [?rec]\<rparr>"
  have ed': "ed_manager ed' = Some ?d"
    using trap_queues [OF assms(1-5), of L now m] assms(13) by simp
  have e: "unat (qr_expires_at ?rec) = unat now + 86400000" "qr_cidr ?rec = cidr"
    using trap_expiry [OF assms(7)] by (simp_all add: trap_record_def)
  have p: "persistable ?rec"
    using e(1) assms(7) by (simp add: persistable_def) (simp add: trap_record_def)
  have "t < qr_expires_at ?rec" "unat t < 2 ^ 63"
    using e(1) assms(7,8) by (simp_all add: word_less_nat_alt)
  with ban_restored [of ?d "channel qm" ?rec Es _ E A expiry N net t memory sock] p e(2) assms(6,9-12,14-17) ed'
  have "\<exists>n d'. rehydrate_with_timestamp E N A t
        (new_manager memory (daemon_db (run_persistence_worker Es (the (ed_manager ed')))) sock) = (Inr n, d') \<and>
      n > 0 \<and> (\<exists>e. expiry (in_memory d') net = Some e \<and> t < e)"
    by simp
  moreover have "\<exists>r. res = Some r \<and> rs_status r \<in> {403, 404}"
    using evaluate_trap(1) [OF assms(1,2), of L now m] assms(13) by simp
  ultimately show ?thesis by blast
qed

section \<open>The responses\<close>

definition well_framed :: "'h http_lib \<Rightarrow> 'h response \<Rightarrow> bool" where
  "well_framed L r \<longleftrightarrow>
     hm_get_all L (rs_headers r) ''content-length'' = [show_nat (length (rs_body r))] \<and>
     hm_get_all L (rs_headers r) ''content-type'' = [text_plain]"

lemma stealth_well_framed: "http_laws L \<Longrightarrow> well_framed L (stealth_404_response L)"
proof -
  have "show_nat (length (''404 Not Found'' @ [CHR 0x0A])) = ''14''" by code_simp
  then have "show_nat (length (rs_body (stealth_404_response L))) = ''14''"
    by (simp only: stealth_404_response_def set_header_simps new_response_def response.simps)
  moreover have "lower ''content-length'' \<noteq> lower ''content-type''" by code_simp
  ultimately show "http_laws L \<Longrightarrow> well_framed L (stealth_404_response L)"
    by (simp only: well_framed_def) (simp add: stealth_404_response_def get_all_insert)
qed

lemma forbidden_well_framed: "http_laws L \<Longrightarrow> well_framed L (forbidden_response L body)"
proof -
  have "lower ''content-length'' \<noteq> lower ''content-type''" by code_simp
  then show "http_laws L \<Longrightarrow> well_framed L (forbidden_response L body)"
    by (simp add: well_framed_def forbidden_response_def get_all_insert)
qed

lemma evaluate_response:
  assumes "fst (evaluate_request_full L P N now ip m path q ua tls ed) = Some r"
  shows "r = stealth_404_response L \<or> (\<exists>body. r = forbidden_response L body)"
  using assms
  by (auto simp: evaluate_request_full_def Let_def forbidden_bot_response_def forbidden_payload_response_def
      split: if_splits sum.splits option.splits prod.splits bot_verdict.splits)

text \<open>
  Every response of the defence is a 403 or a 404 whose declared length is the length of its body,
  so nothing of it can be taken for the start of another response.
\<close>

theorem perimeter_responses_framed:
  assumes "http_laws L" "fst (evaluate_request_full L P N now ip m path q ua tls ed) = Some r"
  shows "rs_status r \<in> {403, 404} \<and> well_framed L r"
  using evaluate_response [OF assms(2)] stealth_well_framed [OF assms(1)] forbidden_well_framed [OF assms(1)]
  by (auto simp: stealth_404_response_def forbidden_response_def)

definition guarded :: "(unit, cidr, (cidr \<times> u64) list) edge_defense" where
  "guarded = \<lparr>ed_shield = (), ed_manager = Some (new_manager [] empty_db []), ed_trusted_subnets = []\<rparr>"

lemma guarded_trap:
  "trap_of word_guard ''/'' (Some ''q=UNION'') None None = Some ''sqli''" "\<not> is_trusted cidr_lib guarded ip"
  by (simp_all add: trap_of_def word_guard_def is_trusted_def guarded_def)

theorem perimeter_responses_framed_witness:
  "\<exists>r. fst (evaluate_request_full assoc_http word_guard cidr_lib 5 (V4 198 51 100 7) ''GET'' ''/'' (Some ''q=UNION'') None None guarded) = Some r \<and>
     rs_status r \<in> {403, 404} \<and> well_framed assoc_http r"
proof -
  obtain r where r: "fst (evaluate_request_full assoc_http word_guard cidr_lib 5 (V4 198 51 100 7) ''GET'' ''/''
      (Some ''q=UNION'') None None guarded) = Some r"
    using evaluate_trap(1) [OF guarded_trap(2,1)] by blast
  from perimeter_responses_framed [OF assoc_http_laws r] r show ?thesis by blast
qed

end
