(* ===== verification/Proxy.thy ===== *)
theory Proxy
  imports Defense Router Telemetry Governor Acme Redirect
begin

text \<open>
  The reverse proxy (\<open>src/proxy\<close>): the handler of a request, the direct forwarding, the race of the
  optional feature \<open>hedged-racing\<close> (\<open>pe_hedging\<close> says whether it is built) and the WebSocket upgrade. An
  upstream is a function of its address and the request it is sent; the handler
  yields a response or a hyper error, the request that was sent upstream, if one was, and the state.
\<close>

record ('s, 'n, 'q) proxy_state =
  ps_router :: upstream_router
  ps_security :: security_config
  ps_defense :: "('s, 'n, 'q) edge_defense"
  ps_governor :: resource_governor
  ps_telemetry :: telemetry_ring
  ps_acme_webroot :: "string option"
  ps_framing_guard :: framing_guard

text \<open>
  What a connection to an upstream comes to, when it comes to anything: nothing in \<open>src/proxy/forward.rs\<close>
  and \<open>src/proxy/websocket.rs\<close> bounds the time of an upstream. The handler as a function stands for the
  requests whose upstream answers or fails; on the listener (\<open>Server\<close>) a request whose upstream does
  neither is a task that gets no further turn, which its runs allow: \<open>upstream_may_hang\<close>.
\<close>

datatype 'h upstream_result =
    ConnectFailed string
  | HandshakeFailure string
  | SendFailed string
  | Answered "'h response"

text \<open>The settings of a race, in milliseconds, and its participants: names and endpoints.\<close>

record race_config =
  hedged_delay :: nat
  hard_timeout :: nat
  adaptive :: bool
  ewma_percent :: nat
  min_hedged_delay :: nat
  max_hedged_delay :: nat

record racer =
  rc_config :: race_config
  rc_steeds :: "(string \<times> string) list"

text \<open>
  The surroundings of a request: libraries, files, upstreams and the clocks it reads; the body of the
  request, if it arrives; whether the build has the race, and the racer: from its participants, the
  method and the attempt on an endpoint, the winner's value and endpoint, and the endpoints it tried.
  One reading of each clock stands for the readings of a request. \<open>pe_upstream\<close> says what the connection
  comes to if it ends.
\<close>

record ('h, 's, 'c, 'n) proxy_env =
  pe_http :: "'h http_lib"
  pe_phylax :: "('s, 'c) phylax_lib"
  pe_net :: "'n ipnet_lib"
  pe_fs :: acme_fs
  pe_upstream :: "socket_addr \<Rightarrow> 'h request \<Rightarrow> 'h upstream_result"
  pe_now_ms :: u64
  pe_duration_us :: u64
  pe_body :: "string option"
  pe_hedging :: bool
  pe_race :: "racer \<Rightarrow> string \<Rightarrow> (string \<Rightarrow> 'h response option) \<Rightarrow> ('h response \<times> string) option \<times> string list"

record ('h, 's, 'n, 'q) proxy_outcome =
  po_result :: "string + 'h response"
  po_sent :: "(socket_addr \<times> 'h request) list"
  po_state :: "('s, 'n, 'q) proxy_state"

text \<open>What the handler keeps of the request for the log.\<close>

record log_fields =
  lf_client_ip :: ip_addr
  lf_method :: string
  lf_full_path :: string
  lf_user_agent :: "string option"

definition log_request ::
    "('h, 's, 'c, 'n) proxy_env \<Rightarrow> log_fields \<Rightarrow> nat \<Rightarrow> string option \<Rightarrow> string option \<Rightarrow>
     ('s, 'n, 'q) proxy_state \<Rightarrow> ('s, 'n, 'q) proxy_state" where
  "log_request X f status upstream threat st =
     st\<lparr>ps_telemetry := ring_record (ps_telemetry st)
       \<lparr>tr_timestamp_ms = pe_now_ms X, tr_client_ip = show_ip (lf_client_ip f), tr_method = lf_method f,
        tr_path = lf_full_path f, tr_status = of_nat status, tr_duration_us = pe_duration_us X,
        tr_upstream_target = upstream, tr_threat_trapped = (threat \<noteq> None), tr_threat_category = threat,
        tr_user_agent = lf_user_agent f\<rparr>\<rparr>"

definition answer ::
    "'h response \<Rightarrow> (socket_addr \<times> 'h request) list \<Rightarrow> ('s, 'n, 'q) proxy_state \<Rightarrow> ('h, 's, 'n, 'q) proxy_outcome" where
  "answer res sent st = \<lparr>po_result = Inr res, po_sent = sent, po_state = st\<rparr>"

definition plain_502 :: "('h, 's, 'c, 'n) proxy_env \<Rightarrow> security_config \<Rightarrow> string \<Rightarrow> 'h response" where
  "plain_502 X sec msg =
     inject_response_security_headers (pe_http X)
       ((new_response (pe_http X) (msg @ [CHR 0x0A]))\<lparr>rs_status := 502\<rparr>) sec"

section \<open>Forwarding\<close>

text \<open>The request an upstream gets: the prepared headers and the host of the route.\<close>

definition upstream_request ::
    "'h http_lib \<Rightarrow> ip_addr \<Rightarrow> upstream_target \<Rightarrow> 'h request \<Rightarrow> 'h request" where
  "upstream_request L client_ip target req =
     (let h = prepare_upstream_headers L (rq_headers req) client_ip
      in req\<lparr>rq_headers := (case hv_from_str L (ut_primary_host target) of
                Some hv \<Rightarrow> hm_insert L h ''host'' hv | None \<Rightarrow> h)\<rparr>)"

definition check_harvester_promotion ::
    "('h, 's, 'c, 'n) proxy_env \<Rightarrow> nat \<Rightarrow> string \<Rightarrow> ip_addr \<Rightarrow> ('s, 'n, 'q) proxy_state \<Rightarrow> ('s, 'n, 'q) proxy_state" where
  "check_harvester_promotion X status full_path client_ip st =
     (if enable_defense (ps_security st) \<and> status = 404
      then st\<lparr>ps_defense := snd (record_anomalous_uri (pe_phylax X) (hd (split_on CHR ''?'' full_path)) client_ip
                              (pe_now_ms X) (ps_defense st))\<rparr>
      else st)"

definition build_502_response ::
    "('h, 's, 'c, 'n) proxy_env \<Rightarrow> string \<Rightarrow> log_fields \<Rightarrow> string option \<Rightarrow> ('s, 'n, 'q) proxy_state \<Rightarrow>
     'h response \<times> ('s, 'n, 'q) proxy_state" where
  "build_502_response X msg f upstream st =
     (plain_502 X (ps_security st) msg, log_request X f 502 upstream None st)"

definition harden ::
    "'h http_lib \<Rightarrow> security_config \<Rightarrow> 'h response \<Rightarrow> 'h response" where
  "harden L sec res = res\<lparr>rs_headers := inject_downstream_security_headers L (rs_headers res) sec\<rparr>"

definition forward_http_request_direct ::
    "('h, 's, 'c, 'n) proxy_env \<Rightarrow> 'h request \<Rightarrow> socket_addr \<Rightarrow> log_fields \<Rightarrow> ('s, 'n, 'q) proxy_state \<Rightarrow>
     ('h, 's, 'n, 'q) proxy_outcome" where
  "forward_http_request_direct X req addr f st =
     (case pe_upstream X addr req of
        ConnectFailed e \<Rightarrow>
          (let (res, st') = build_502_response X ''502 Bad Gateway: Upstream Unavailable'' f (Some (show_addr addr)) st
           in answer res [] st')
      | HandshakeFailure e \<Rightarrow> \<lparr>po_result = Inl e, po_sent = [], po_state = st\<rparr>
      | SendFailed e \<Rightarrow>
          (let (res, st') = build_502_response X ''502 Bad Gateway: Upstream Protocol Error'' f (Some (show_addr addr)) st
           in answer res [(addr, req)] st')
      | Answered upstream_res \<Rightarrow>
          (let st1 = check_harvester_promotion X (rs_status upstream_res) (lf_full_path f) (lf_client_ip f) st
           in answer (harden (pe_http X) (ps_security st) upstream_res) [(addr, req)]
                (log_request X f (rs_status upstream_res) (Some (show_addr addr)) None st1)))"

section \<open>The race\<close>

text \<open>\<open>ewma_multiplier: 1.25\<close>.\<close>

definition default_race :: race_config where
  "default_race =
     \<lparr>hedged_delay = 5, hard_timeout = 1500, adaptive = True, ewma_percent = 125, min_hedged_delay = 2,
      max_hedged_delay = 50\<rparr>"

text \<open>The racer of a target, as the router registers it.\<close>

definition racer_of :: "upstream_target \<Rightarrow> racer option" where
  "racer_of target =
     (if ut_hedged_racing target \<and> length (ut_addrs target) > 1
      then Some \<lparr>rc_config = default_race, rc_steeds = map (\<lambda>(idx, addr).
             (ut_primary_host target @ ''-'' @ show_nat idx, show_addr addr)) (List.enumerate 0 (ut_addrs target))\<rparr>
      else None)"

text \<open>One attempt: an error of any kind and a server error count as lost.\<close>

definition hedged_attempt ::
    "('h, 's, 'c, 'n) proxy_env \<Rightarrow> 'h request \<Rightarrow> string \<Rightarrow> 'h response option" where
  "hedged_attempt X req endpoint =
     (case parse_socket_addr endpoint of
        None \<Rightarrow> None
      | Some addr \<Rightarrow>
          (case pe_upstream X addr req of
             Answered res \<Rightarrow> if 500 \<le> rs_status res \<and> rs_status res < 600 then None else Some res
           | _ \<Rightarrow> None))"

text \<open>The requests that the attempts sent: those whose connection was established.\<close>

definition attempts_sent ::
    "('h, 's, 'c, 'n) proxy_env \<Rightarrow> 'h request \<Rightarrow> string list \<Rightarrow> (socket_addr \<times> 'h request) list" where
  "attempts_sent X req tried =
     List.map_filter (\<lambda>endpoint.
       case parse_socket_addr endpoint of
         None \<Rightarrow> None
       | Some addr \<Rightarrow>
           (case pe_upstream X addr req of
              SendFailed _ \<Rightarrow> Some (addr, req) | Answered _ \<Rightarrow> Some (addr, req) | _ \<Rightarrow> None)) tried"

definition too_large_response :: "('h, 's, 'c, 'n) proxy_env \<Rightarrow> security_config \<Rightarrow> 'h response" where
  "too_large_response X sec =
     inject_response_security_headers (pe_http X)
       ((new_response (pe_http X) (''413 Payload Too Large'' @ [CHR 0x0A]))\<lparr>rs_status := 413\<rparr>) sec"

definition forward_http_request_hedged ::
    "('h, 's, 'c, 'n) proxy_env \<Rightarrow> 'h request \<Rightarrow> racer \<Rightarrow> log_fields \<Rightarrow> ('s, 'n, 'q) proxy_state \<Rightarrow>
     ('h, 's, 'n, 'q) proxy_outcome" where
  "forward_http_request_hedged X req racer f st =
     (let max_bytes = unat (max_body_bytes (ps_framing_guard st)) in
      if (case pe_body X of Some b \<Rightarrow> length b > max_bytes | None \<Rightarrow> True)
      then answer (too_large_response X (ps_security st)) [] st
      else
        (let (outcome, tried) = pe_race X racer (lf_method f) (hedged_attempt X req);
             sent = attempts_sent X req tried
         in case outcome of
              None \<Rightarrow>
                (let (res, st') = build_502_response X ''502 Bad Gateway: Upstream Unavailable'' f None st
                 in answer res sent st')
            | Some (upstream_res, winner_endpoint) \<Rightarrow>
                (let st1 = check_harvester_promotion X (rs_status upstream_res) (lf_full_path f) (lf_client_ip f) st
                 in answer (harden (pe_http X) (ps_security st) upstream_res) sent
                      (log_request X f (rs_status upstream_res) (Some winner_endpoint) None st1))))"

definition forward_http_request ::
    "('h, 's, 'c, 'n) proxy_env \<Rightarrow> 'h request \<Rightarrow> upstream_target \<Rightarrow> log_fields \<Rightarrow> ('s, 'n, 'q) proxy_state \<Rightarrow>
     ('h, 's, 'n, 'q) proxy_outcome" where
  "forward_http_request X req0 target f st =
     (let req = upstream_request (pe_http X) (lf_client_ip f) target req0;
          direct = forward_http_request_direct X req (ut_addr target) f st
      in if pe_hedging X \<and> ut_hedged_racing target \<and> length (ut_addrs target) > 1
         then (case racer_of target of
                 Some racer \<Rightarrow> forward_http_request_hedged X req racer f st
               | None \<Rightarrow> direct)
         else direct)"

section \<open>The upgrade\<close>

text \<open>
  The upgrade: a failed connection is answered without a log entry, an error of the exchange is
  returned to hyper. After \<open>101\<close> the two streams are joined; the response is the same in both cases.
\<close>

definition handle_websocket_upgrade ::
    "('h, 's, 'c, 'n) proxy_env \<Rightarrow> 'h request \<Rightarrow> upstream_target \<Rightarrow> log_fields \<Rightarrow> ('s, 'n, 'q) proxy_state \<Rightarrow>
     ('h, 's, 'n, 'q) proxy_outcome" where
  "handle_websocket_upgrade X req target f st =
     (let sent = upstream_request (pe_http X) (lf_client_ip f) target req; addr = ut_addr target in
      case pe_upstream X addr sent of
        ConnectFailed e \<Rightarrow>
          answer (plain_502 X (ps_security st) ''502 Bad Gateway: Upstream Unavailable'') [] st
      | HandshakeFailure e \<Rightarrow> \<lparr>po_result = Inl e, po_sent = [], po_state = st\<rparr>
      | SendFailed e \<Rightarrow> \<lparr>po_result = Inl e, po_sent = [(addr, sent)], po_state = st\<rparr>
      | Answered upstream_res \<Rightarrow>
          if rs_status upstream_res = 101
          then answer (harden (pe_http X) (ps_security st) upstream_res) [(addr, sent)]
                 (log_request X f 101 (Some (show_addr addr)) None st)
          else answer (harden (pe_http X) (ps_security st) upstream_res) [(addr, sent)]
                 (log_request X f (rs_status upstream_res) (Some (show_addr addr)) None st))"

section \<open>The handler\<close>

definition count_threat :: "('s, 'n, 'q) proxy_state \<Rightarrow> ('s, 'n, 'q) proxy_state" where
  "count_threat st = st\<lparr>ps_governor := record_threat (ps_governor st)\<rparr>"

definition full_path_of :: "'h request \<Rightarrow> string" where
  "full_path_of req =
     (let sanitized_query = sanitize_query_string (case rq_query req of Some q \<Rightarrow> q | None \<Rightarrow> [])
      in if sanitized_query = [] then rq_path req else rq_path req @ ''?'' @ sanitized_query)"

definition header_str :: "'h http_lib \<Rightarrow> 'h \<Rightarrow> string \<Rightarrow> string option" where
  "header_str L h n = Option.bind (hm_get L h n) (hv_to_str L)"

definition threat_label :: "nat \<Rightarrow> string" where
  "threat_label status =
     (if status = 403 then ''Adversarial Exploit / Bot Intercept'' else ''Hostile Recon Probe'')"

definition is_websocket :: "'h http_lib \<Rightarrow> 'h \<Rightarrow> bool" where
  "is_websocket L h =
     (case header_str L h ''upgrade'' of Some s \<Rightarrow> eq_ignore_ascii_case s ''websocket'' | None \<Rightarrow> False)"

text \<open>The second half of the handler: the route of the host, and the way to its upstream.\<close>

definition route_request ::
    "('h, 's, 'c, 'n) proxy_env \<Rightarrow> 'h request \<Rightarrow> log_fields \<Rightarrow> ('s, 'n, 'q) proxy_state \<Rightarrow> ('h, 's, 'n, 'q) proxy_outcome" where
  "route_request X req f st =
     (let L = pe_http X;
          host_header = (case request_host L req of Some h \<Rightarrow> h | None \<Rightarrow> [])
      in case resolve (ps_router st) host_header of
           None \<Rightarrow>
             answer (plain_502 X (ps_security st) ''502 Bad Gateway: Unrecognized Sovereign Host'') []
               (log_request X f 502 None None st)
         | Some target \<Rightarrow>
             if is_websocket L (rq_headers req) \<and> ut_websocket_allowed target
             then handle_websocket_upgrade X req target f st
             else forward_http_request X req target f st)"

definition handle_proxy_request_with_tls ::
    "('h, 's, 'c, 'n) proxy_env \<Rightarrow> 'h request \<Rightarrow> ip_addr \<Rightarrow> client_tls_profile option \<Rightarrow> ('s, 'n, 'q) proxy_state \<Rightarrow>
     ('h, 's, 'n, 'q) proxy_outcome" where
  "handle_proxy_request_with_tls X req0 client_ip tls_profile st =
     (let L = pe_http X in
      case validate_headers L (ps_framing_guard st) (rq_headers req0) (rq_method req0) of
        Inl violation \<Rightarrow> answer (public_response L violation) [] (count_threat st)
      | Inr _ \<Rightarrow>
        (let req = req0\<lparr>rq_headers := sanitize_ingress_headers L (rq_headers req0) client_ip\<rparr>;
             f = \<lparr>lf_client_ip = client_ip, lf_method = rq_method req, lf_full_path = full_path_of req,
                  lf_user_agent = header_str L (rq_headers req) ''user-agent''\<rparr>
         in case try_serve_acme_challenge L (pe_fs X) (rq_path req) (ps_acme_webroot st) of
              Some acme_res \<Rightarrow> answer (inject_response_security_headers L acme_res (ps_security st)) [] st
            | None \<Rightarrow>
              if \<not> enable_defense (ps_security st) then route_request X req f st
              else
                (let (verdict, ed) = evaluate_request_full L (pe_phylax X) (pe_net X) (pe_now_ms X) client_ip
                       (lf_method f) (rq_path req) (rq_query req) (lf_user_agent f) tls_profile (ps_defense st);
                     st1 = st\<lparr>ps_defense := ed\<rparr>
                 in case verdict of
                      Some def_res \<Rightarrow>
                        answer (inject_response_security_headers L def_res (ps_security st)) []
                          (log_request X f (rs_status def_res) None (Some (threat_label (rs_status def_res)))
                             (count_threat st1))
                    | None \<Rightarrow> route_request X req f st1)))"

definition handle_proxy_request where
  "handle_proxy_request X req client_ip st = handle_proxy_request_with_tls X req client_ip None st"

end
