(* ===== verification/Proxy_Props.thy ===== *)
theory Proxy_Props
  imports Proxy Defense_Props
begin

text \<open>
  What the handler of a request promises: what an upstream gets to see, what the log and the threat
  counter say of it, and which responses carry the hardening headers.
\<close>

section \<open>Parts of the handler\<close>

lemma log_request_simps [simp]:
  "ps_router (log_request X f s u t st) = ps_router st"
  "ps_security (log_request X f s u t st) = ps_security st"
  "ps_defense (log_request X f s u t st) = ps_defense st"
  "ps_governor (log_request X f s u t st) = ps_governor st"
  "ps_acme_webroot (log_request X f s u t st) = ps_acme_webroot st"
  "ps_framing_guard (log_request X f s u t st) = ps_framing_guard st"
  by (simp_all add: log_request_def)

lemma answer_simps [simp]:
  "po_result (answer r s st) = Inr r"
  "po_sent (answer r s st) = s"
  "po_state (answer r s st) = st"
  by (simp_all add: answer_def)

lemma harvester_simps [simp]:
  "ps_router (check_harvester_promotion X s p ip st) = ps_router st"
  "ps_security (check_harvester_promotion X s p ip st) = ps_security st"
  "ps_governor (check_harvester_promotion X s p ip st) = ps_governor st"
  "ps_telemetry (check_harvester_promotion X s p ip st) = ps_telemetry st"
  "ps_acme_webroot (check_harvester_promotion X s p ip st) = ps_acme_webroot st"
  "ps_framing_guard (check_harvester_promotion X s p ip st) = ps_framing_guard st"
  by (simp_all add: check_harvester_promotion_def)

lemma count_threat_simps [simp]:
  "ps_router (count_threat st) = ps_router st"
  "ps_security (count_threat st) = ps_security st"
  "ps_defense (count_threat st) = ps_defense st"
  "ps_governor (count_threat st) = record_threat (ps_governor st)"
  "ps_telemetry (count_threat st) = ps_telemetry st"
  "ps_acme_webroot (count_threat st) = ps_acme_webroot st"
  "ps_framing_guard (count_threat st) = ps_framing_guard st"
  by (simp_all add: count_threat_def)

lemmas upstream_defs =
  handle_websocket_upgrade_def forward_http_request_def forward_http_request_direct_def
  forward_http_request_hedged_def build_502_response_def

text \<open>What both ways to an upstream have in common.\<close>

lemma websocket_sent:
  "(a, r) \<in> set (po_sent (handle_websocket_upgrade X req t f st)) \<Longrightarrow>
     a = ut_addr t \<and> r = upstream_request (pe_http X) (lf_client_ip f) t req"
  by (auto simp: upstream_defs Let_def split: upstream_result.splits if_splits)

text \<open>The racer tries its own endpoints only.\<close>

definition race_law :: "('h, 's, 'c, 'n) proxy_env \<Rightarrow> bool" where
  "race_law X \<longleftrightarrow> (\<forall>racer m f. set (snd (pe_race X racer m f)) \<subseteq> snd ` set (rc_steeds racer))"

text \<open>The addresses a target stands for: its first upstream, and in a race those whose printed form is read back.\<close>

definition target_address :: "('h, 's, 'c, 'n) proxy_env \<Rightarrow> upstream_target \<Rightarrow> socket_addr \<Rightarrow> bool" where
  "target_address X t a \<longleftrightarrow>
     a = ut_addr t \<or>
     (pe_hedging X \<and> ut_hedged_racing t \<and> (\<exists>b \<in> set (ut_addrs t). parse_socket_addr (show_addr b) = Some a))"

lemma target_address_first [simp]: "target_address X t (ut_addr t)"
  by (simp add: target_address_def)

text \<open>IPv4 upstreams are read back as they are: a race goes to the configured addresses.\<close>

lemma target_address_v4:
  assumes "target_address X t a" "\<forall>b \<in> set (ut_addrs t). is_ipv4 (sa_ip b)"
  shows "a = ut_addr t \<or> a \<in> set (ut_addrs t)"
  using assms parse_show_addr by (auto simp: target_address_def)

lemma attempts_sent_set:
  "(a, r) \<in> set (attempts_sent X req tried) \<Longrightarrow> r = req \<and> (\<exists>e \<in> set tried. parse_socket_addr e = Some a)"
  unfolding attempts_sent_def set_map_filter
  by (force split: option.splits upstream_result.splits)

lemma racer_endpoints:
  "racer_of t = Some racer \<Longrightarrow> snd ` set (rc_steeds racer) = show_addr ` set (ut_addrs t)"
proof -
  assume "racer_of t = Some racer"
  then have "rc_steeds racer = map (\<lambda>(idx, addr). (ut_primary_host t @ ''-'' @ show_nat idx, show_addr addr))
      (List.enumerate 0 (ut_addrs t))"
    by (auto simp: racer_of_def split: if_splits)
  then have "map snd (rc_steeds racer) = map (show_addr \<circ> snd) (List.enumerate 0 (ut_addrs t))"
    by (simp add: case_prod_unfold comp_def)
  also have "\<dots> = map show_addr (ut_addrs t)" by (simp only: map_map [symmetric] map_snd_enumerate)
  finally show ?thesis by (metis list.set_map)
qed

lemma hedged_sent:
  assumes "pe_hedging X \<longrightarrow> race_law X" "pe_hedging X" "ut_hedged_racing t" "racer_of t = Some racer"
    and "(a, r) \<in> set (po_sent (forward_http_request_hedged X req racer f st))"
  shows "target_address X t a \<and> r = req"
proof -
  let ?tried = "snd (pe_race X racer (lf_method f) (hedged_attempt X req))"
  have "(a, r) \<in> set (attempts_sent X req ?tried)"
    using assms(5) by (auto simp: upstream_defs Let_def case_prod_unfold split: if_splits option.splits)
  from attempts_sent_set [OF this] obtain e where e: "r = req" "e \<in> set ?tried" "parse_socket_addr e = Some a" by blast
  have "e \<in> snd ` set (rc_steeds racer)" using assms(1,2) e(2) unfolding race_law_def by blast
  with e assms(2,3) show ?thesis by (auto simp: racer_endpoints [OF assms(4)] target_address_def)
qed

lemma direct_sent:
  "(a, r) \<in> set (po_sent (forward_http_request_direct X req addr f st)) \<Longrightarrow> a = addr \<and> r = req"
  by (auto simp: forward_http_request_direct_def Let_def case_prod_unfold split: upstream_result.splits)

lemma forward_sent:
  assumes "pe_hedging X \<longrightarrow> race_law X" "(a, r) \<in> set (po_sent (forward_http_request X req t f st))"
  shows "target_address X t a \<and> r = upstream_request (pe_http X) (lf_client_ip f) t req"
  using assms(2)
  by (auto simp: forward_http_request_def Let_def dest: direct_sent hedged_sent [OF assms(1)]
      split: if_splits option.splits)

lemma route_sent:
  assumes "pe_hedging X \<longrightarrow> race_law X" "(a, r) \<in> set (po_sent (route_request X req f st))"
  shows "\<exists>t. resolve (ps_router st) (case request_host (pe_http X) req of Some h \<Rightarrow> h | None \<Rightarrow> []) = Some t \<and>
    target_address X t a \<and> r = upstream_request (pe_http X) (lf_client_ip f) t req"
  using assms(2)
  by (auto simp: route_request_def Let_def dest: forward_sent [OF assms(1)] websocket_sent
      split: option.splits if_splits)

text \<open>The verdict of the defence on a request, with the headers the handler passes it.\<close>

definition defence_verdict ::
    "('h, 's, 'c, 'n) proxy_env \<Rightarrow> 'h request \<Rightarrow> ip_addr \<Rightarrow> client_tls_profile option \<Rightarrow> ('s, 'n, 'q) proxy_state \<Rightarrow>
     'h response option \<times> ('s, 'n, 'q) edge_defense" where
  "defence_verdict X req client_ip tls_profile st =
     (if enable_defense (ps_security st)
      then evaluate_request_full (pe_http X) (pe_phylax X) (pe_net X) (pe_now_ms X) client_ip (rq_method req)
             (rq_path req) (rq_query req)
             (header_str (pe_http X) (sanitize_ingress_headers (pe_http X) (rq_headers req) client_ip) ''user-agent'')
             tls_profile (ps_defense st)
      else (None, ps_defense st))"

definition sanitized :: "'h http_lib \<Rightarrow> ip_addr \<Rightarrow> 'h request \<Rightarrow> 'h request" where
  "sanitized L client_ip req = req\<lparr>rq_headers := sanitize_ingress_headers L (rq_headers req) client_ip\<rparr>"

definition fields_of :: "'h http_lib \<Rightarrow> ip_addr \<Rightarrow> 'h request \<Rightarrow> log_fields" where
  "fields_of L client_ip req =
     \<lparr>lf_client_ip = client_ip, lf_method = rq_method req, lf_full_path = full_path_of req,
      lf_user_agent = header_str L (sanitize_ingress_headers L (rq_headers req) client_ip) ''user-agent''\<rparr>"

lemma sanitized_simps [simp]:
  "rq_method (sanitized L ip req) = rq_method req"
  "rq_path (sanitized L ip req) = rq_path req"
  "rq_query (sanitized L ip req) = rq_query req"
  "rq_uri_host (sanitized L ip req) = rq_uri_host req"
  "rq_headers (sanitized L ip req) = sanitize_ingress_headers L (rq_headers req) ip"
  "full_path_of (sanitized L ip req) = full_path_of req"
  by (simp_all add: sanitized_def full_path_of_def Let_def)

text \<open>The handler as the sequence of its checks.\<close>

lemma handle_eq:
  "handle_proxy_request_with_tls X req ip tls st =
     (case validate_headers (pe_http X) (ps_framing_guard st) (rq_headers req) (rq_method req) of
        Inl v \<Rightarrow> answer (public_response (pe_http X) v) [] (count_threat st)
      | Inr _ \<Rightarrow>
         (case try_serve_acme_challenge (pe_http X) (pe_fs X) (rq_path req) (ps_acme_webroot st) of
            Some r \<Rightarrow> answer (inject_response_security_headers (pe_http X) r (ps_security st)) [] st
          | None \<Rightarrow>
             (case defence_verdict X req ip tls st of
                (Some d, ed) \<Rightarrow>
                  answer (inject_response_security_headers (pe_http X) d (ps_security st)) []
                    (log_request X (fields_of (pe_http X) ip req) (rs_status d) None (Some (threat_label (rs_status d)))
                       (count_threat (st\<lparr>ps_defense := ed\<rparr>)))
              | (None, ed) \<Rightarrow>
                  route_request X (sanitized (pe_http X) ip req) (fields_of (pe_http X) ip req) (st\<lparr>ps_defense := ed\<rparr>))))"
  unfolding handle_proxy_request_with_tls_def Let_def sanitized_def [symmetric] defence_verdict_def fields_of_def
  by (auto split: sum.split option.split prod.split)

section \<open>What an upstream sees\<close>

lemma host_not_identity:
  "lower ''host'' \<notin> {''x-forwarded-for'', ''x-real-ip'', ''x-forwarded-proto'', ''x-forwarded-host'', ''x-client-ip'',
     ''cf-connecting-ip'', ''true-client-ip'', ''forwarded''}"
  by code_simp

lemma sanitized_host:
  "http_laws L \<Longrightarrow> request_host L (sanitized L ip req) = request_host L req"
  using host_not_identity
  by (simp add: request_host_def get_eq get_all_sanitize cong: option.case_cong)

lemma lower_host: "lower ''host'' = ''host''"
  by code_simp

lemma upstream_headers:
  assumes "http_laws L"
  shows "hm_get_all L (rq_headers (upstream_request L ip t (sanitized L ip req))) n =
    (if lower n = ''host'' \<and> list_all value_byte (ut_primary_host t) then [ut_primary_host t]
     else if lower n = ''x-forwarded-for'' then [show_ip ip @ '', '' @ show_ip ip]
     else if lower n = ''x-real-ip'' then [show_ip ip]
     else if lower n = ''x-forwarded-proto'' then [''https'']
     else if lower n = ''via'' then [''1.1 Propylea-Boundary'']
     else if lower n \<in> {''x-forwarded-host'', ''x-client-ip'', ''cf-connecting-ip'', ''true-client-ip''}
     then [] else hm_get_all L (rq_headers req) n)"
  using assms
  by (simp add: upstream_request_def Let_def from_str_eq get_all_insert lower_host get_all_prepare get_all_sanitize
      lower_prepared_names show_ip_visible)

lemma upstream_request_simps [simp]:
  "rq_method (upstream_request L ip t req) = rq_method req"
  "rq_path (upstream_request L ip t req) = rq_path req"
  "rq_query (upstream_request L ip t req) = rq_query req"
  by (simp_all add: upstream_request_def Let_def)

lemma fields_simps [simp]:
  "lf_client_ip (fields_of L ip req) = ip"
  "lf_method (fields_of L ip req) = rq_method req"
  "lf_full_path (fields_of L ip req) = full_path_of req"
  by (simp_all add: fields_of_def)

lemma handle_sent:
  assumes "(a, r) \<in> set (po_sent (handle_proxy_request_with_tls X req ip tls st))"
  shows "validate_headers (pe_http X) (ps_framing_guard st) (rq_headers req) (rq_method req) = Inr ()"
    and "try_serve_acme_challenge (pe_http X) (pe_fs X) (rq_path req) (ps_acme_webroot st) = None"
    and "fst (defence_verdict X req ip tls st) = None"
    and "(a, r) \<in> set (po_sent (route_request X (sanitized (pe_http X) ip req) (fields_of (pe_http X) ip req)
           (st\<lparr>ps_defense := snd (defence_verdict X req ip tls st)\<rparr>)))"
  using assms unfolding handle_eq
  by (auto split: sum.splits option.splits prod.splits)

text \<open>
  What reaches an upstream. The framing of a forwarded request has been accepted, it is no ACME
  challenge, the defence (when enabled) let it pass, and it goes to the address of the route of its
  host, or in a race to one of its addresses. Method, path and query are the client's; of the headers, the identity of the client is that
  of the socket peer, whatever the client claims, the host is that of the route, and the rest passes.
\<close>

theorem upstream_sees_clean_requests:
  assumes "http_laws (pe_http X)"
    and "pe_hedging X \<longrightarrow> race_law X"
    and "(addr, r) \<in> set (po_sent (handle_proxy_request_with_tls X req ip tls st))"
  shows "framing_ok (pe_http X) (ps_framing_guard st) (rq_headers req) \<and>
    try_serve_acme_challenge (pe_http X) (pe_fs X) (rq_path req) (ps_acme_webroot st) = None \<and>
    fst (defence_verdict X req ip tls st) = None \<and>
    (rq_method r, rq_path r, rq_query r) = (rq_method req, rq_path req, rq_query req) \<and>
    (\<exists>t. resolve (ps_router st)
          (case request_host (pe_http X) req of Some h \<Rightarrow> h | None \<Rightarrow> []) = Some t \<and>
       target_address X t addr \<and>
       (\<forall>n. hm_get_all (pe_http X) (rq_headers r) n =
          (if lower n = ''host'' \<and> list_all value_byte (ut_primary_host t) then [ut_primary_host t]
           else if lower n = ''x-forwarded-for'' then [show_ip ip @ '', '' @ show_ip ip]
           else if lower n = ''x-real-ip'' then [show_ip ip]
           else if lower n = ''x-forwarded-proto'' then [''https'']
           else if lower n = ''via'' then [''1.1 Propylea-Boundary'']
           else if lower n \<in> {''x-forwarded-host'', ''x-client-ip'', ''cf-connecting-ip'', ''true-client-ip''}
           then [] else hm_get_all (pe_http X) (rq_headers req) n)))"
proof -
  note h = handle_sent [OF assms(3)]
  obtain t where t: "resolve (ps_router st)
      (case request_host (pe_http X) req of Some h \<Rightarrow> h | None \<Rightarrow> []) = Some t"
    "target_address X t addr" "r = upstream_request (pe_http X) ip t (sanitized (pe_http X) ip req)"
    using route_sent [OF assms(2) h(4)] sanitized_host [OF assms(1)] by auto
  show ?thesis
    using validate_ok [OF assms(1) h(1)] h(2,3) t upstream_headers [OF assms(1)] by auto
qed

text \<open>Surroundings for evaluation: one upstream that answers every request with an empty page.\<close>

definition plain_env :: "((string \<times> string) list, unit, string, cidr) proxy_env" where
  "plain_env =
     \<lparr>pe_http = assoc_http, pe_phylax = word_guard, pe_net = cidr_lib, pe_fs = example_fs,
      pe_upstream = (\<lambda>_ _. Answered \<lparr>rs_status = 200, rs_headers = [(''server'', ''nginx'')], rs_body = []\<rparr>),
      pe_now_ms = 5, pe_duration_us = 7, pe_body = Some [], pe_hedging = False,
      pe_race = (\<lambda>_ _ _. (None, []))\<rparr>"

definition plain_proxy :: "route_config list \<Rightarrow> (unit, cidr, (cidr \<times> u64) list) proxy_state" where
  "plain_proxy routes =
     \<lparr>ps_router = new_router routes, ps_security = default_security, ps_defense = guarded,
      ps_governor = new_governor default_maintenance_config 0, ps_telemetry = new_ring 2,
      ps_acme_webroot = None, ps_framing_guard = default_guard\<rparr>"

definition plain_request :: "string option \<Rightarrow> (string \<times> string) list request" where
  "plain_request query =
     \<lparr>rq_method = ''GET'', rq_uri_host = None, rq_path = ''/'', rq_query = query,
      rq_headers = [(''host'', ''a.example''), (''x-real-ip'', ''6.6.6.6'')]\<rparr>"

lemma plain_env_http [simp]: "pe_http plain_env = assoc_http"
  by (simp add: plain_env_def)

lemma plain_sent:
  "po_sent (handle_proxy_request_with_tls plain_env (plain_request None) (V4 198 51 100 7) None
     (plain_proxy [single_route [''a.example''] fallback_upstream [] [] True])) \<noteq> []"
  by code_simp

theorem upstream_sees_clean_requests_witness:
  "\<exists>a r. (a, r) \<in> set (po_sent (handle_proxy_request_with_tls plain_env (plain_request None) (V4 198 51 100 7) None
     (plain_proxy [single_route [''a.example''] fallback_upstream [] [] True]))) \<and>
     hm_get_all assoc_http (rq_headers r) ''x-real-ip'' = [show_ip (V4 198 51 100 7)]"
proof -
  obtain a r where s: "(a, r) \<in> set (po_sent (handle_proxy_request_with_tls plain_env (plain_request None) (V4 198 51 100 7) None
     (plain_proxy [single_route [''a.example''] fallback_upstream [] [] True])))"
    using list.set_intros(1) plain_sent by (metis list.exhaust surj_pair)
  have "\<not> pe_hedging plain_env" by (simp add: plain_env_def)
  with upstream_sees_clean_requests [of plain_env, OF _ _ s] assoc_http_laws lower_host lower_prepared_names
  have "hm_get_all assoc_http (rq_headers r) ''x-real-ip'' = [show_ip (V4 198 51 100 7)]"
    by auto
  with s show ?thesis by blast
qed

section \<open>What is accounted for\<close>

text \<open>The record of an exchange: its request and the status it was answered with.\<close>

definition records_exchange ::
    "log_fields \<Rightarrow> nat \<Rightarrow> bool \<Rightarrow> telemetry_ring \<Rightarrow> telemetry_ring \<Rightarrow> bool" where
  "records_exchange f status threat ring ring' \<longleftrightarrow>
     (\<exists>rec. ring' = ring_record ring rec \<and> tr_client_ip rec = show_ip (lf_client_ip f) \<and>
        tr_method rec = lf_method f \<and> tr_path rec = lf_full_path f \<and> tr_user_agent rec = lf_user_agent f \<and>
        tr_status rec = of_nat status \<and> tr_threat_trapped rec = threat \<and>
        (tr_threat_category rec \<noteq> None) = threat)"

definition log_record ::
    "('h, 's, 'c, 'n) proxy_env \<Rightarrow> log_fields \<Rightarrow> nat \<Rightarrow> string option \<Rightarrow> string option \<Rightarrow> telemetry_record" where
  "log_record X f status upstream threat =
     \<lparr>tr_timestamp_ms = pe_now_ms X, tr_client_ip = show_ip (lf_client_ip f), tr_method = lf_method f,
      tr_path = lf_full_path f, tr_status = of_nat status, tr_duration_us = pe_duration_us X,
      tr_upstream_target = upstream, tr_threat_trapped = (threat \<noteq> None), tr_threat_category = threat,
      tr_user_agent = lf_user_agent f\<rparr>"

lemma log_request_records:
  "records_exchange f s (t \<noteq> None) (ps_telemetry st) (ps_telemetry (log_request X f s u t st))"
  unfolding records_exchange_def log_request_def
  by (rule exI [of _ "log_record X f s u t"]) (simp add: log_record_def)

lemma websocket_accounts:
  "ps_governor (po_state (handle_websocket_upgrade X req t f st)) = ps_governor st"
  "(\<exists>res. po_result (handle_websocket_upgrade X req t f st) = Inr res \<and>
      records_exchange f (rs_status res) False (ps_telemetry st) (ps_telemetry (po_state (handle_websocket_upgrade X req t f st)))) \<or>
   ps_telemetry (po_state (handle_websocket_upgrade X req t f st)) = ps_telemetry st \<and>
     (isl (po_result (handle_websocket_upgrade X req t f st)) \<or> po_sent (handle_websocket_upgrade X req t f st) = [])"
  using log_request_records [of f _ None st X]
  by (auto simp: upstream_defs Let_def harden_def split: upstream_result.splits)

lemma direct_accounts:
  "ps_governor (po_state (forward_http_request_direct X req addr f st)) = ps_governor st"
  "(\<exists>res. po_result (forward_http_request_direct X req addr f st) = Inr res \<and>
      records_exchange f (rs_status res) False (ps_telemetry st) (ps_telemetry (po_state (forward_http_request_direct X req addr f st)))) \<or>
   ps_telemetry (po_state (forward_http_request_direct X req addr f st)) = ps_telemetry st \<and>
     isl (po_result (forward_http_request_direct X req addr f st))"
  using log_request_records [of f _ None st X]
    log_request_records [of f _ None "check_harvester_promotion X a (lf_full_path f) (lf_client_ip f) st" X for a]
  by (auto simp: upstream_defs Let_def harden_def plain_502_def split: upstream_result.splits)

lemma hedged_accounts:
  "ps_governor (po_state (forward_http_request_hedged X req racer f st)) = ps_governor st"
  "(\<exists>res. po_result (forward_http_request_hedged X req racer f st) = Inr res \<and>
      records_exchange f (rs_status res) False (ps_telemetry st) (ps_telemetry (po_state (forward_http_request_hedged X req racer f st)))) \<or>
   ps_telemetry (po_state (forward_http_request_hedged X req racer f st)) = ps_telemetry st \<and>
     po_result (forward_http_request_hedged X req racer f st) = Inr (too_large_response X (ps_security st))"
  using log_request_records [of f _ None st X]
    log_request_records [of f _ None "check_harvester_promotion X a (lf_full_path f) (lf_client_ip f) st" X for a]
  by (auto simp: upstream_defs Let_def harden_def plain_502_def case_prod_unfold split: option.splits)

text \<open>How an exchange may end without a record: an error of the library, or a body that is too large for a race.\<close>

definition unrecorded ::
    "('h, 's, 'c, 'n) proxy_env \<Rightarrow> ('s, 'n, 'q) proxy_state \<Rightarrow> (string + 'h response) \<Rightarrow> bool" where
  "unrecorded X st result \<longleftrightarrow>
     isl result \<or> (pe_hedging X \<and> result = Inr (too_large_response X (ps_security st)))"

lemma forward_accounts:
  "ps_governor (po_state (forward_http_request X req t f st)) = ps_governor st"
  "(\<exists>res. po_result (forward_http_request X req t f st) = Inr res \<and>
      records_exchange f (rs_status res) False (ps_telemetry st) (ps_telemetry (po_state (forward_http_request X req t f st)))) \<or>
   ps_telemetry (po_state (forward_http_request X req t f st)) = ps_telemetry st \<and>
     unrecorded X st (po_result (forward_http_request X req t f st))"
  using direct_accounts [of X "upstream_request (pe_http X) (lf_client_ip f) t req" "ut_addr t" f st]
    hedged_accounts [of X "upstream_request (pe_http X) (lf_client_ip f) t req" _ f st]
  by (auto simp: forward_http_request_def Let_def unrecorded_def split: option.split)

lemma route_accounts:
  "ps_governor (po_state (route_request X req f st)) = ps_governor st"
  "(\<exists>res. po_result (route_request X req f st) = Inr res \<and>
      records_exchange f (rs_status res) False (ps_telemetry st) (ps_telemetry (po_state (route_request X req f st)))) \<or>
   ps_telemetry (po_state (route_request X req f st)) = ps_telemetry st \<and>
     (unrecorded X st (po_result (route_request X req f st)) \<or>
      is_websocket (pe_http X) (rq_headers req) \<and> po_sent (route_request X req f st) = [])"
  using websocket_accounts [of X req _ f st] forward_accounts [of X req _ f st] log_request_records [of f 502 None st X None]
  by (auto simp: route_request_def Let_def plain_502_def unrecorded_def split: option.split)

text \<open>
  C23: the bookkeeping of an exchange. The threat counter goes up by one exactly for a framing
  violation or a request the defence answered. A request that passes the guard and is no ACME
  challenge adds exactly one record to the log, with the address, method, redacted path and user agent
  of the request, the status it was answered with and the threat mark of the defence, unless the exchange
  ended in an error of the HTTP library, the body was too large for a race, or the connection of a
  WebSocket upgrade failed; the other exchanges leave the log as it was.
\<close>

theorem exchange_accounting:
  fixes X req ip tls st
  defines "out \<equiv> handle_proxy_request_with_tls X req ip tls st"
    and "framed \<equiv> validate_headers (pe_http X) (ps_framing_guard st) (rq_headers req) (rq_method req) = Inr ()"
    and "challenge \<equiv> try_serve_acme_challenge (pe_http X) (pe_fs X) (rq_path req) (ps_acme_webroot st) \<noteq> None"
    and "trapped \<equiv> fst (defence_verdict X req ip tls st) \<noteq> None"
  shows "ps_governor (po_state out) =
      (if \<not> framed \<or> \<not> challenge \<and> trapped then record_threat (ps_governor st) else ps_governor st) \<and>
    ((\<exists>res. framed \<and> \<not> challenge \<and> po_result out = Inr res \<and>
        records_exchange (fields_of (pe_http X) ip req) (rs_status res) trapped (ps_telemetry st) (ps_telemetry (po_state out))) \<or>
     ps_telemetry (po_state out) = ps_telemetry st \<and>
       (\<not> framed \<or> challenge \<or> unrecorded X st (po_result out) \<or>
        is_websocket (pe_http X) (rq_headers (sanitized (pe_http X) ip req)) \<and> po_sent out = []))"
proof (cases "framed \<and> \<not> challenge")
  case False
  then show ?thesis
    unfolding assms handle_eq by (auto split: sum.split option.split)
next
  case True
  let ?f = "fields_of (pe_http X) ip req"
  obtain v ed where v: "defence_verdict X req ip tls st = (v, ed)" by fastforce
  show ?thesis
  proof (cases v)
    case None
    with True v have "out = route_request X (sanitized (pe_http X) ip req) ?f (st\<lparr>ps_defense := ed\<rparr>)" "\<not> trapped"
      unfolding assms handle_eq by simp_all
    with True route_accounts [of X "sanitized (pe_http X) ip req" ?f "st\<lparr>ps_defense := ed\<rparr>"] show ?thesis
      by (auto simp: unrecorded_def)
  next
    case (Some d)
    let ?st = "count_threat (st\<lparr>ps_defense := ed\<rparr>)"
    let ?st' = "log_request X ?f (rs_status d) None (Some (threat_label (rs_status d))) ?st"
    have "out = answer (inject_response_security_headers (pe_http X) d (ps_security st)) [] ?st'" "trapped"
      using True v Some unfolding assms handle_eq by simp_all
    with True log_request_records [of ?f "rs_status d" "Some (threat_label (rs_status d))" ?st X None] show ?thesis
      by auto
  qed
qed

theorem exchange_accounting_witness:
  "let out = handle_proxy_request_with_tls plain_env (plain_request (Some ''q=UNION'')) (V4 198 51 100 7) None
      (plain_proxy [single_route [''a.example''] fallback_upstream [] [] True])
   in ps_governor (po_state out) = record_threat (new_governor default_maintenance_config 0) \<and>
      (\<exists>res. po_result out = Inr res \<and>
         records_exchange (fields_of assoc_http (V4 198 51 100 7) (plain_request (Some ''q=UNION''))) (rs_status res) True
           (new_ring 2) (ps_telemetry (po_state out)))"
proof -
  let ?req = "plain_request (Some ''q=UNION'')"
  let ?st = "plain_proxy [single_route [''a.example''] fallback_upstream [] [] True]"
  have f: "validate_headers assoc_http default_guard (rq_headers ?req) (rq_method ?req) = Inr ()"
    by code_simp
  have d: "fst (defence_verdict plain_env ?req (V4 198 51 100 7) None ?st) \<noteq> None"
  proof -
    have "fst (evaluate_request_full assoc_http word_guard cidr_lib 5 (V4 198 51 100 7) ''GET'' ''/'' (Some ''q=UNION'')
        ua None guarded) \<noteq> None" for ua
      using evaluate_trap(1) [OF guarded_trap(2), of word_guard "''/''" "Some ''q=UNION''" ua None "''sqli''"] 
      by (fastforce simp: trap_of_def word_guard_def)
    then show ?thesis
      by (simp add: defence_verdict_def plain_env_def plain_proxy_def plain_request_def default_security_def)
  qed
  have s: "ps_framing_guard ?st = default_guard" "ps_governor ?st = new_governor default_maintenance_config 0"
    "ps_telemetry ?st = new_ring 2"
    by (simp_all add: plain_proxy_def)
  have "\<not> starts_with (rq_path ?req) acme_challenge_prefix" by code_simp
  then have a: "try_serve_acme_challenge assoc_http (pe_fs plain_env) (rq_path ?req) (ps_acme_webroot ?st) = None"
    by (simp only: try_serve_acme_challenge_def if_True simp_thms)
  have n: "\<not> is_websocket assoc_http (rq_headers (sanitized assoc_http (V4 198 51 100 7) ?req))" by code_simp
  have r: "\<not> isl (po_result (handle_proxy_request_with_tls plain_env ?req (V4 198 51 100 7) None ?st))" by code_simp
  have h: "\<not> pe_hedging plain_env" by (simp add: plain_env_def)
  from exchange_accounting [of plain_env ?req "V4 198 51 100 7" None ?st] f d s a n r h
  show ?thesis
    by (auto simp: Let_def unrecorded_def)
qed

section \<open>Which responses are hardened\<close>

definition hardened :: "'h http_lib \<Rightarrow> security_config \<Rightarrow> 'h \<Rightarrow> bool" where
  "hardened L sec h \<longleftrightarrow>
     hm_get_all L h ''x-content-type-options'' = [''nosniff''] \<and>
     hm_get_all L h ''referrer-policy'' = [''strict-origin-when-cross-origin''] \<and>
     (if hsts sec then hm_get_all L h ''strict-transport-security'' = [''max-age=31536000; includeSubDomains; preload'']
      else True) \<and>
     (if list_all value_byte (server_banner sec) then hm_get_all L h ''server'' = [server_banner sec] else True) \<and>
     (if list_all value_byte (frame_options sec) then hm_get_all L h ''x-frame-options'' = [frame_options sec] else True)"

lemma hardening_names_distinct:
  "distinct [''server'', ''strict-transport-security'', ''x-content-type-options'', ''x-frame-options'', ''referrer-policy'']"
  by code_simp

lemma inject_hardens: "http_laws L \<Longrightarrow> hardened L sec (inject_downstream_security_headers L h sec)"
  using hardening_names_distinct
  by (simp add: hardened_def get_all_inject lower_hardening_names)

lemma upstream_result_hardened:
  assumes "http_laws (pe_http X)"
  shows "po_result (handle_websocket_upgrade X req t f st) = Inr res \<Longrightarrow>
      hardened (pe_http X) (ps_security st) (rs_headers res)"
    and "po_result (forward_http_request X req t f st) = Inr res \<Longrightarrow>
      hardened (pe_http X) (ps_security st) (rs_headers res)"
    and "po_result (route_request X req f st) = Inr res \<Longrightarrow>
      hardened (pe_http X) (ps_security st) (rs_headers res)"
proof -
  show w: "po_result (handle_websocket_upgrade X req t f st) = Inr res \<Longrightarrow>
      hardened (pe_http X) (ps_security st) (rs_headers res)" for t
    using inject_hardens [OF assms]
    by (auto simp: upstream_defs Let_def harden_def plain_502_def split: upstream_result.splits if_splits)
  show h: "po_result (forward_http_request X req t f st) = Inr res \<Longrightarrow>
      hardened (pe_http X) (ps_security st) (rs_headers res)" for t
    using inject_hardens [OF assms]
    by (auto simp: upstream_defs Let_def harden_def plain_502_def too_large_response_def case_prod_unfold
        split: upstream_result.splits if_splits option.splits)
  show "po_result (route_request X req f st) = Inr res \<Longrightarrow>
      hardened (pe_http X) (ps_security st) (rs_headers res)"
    using inject_hardens [OF assms] w h
    by (auto simp: route_request_def Let_def plain_502_def split: option.splits if_splits)
qed

text \<open>
  C31: every response a client gets carries the hardening headers of the configuration, with exactly
  the configured values whatever an upstream sent, but for one kind: the rejection of a framing
  violation goes out without them.
\<close>

theorem responses_hardened:
  assumes "http_laws (pe_http X)" "po_result (handle_proxy_request_with_tls X req ip tls st) = Inr res"
  shows "case validate_headers (pe_http X) (ps_framing_guard st) (rq_headers req) (rq_method req) of
      Inl v \<Rightarrow> res = public_response (pe_http X) v \<and>
        hm_get_all (pe_http X) (rs_headers res) ''x-content-type-options'' = []
    | Inr _ \<Rightarrow> hardened (pe_http X) (ps_security st) (rs_headers res)"
proof -
  have n: "lower ''x-content-type-options'' \<noteq> lower ''content-type''" by code_simp
  have r: "po_result (route_request X r f (st\<lparr>ps_defense := ed\<rparr>)) = Inr res \<Longrightarrow>
      hardened (pe_http X) (ps_security st) (rs_headers res)" for r f ed
    using upstream_result_hardened(3) [OF assms(1), of r f "st\<lparr>ps_defense := ed\<rparr>"] by simp
  show ?thesis
    using assms(2) inject_hardens [OF assms(1)] n r get_all_insert [OF assms(1)] get_all_empty [OF assms(1)]
    unfolding handle_eq
    by (auto simp: public_response_def split: sum.splits option.splits prod.splits)
qed

theorem responses_hardened_witness:
  "\<exists>res. po_result (handle_proxy_request_with_tls plain_env (plain_request None) (V4 198 51 100 7) None
     (plain_proxy [single_route [''a.example''] fallback_upstream [] [] True])) = Inr res \<and>
     hardened assoc_http default_security (rs_headers res)"
proof -
  let ?req = "plain_request None"
  let ?st = "plain_proxy [single_route [''a.example''] fallback_upstream [] [] True]"
  have f: "validate_headers assoc_http default_guard (rq_headers ?req) (rq_method ?req) = Inr ()"
    by code_simp
  have "\<not> isl (po_result (handle_proxy_request_with_tls plain_env ?req (V4 198 51 100 7) None ?st))"
    by code_simp
  then obtain res where r: "po_result (handle_proxy_request_with_tls plain_env ?req (V4 198 51 100 7) None ?st) = Inr res"
    by (auto simp: isl_def) (metis sum.exhaust)
  have s: "ps_framing_guard ?st = default_guard" "ps_security ?st = default_security"
    by (simp_all add: plain_proxy_def)
  have "hardened assoc_http default_security (rs_headers res)"
    using responses_hardened [of plain_env, OF _ r] assoc_http_laws f s by simp
  with r show ?thesis by blast
qed

end
