(* ===== verification/Crucible.thy ===== *)
theory Crucible
  imports Defense Sanitize
begin

text \<open>
  The crucible gate (\<open>src/crucible.rs\<close>), the test ingress that bans every attacker at once: the start
  of the gate and the handler of a request. The gate's state is phylax's quarantine and the store; the
  detectors are phylax's and fields of \<open>K :: ('q, 'c) crucible_lib\<close>. The theorems say whom the gate
  bans, and that its bans have expired for the rest of the system when they are written: the gate
  counts seconds where the store counts milliseconds.
\<close>

record ('q, 'c) crucible_lib =
  ck_quarantine_new :: "nat \<Rightarrow> u64 \<Rightarrow> 'q"
  ck_is_quarantined :: "'q \<Rightarrow> string \<Rightarrow> u64 \<Rightarrow> bool \<times> 'q"
  ck_record_and_check :: "'q \<Rightarrow> string \<Rightarrow> u64 \<Rightarrow> 'q"
  ck_inspect :: "string \<Rightarrow> string \<Rightarrow> payload_threat + unit"
  ck_bot :: "string option \<Rightarrow> string \<Rightarrow> 'c bot_verdict"
  ck_show_category :: "'c \<Rightarrow> string"
  ck_derive_cidr :: "string \<Rightarrow> string option"

record crucible_opts =
  co_bind :: string
  co_db :: string

record 'q gate_context =
  gc_quarantine :: 'q
  gc_store :: quarantine_db

definition default_crucible_opts :: crucible_opts where
  "default_crucible_opts =
     \<lparr>co_bind = ''127.0.0.1:8999'', co_db = ''/mnt/nas/lab/telemetry_vault/crucible_quarantine.db''\<rparr>"

datatype gate_error =
    BadBindAddress
  | GateStore store_error

text \<open>The start: the address is parsed, then the store is opened.\<close>

definition start_gate ::
    "('q, 'c) crucible_lib \<Rightarrow> sql_engine \<Rightarrow> (string \<Rightarrow> string option) \<Rightarrow> (string \<Rightarrow> quarantine_db option) \<Rightarrow>
     crucible_opts \<Rightarrow> gate_error + socket_addr \<times> 'q gate_context" where
  "start_gate K E dir_error file opts =
     (case parse_socket_addr (co_bind opts) of
        None \<Rightarrow> Inl BadBindAddress
      | Some addr \<Rightarrow>
          (case open_store E (dir_error (co_db opts)) (file (co_db opts)) of
             Inl e \<Rightarrow> Inl (GateStore e)
           | Inr db \<Rightarrow> Inr (addr, \<lparr>gc_quarantine = ck_quarantine_new K 1 (3600 * 1000), gc_store = db\<rparr>)))"

section \<open>The handler\<close>

definition gate_response :: "'h http_lib \<Rightarrow> nat \<Rightarrow> string \<Rightarrow> 'h response" where
  "gate_response L status body = (new_response L (body @ [CHR 0x0A]))\<lparr>rs_status := status\<rparr>"

text \<open>The record of an infraction; the times are in seconds.\<close>

definition gate_record ::
    "('q, 'c) crucible_lib \<Rightarrow> ip_addr \<Rightarrow> string \<Rightarrow> string \<Rightarrow> u64 \<Rightarrow> quarantine_record" where
  "gate_record K client_ip infraction safe_ua now_sec =
     \<lparr>qr_cidr = (case ck_derive_cidr K (show_ip client_ip) of
          Some c \<Rightarrow> c | None \<Rightarrow> show_ip client_ip @ ''/32''),
      qr_ip_version = (if is_ipv4 client_ip then 4 else 6), qr_trigger_ip = show_ip client_ip,
      qr_infraction_type = infraction, qr_infraction_count = 1, qr_quarantined_at = now_sec,
      qr_expires_at = now_sec + 3600, qr_user_agent = Some safe_ua, qr_active = True\<rparr>"

text \<open>\<open>let _ = ctx.store.record_ban(&rec); ctx.quarantine.record_and_check(..)\<close>.\<close>

definition gate_ban ::
    "('q, 'c) crucible_lib \<Rightarrow> sql_engine \<Rightarrow> ip_addr \<Rightarrow> string \<Rightarrow> string \<Rightarrow> u64 \<Rightarrow> 'q gate_context \<Rightarrow> 'q gate_context" where
  "gate_ban K E client_ip infraction safe_ua now_ms ctx =
     (let rec = gate_record K client_ip infraction safe_ua (now_ms div 1000)
      in ctx\<lparr>gc_store := snd (record_ban E rec (gc_store ctx)),
             gc_quarantine := ck_record_and_check K (gc_quarantine ctx) (show_ip client_ip) now_ms\<rparr>)"

definition is_honeypot :: "string \<Rightarrow> bool" where
  "is_honeypot p \<longleftrightarrow>
     starts_with p ''/wp-'' \<or> starts_with p ''/.env'' \<or> starts_with p ''/.git'' \<or> starts_with p ''/phpmyadmin''"

definition dquote :: string where
  "dquote = [CHR 0x22]"

definition json_field :: "string \<Rightarrow> string \<Rightarrow> string" where
  "json_field k v = dquote @ k @ dquote @ '':'' @ dquote @ v @ dquote"

definition error_body :: "string \<Rightarrow> string" where
  "error_body what = ''{'' @ json_field ''error'' what @ ''}''"

definition handle_crucible_request ::
    "'h http_lib \<Rightarrow> ('q, 'c) crucible_lib \<Rightarrow> sql_engine \<Rightarrow> u64 \<Rightarrow> ip_addr \<Rightarrow> 'h request \<Rightarrow> 'q gate_context \<Rightarrow>
     'h response \<times> 'q gate_context" where
  "handle_crucible_request L K E now_ms client_ip req ctx0 =
     (let safe_path = scrub_ansi_and_control (rq_path req) 1024;
          (quarantined, q) = ck_is_quarantined K (gc_quarantine ctx0) (show_ip client_ip) now_ms;
          ctx = ctx0\<lparr>gc_quarantine := q\<rparr>
      in if quarantined then (gate_response L 403 (error_body ''quarantined''), ctx)
      else if hm_get L (rq_headers req) ''transfer-encoding'' \<noteq> None \<and>
              hm_get L (rq_headers req) ''content-length'' \<noteq> None
      then (gate_response L 400 (error_body ''framing_conflict''), ctx)
      else
        (let raw_ua = (case Option.bind (hm_get L (rq_headers req) ''user-agent'') (hv_to_str L) of
                         Some s \<Rightarrow> s | None \<Rightarrow> []);
             safe_ua = scrub_ansi_and_control raw_ua max_banner_bytes;
             raw_query = (case rq_query req of Some s \<Rightarrow> s | None \<Rightarrow> []);
             ban = (\<lambda>infraction. gate_ban K E client_ip infraction safe_ua now_ms ctx)
         in case ck_inspect K safe_path raw_query of
              Inl threat \<Rightarrow>
                (gate_response L 403 (error_body ''forbidden_payload''),
                 ban (''payload_threat:'' @ category_name threat))
            | Inr _ \<Rightarrow>
                (case ck_bot K (Some safe_ua) safe_path of
                   BotBlocked category matched_token \<Rightarrow>
                     (gate_response L 403 (error_body ''hostile_scanner''),
                      ban (''bot_scanner:'' @ ck_show_category K category))
                 | BotAllowed _ \<Rightarrow>
                     if is_honeypot safe_path
                     then (gate_response L 404 (error_body ''not_found''), ban ''honeypot_decoy_breach'')
                     else (gate_response L 200
                             (''{'' @ json_field ''status'' ''healthy'' @ '','' @ json_field ''crucible'' ''nominal'' @ ''}''),
                           ctx))))"

section \<open>Whom the gate bans\<close>

text \<open>The infraction of a request, as the gate names it.\<close>

definition infraction_of ::
    "'h http_lib \<Rightarrow> ('q, 'c) crucible_lib \<Rightarrow> 'h request \<Rightarrow> string option" where
  "infraction_of L K req =
     (let safe_path = scrub_ansi_and_control (rq_path req) 1024;
          safe_ua = scrub_ansi_and_control
            (case Option.bind (hm_get L (rq_headers req) ''user-agent'') (hv_to_str L) of Some s \<Rightarrow> s | None \<Rightarrow> [])
            max_banner_bytes
      in case ck_inspect K safe_path (case rq_query req of Some s \<Rightarrow> s | None \<Rightarrow> []) of
           Inl threat \<Rightarrow> Some (''payload_threat:'' @ category_name threat)
         | Inr _ \<Rightarrow>
             (case ck_bot K (Some safe_ua) safe_path of
                BotBlocked category _ \<Rightarrow> Some (''bot_scanner:'' @ ck_show_category K category)
              | BotAllowed _ \<Rightarrow> if is_honeypot safe_path then Some ''honeypot_decoy_breach'' else None))"

definition conflicting :: "'h http_lib \<Rightarrow> 'h request \<Rightarrow> bool" where
  "conflicting L req \<longleftrightarrow>
     hm_get L (rq_headers req) ''transfer-encoding'' \<noteq> None \<and> hm_get L (rq_headers req) ''content-length'' \<noteq> None"

lemma gate_response_status [simp]: "rs_status (gate_response L s b) = s"
  by (simp add: gate_response_def)

text \<open>The four outcomes of the handler.\<close>

lemma handle_crucible_cases:
  assumes "ck_is_quarantined K (gc_quarantine ctx) (show_ip ip) now = (quarantined, q)"
  defines "ctx' \<equiv> ctx\<lparr>gc_quarantine := q\<rparr>"
  shows "quarantined \<Longrightarrow> rs_status (fst (handle_crucible_request L K E now ip req ctx)) = 403 \<and>
      snd (handle_crucible_request L K E now ip req ctx) = ctx'"
    and "\<not> quarantined \<Longrightarrow> conflicting L req \<Longrightarrow>
      rs_status (fst (handle_crucible_request L K E now ip req ctx)) = 400 \<and>
      snd (handle_crucible_request L K E now ip req ctx) = ctx'"
    and "\<not> quarantined \<Longrightarrow> \<not> conflicting L req \<Longrightarrow> infraction_of L K req = Some reason \<Longrightarrow>
      rs_status (fst (handle_crucible_request L K E now ip req ctx)) \<in> {403, 404} \<and>
      (\<exists>ua. snd (handle_crucible_request L K E now ip req ctx) = gate_ban K E ip reason ua now ctx')"
    and "\<not> quarantined \<Longrightarrow> \<not> conflicting L req \<Longrightarrow> infraction_of L K req = None \<Longrightarrow>
      rs_status (fst (handle_crucible_request L K E now ip req ctx)) = 200 \<and>
      snd (handle_crucible_request L K E now ip req ctx) = ctx'"
  unfolding ctx'_def handle_crucible_request_def infraction_of_def conflicting_def
  by (auto simp: assms(1) Let_def split: sum.splits bot_verdict.splits if_splits)

text \<open>The times of a record fit the store's integers, whatever the clock says.\<close>

lemma gate_times:
  "unat (now div 1000 :: u64) = unat now div 1000"
  "unat (now div 1000 + 3600 :: u64) = unat now div 1000 + 3600"
proof -
  show d: "unat (now div 1000 :: u64) = unat now div 1000" by (simp add: unat_div)
  have "unat now < 2 ^ 64" using unsigned_less [of now] by simp
  then show "unat (now div 1000 + 3600 :: u64) = unat now div 1000 + 3600"
    by (subst unat_add_lem [THEN iffD1]) (simp_all add: d)
qed

lemma gate_record_persistable: "persistable (gate_record K ip reason ua (now div 1000))"
proof -
  have "unat now < 2 ^ 64" using unsigned_less [of now] by simp
  then have "unat now div 1000 + 3600 < 2 ^ 63" by simp
  then show ?thesis by (simp add: persistable_def gate_record_def gate_times)
qed

lemma gate_ban_store:
  assumes "engine_works E" "store_inv (gc_store ctx)"
  shows "store_inv (gc_store (gate_ban K E ip reason ua now ctx))"
    and "active_set (gc_store (gate_ban K E ip reason ua now ctx)) =
      insert (qr_cidr (gate_record K ip reason ua (now div 1000))) (active_set (gc_store ctx))"
  using store.ban_ok [of "gc_store ctx" "(E, gate_record K ip reason ua (now div 1000))"]
    store.ban_bans [of "gc_store ctx" "(E, gate_record K ip reason ua (now div 1000))"] assms
    gate_record_persistable [of K ip reason ua now]
  by (simp_all add: gate_ban_def Let_def persistable_def)

definition gate_cidr :: "('q, 'c) crucible_lib \<Rightarrow> ip_addr \<Rightarrow> string" where
  "gate_cidr K ip = (case ck_derive_cidr K (show_ip ip) of Some c \<Rightarrow> c | None \<Rightarrow> show_ip ip @ ''/32'')"

lemma gate_record_simps [simp]:
  "qr_cidr (gate_record K ip reason ua sec) = gate_cidr K ip"
  "qr_expires_at (gate_record K ip reason ua sec) = sec + 3600"
  by (simp_all add: gate_record_def gate_cidr_def)

text \<open>
  C32: whom the gate bans. A client that is quarantined is refused; a request with both framing headers
  is refused without a ban; a payload threat, a blocked user agent or a decoy path bans the client's
  network, in the store and in the memory, and is answered with 403 or 404; any other request is
  answered with 200 and changes nothing. The path and the user agent that are inspected are the
  scrubbed ones.
\<close>

theorem gate_bans_attackers:
  assumes "engine_works E" "store_inv (gc_store ctx)"
    and "ck_is_quarantined K (gc_quarantine ctx) (show_ip ip) now = (quarantined, q)"
    and "handle_crucible_request L K E now ip req ctx = (res, ctx')"
  shows "let attack = \<not> quarantined \<and> \<not> conflicting L req \<and> infraction_of L K req \<noteq> None in
    store_inv (gc_store ctx') \<and>
    active_set (gc_store ctx') =
      (if attack then insert (gate_cidr K ip) (active_set (gc_store ctx)) else active_set (gc_store ctx)) \<and>
    gc_quarantine ctx' = (if attack then ck_record_and_check K q (show_ip ip) now else q) \<and>
    (if quarantined then rs_status res = 403 else if conflicting L req then rs_status res = 400
     else if attack then rs_status res \<in> {403, 404} else rs_status res = 200)"
proof (cases "\<not> quarantined \<and> \<not> conflicting L req \<and> infraction_of L K req \<noteq> None")
  case True
  then obtain reason where r: "infraction_of L K req = Some reason" by blast
  with True handle_crucible_cases(3) [OF assms(3), of L req reason E] assms(4) obtain ua where
    "rs_status res \<in> {403, 404}" "ctx' = gate_ban K E ip reason ua now (ctx\<lparr>gc_quarantine := q\<rparr>)"
    by auto
  with True gate_ban_store [of E "ctx\<lparr>gc_quarantine := q\<rparr>" K ip reason ua now] assms(1,2) show ?thesis
    by (simp add: gate_ban_def Let_def)
next
  case False
  with handle_crucible_cases(1) [OF assms(3), of L E req] handle_crucible_cases(2,4) [OF assms(3), of L req E] assms(2,4) show ?thesis
    by (cases quarantined; cases "conflicting L req") (auto simp: Let_def)
qed

section \<open>What becomes of the bans\<close>

lemma upsert_expiry:
  assumes "bind_record rec = Inr row" "r \<in> set (upsert_row row rows)" "row_cidr r = qr_cidr rec"
  shows "row_expires_at r = uint (qr_expires_at rec)"
  using assms(2,3) bind_record_fields [OF assms(1)]
  by (auto simp: upsert_row_def merge_row_def image_iff split: if_splits)

lemma banned_expiry:
  assumes "engine_works E" "persistable rec"
    and "r \<in> set (db_subnets (snd (record_ban E rec db)))" "row_cidr r = qr_cidr rec"
  shows "row_expires_at r = uint (qr_expires_at rec)"
proof -
  obtain row where "bind_record rec = Inr row" "record_ban E rec db = (Inr (), banned_db row rec db)"
    using record_ban_works [of E rec db] assms(1,2) by (auto simp: persistable_def)
  with upsert_expiry [of rec row r "db_subnets db"] assms(3,4) show ?thesis
    by (simp add: banned_db_def append_audit_subnets)
qed

lemma seconds_are_past: "3604 * 1000 \<le> unat now \<Longrightarrow> now div 1000 + 3600 \<le> (now :: u64)"
proof -
  assume "3604 * 1000 \<le> unat now"
  then have "3604 \<le> unat now div 1000" using div_le_mono [of "3604 * 1000" "unat now" 1000] by simp
  moreover have "1000 * (unat now div 1000) \<le> unat now" by simp
  ultimately have "unat now div 1000 + 3600 \<le> unat now" by linarith
  then show ?thesis by (simp add: word_le_nat_alt gate_times)
qed

text \<open>
  The bans of the gate have expired when they are written. They are counted in seconds and the
  store compares milliseconds, so at the time of the ban and at any later one the query for active bans
  does not list the client's network: nothing of the ban outlives the gate's memory, and a longer ban
  of the same network that was in the store is cut short.
\<close>

theorem gate_bans_are_expired:
  assumes "engine_works E" "3604 * 1000 \<le> unat now"
    and "ck_is_quarantined K (gc_quarantine ctx) (show_ip ip) now = (False, q)"
    and "\<not> conflicting L req" "infraction_of L K req = Some reason"
    and "handle_crucible_request L K E now ip req ctx = (res, ctx')"
    and "engine_laws E'" "now \<le> t" "get_active_bans E' t (gc_store ctx') = Inr recs"
  shows "gate_cidr K ip \<notin> qr_cidr ` set recs"
proof
  assume "gate_cidr K ip \<in> qr_cidr ` set recs"
  then obtain r rec where r: "r \<in> set (db_subnets (gc_store ctx'))" "row_expires_at r > uint t"
    "map_quarantine_row r = Some rec" "qr_cidr rec = gate_cidr K ip"
    unfolding active_bans_set [OF assms(7,9)] by auto
  obtain ua where c: "ctx' = gate_ban K E ip reason ua now (ctx\<lparr>gc_quarantine := q\<rparr>)"
    using handle_crucible_cases(3) [OF assms(3), of L req reason E] assms(4-6) by auto
  have "row_expires_at r = uint (now div 1000 + 3600)"
    using banned_expiry [OF assms(1) gate_record_persistable [of K ip reason ua now], of r "gc_store ctx"] r(1,4)
      map_row_fields(1) [OF r(3)]
    by (simp add: c gate_ban_def Let_def)
  with r(2) have "t < now div 1000 + 3600" by (simp add: word_less_def)
  with seconds_are_past [OF assms(2)] assms(8) show False by simp
qed

text \<open>Detectors for evaluation: a quarantine that is a list of addresses, and no detector but the decoys.\<close>

definition decoy_lib :: "(string list, string) crucible_lib" where
  "decoy_lib =
     \<lparr>ck_quarantine_new = (\<lambda>_ _. []), ck_is_quarantined = (\<lambda>q a _. (a \<in> set q, q)),
      ck_record_and_check = (\<lambda>q a _. a # q), ck_inspect = (\<lambda>_ _. Inr ()), ck_bot = (\<lambda>_ _. BotAllowed ''none''),
      ck_show_category = (\<lambda>c. c), ck_derive_cidr = derive_cidr\<rparr>"

definition decoy_request :: "(string \<times> string) list request" where
  "decoy_request =
     \<lparr>rq_method = ''GET'', rq_uri_host = None, rq_path = ''/.env'', rq_query = None, rq_headers = []\<rparr>"

lemma decoy_attack:
  "ck_is_quarantined decoy_lib [] a now = (False, [])" "\<not> conflicting assoc_http decoy_request"
  "infraction_of assoc_http decoy_lib decoy_request = Some ''honeypot_decoy_breach''"
  by (simp_all add: decoy_lib_def) code_simp+

theorem gate_bans_attackers_witness:
  "active_set (gc_store (snd (handle_crucible_request assoc_http decoy_lib plain_engine 1700000000000 (V4 198 51 100 7)
     decoy_request \<lparr>gc_quarantine = [], gc_store = empty_db\<rparr>))) = {gate_cidr decoy_lib (V4 198 51 100 7)}"
proof -
  obtain res ctx' where h: "handle_crucible_request assoc_http decoy_lib plain_engine 1700000000000 (V4 198 51 100 7)
     decoy_request \<lparr>gc_quarantine = [], gc_store = empty_db\<rparr> = (res, ctx')" by fastforce
  from gate_bans_attackers [OF _ _ _ h, of False "[]"] show ?thesis
    by (simp add: h decoy_attack store_inv_empty Let_def)
qed

theorem gate_bans_are_expired_witness:
  "\<exists>recs. get_active_bans plain_engine 1700000000000 (gc_store (snd (handle_crucible_request assoc_http decoy_lib plain_engine
     1700000000000 (V4 198 51 100 7) decoy_request \<lparr>gc_quarantine = [], gc_store = empty_db\<rparr>))) = Inr recs \<and>
     gate_cidr decoy_lib (V4 198 51 100 7) \<notin> qr_cidr ` set recs"
proof -
  obtain res ctx' where h: "handle_crucible_request assoc_http decoy_lib plain_engine 1700000000000 (V4 198 51 100 7)
     decoy_request \<lparr>gc_quarantine = [], gc_store = empty_db\<rparr> = (res, ctx')" by fastforce
  obtain recs where g: "get_active_bans plain_engine 1700000000000 (gc_store ctx') = Inr recs"
    using get_active_bans_works [of plain_engine 1700000000000 "gc_store ctx'"] by auto
  have "gate_cidr decoy_lib (V4 198 51 100 7) \<notin> qr_cidr ` set recs"
    by (rule gate_bans_are_expired [OF _ _ _ decoy_attack(2,3) h _ _ g, of "[]"]) (simp_all add: decoy_attack)
  with h g show ?thesis by simp
qed

end
