(* ===== verification/Startup.thy ===== *)
theory Startup
  imports Proxy Tls Quarantine_Cli
begin

text \<open>
  The commands of the program (\<open>src/cli.rs\<close>) and the construction of the daemon
  (\<open>run_https_proxy_listener\<close> and \<open>build_edge_defense\<close> in \<open>src/proxy/mod.rs\<close>). A service that is started is
  a value of the result; sockets and tasks are not modelled. \<open>check\<close> returns what it prints.
\<close>

section \<open>The defence at start\<close>

text \<open>
  \<open>IpcServer::bind\<close>: a file in the way is removed, and only the owner may use the socket. Of the
  system: whether a path exists, can be removed and can be given a mode, and whether the socket can be
  bound (after the attempt to create its directory, whose error is ignored), given whether something
  is still in the way. The mode is \<open>0o600\<close>, which is 384.
\<close>

record socket_os =
  so_exists :: "string \<Rightarrow> bool"
  so_remove :: "string \<Rightarrow> bool"
  so_bind :: "string \<Rightarrow> bool \<Rightarrow> string + nat"
  so_chmod :: "string \<Rightarrow> bool"

record ipc_listener =
  il_path :: string
  il_mode :: nat

definition ipc_bind :: "socket_os \<Rightarrow> string \<Rightarrow> ipc_error + ipc_listener" where
  "ipc_bind S p =
     (let in_the_way = so_exists S p \<and> \<not> so_remove S p
      in case so_bind S p in_the_way of
           Inl e \<Rightarrow> Inl (IpcIo e)
         | Inr mode \<Rightarrow> Inr \<lparr>il_path = p, il_mode = (if so_chmod S p then 384 else mode)\<rparr>)"

text \<open>
  What the start asks of the environment: the error of creating the directory of a path, if any, the
  tables of a file, the sockets, the engine, phylax's memory and the quarantine of its pipeline.
\<close>

record ('s, 'q, 'n) boot_env =
  be_env :: env
  be_dir_error :: "string \<Rightarrow> string option"
  be_file :: "string \<Rightarrow> quarantine_db option"
  be_sockets :: socket_os
  be_engine :: sql_engine
  be_memory :: "('q, 'n) phylax_quarantine"
  be_quarantine_of :: "'s \<Rightarrow> 'q"
  be_now_ms :: u64

definition boot_open :: "('s, 'q, 'n) boot_env \<Rightarrow> string \<Rightarrow> store_error + quarantine_db" where
  "boot_open B p = open_store (be_engine B) (be_dir_error B p) (be_file B p)"

datatype background_task =
    PersistenceWorker
  | ControlSocket ipc_listener

definition build_edge_defense ::
    "('s, 'c) phylax_lib \<Rightarrow> 'n ipnet_lib \<Rightarrow> ('s, 'q, 'n) boot_env \<Rightarrow> propylea_config \<Rightarrow>
     ('s, 'n, 'q) edge_defense \<times> background_task list" where
  "build_edge_defense P N B config =
     (let sec = cfg_security config in
      if \<not> persist_quarantine sec then (new_edge_defense P N sec, [])
      else
        (let db_path = resolved_quarantine_db (be_env B) sec;
             sock_path = resolved_control_socket (be_env B) sec
         in case boot_open B db_path of
              Inr db \<Rightarrow>
                (let edge_defense = new_edge_defense P N sec;
                     in_mem = be_quarantine_of B (ed_shield edge_defense);
                     manager = snd (rehydrate_with_timestamp (be_engine B) N (be_memory B) (be_now_ms B)
                       (new_manager in_mem db sock_path))
                 in (with_quarantine_manager manager edge_defense,
                     PersistenceWorker # (case ipc_bind (be_sockets B) sock_path of
                        Inr listener \<Rightarrow> [ControlSocket listener] | Inl _ \<Rightarrow> [])))
            | Inl e \<Rightarrow> (new_edge_defense P N sec, [])))"

text \<open>The state that all requests share.\<close>

definition initial_proxy_state ::
    "('s, 'c) phylax_lib \<Rightarrow> 'n ipnet_lib \<Rightarrow> ('s, 'q, 'n) boot_env \<Rightarrow> propylea_config \<Rightarrow> resource_governor \<Rightarrow>
     telemetry_ring \<Rightarrow> ('s, 'n, 'q) proxy_state" where
  "initial_proxy_state P N B config governor telemetry =
     \<lparr>ps_router = new_router (cfg_routes config), ps_security = cfg_security config,
      ps_defense = fst (build_edge_defense P N B config), ps_governor = governor, ps_telemetry = telemetry,
      ps_acme_webroot = acme_webroot (cfg_server config), ps_framing_guard = default_guard\<rparr>"

section \<open>The check of a configuration\<close>

datatype check_line =
    CheckBanner
  | CheckedRoute nat "string list" socket_addr
  | VerifiedRoute nat "string list" socket_addr nat
  | CheckOk

datatype check_error =
    CheckConfig config_error
  | CertError nat "string list" tls_error
  | KeyError nat "string list" tls_error

text \<open>What is printed, and the error that \<open>?\<close> returns.\<close>

type_synonym check_result = "check_line list \<times> (check_error + unit)"

fun check_routes ::
    "('r, 'k) tls_lib \<Rightarrow> bool \<Rightarrow> (nat \<times> route_config) list \<Rightarrow> check_result" where
  "check_routes T syntax_only [] = ([], Inr ())"
| "check_routes T syntax_only ((i, route) # routes) =
     (let next = (\<lambda>line. let (lines, r) = check_routes T syntax_only routes in (line # lines, r)) in
      if syntax_only then next (CheckedRoute i (rc_domains route) (primary_upstream route))
      else
        (case load_certs T (rc_cert route) of
           Inl e \<Rightarrow> ([], Inl (CertError i (rc_domains route) e))
         | Inr certs \<Rightarrow>
             (case load_private_key T (rc_key route) of
                Inl e \<Rightarrow> ([], Inl (KeyError i (rc_domains route) e))
              | Inr _ \<Rightarrow> next (VerifiedRoute i (rc_domains route) (primary_upstream route) (length certs)))))"

definition run_check ::
    "(string \<Rightarrow> string + string) \<Rightarrow> (string \<Rightarrow> string + propylea_config) \<Rightarrow> ('r, 'k) tls_lib \<Rightarrow> string \<Rightarrow> bool \<Rightarrow>
     check_result" where
  "run_check read toml T p syntax_only =
     (case load_from_file read toml p of
        Inl e \<Rightarrow> ([CheckBanner], Inl (CheckConfig e))
      | Inr config \<Rightarrow>
          (let (lines, r) = check_routes T syntax_only (List.enumerate 0 (cfg_routes config))
           in (CheckBanner # lines @ (case r of Inr _ \<Rightarrow> [CheckOk] | Inl _ \<Rightarrow> []), r)))"

section \<open>The daemon\<close>

text \<open>The services that \<open>run_serve\<close> spawns, each with what it is given.\<close>

record redirect_service =
  rd_bind :: socket_addr
  rd_security :: security_config
  rd_acme_webroot :: "string option"

record ('r, 'k) proxy_service =
  pr_bind :: socket_addr
  pr_acceptor :: "('r, 'k) tls_acceptor"
  pr_config :: propylea_config

record ('r, 'k) serving =
  sv_governor :: resource_governor
  sv_telemetry :: telemetry_ring
  sv_redirect :: redirect_service
  sv_proxy :: "('r, 'k) proxy_service"

datatype serve_failure =
    ServeConfig config_error
  | ServeTls tls_error

definition maintenance_config_of :: "maintenance_settings \<Rightarrow> maintenance_config" where
  "maintenance_config_of m =
     \<lparr>mc_interval = unat (hygiene_interval_secs m), mc_max_retained_records = unat (max_telemetry_records m),
      mc_memory_vacuum = memory_vacuum m\<rparr>"

text \<open>Up to the wait for the signal; a failure is logged and ends the process with status 1.\<close>

definition run_serve ::
    "(string \<Rightarrow> string + string) \<Rightarrow> (string \<Rightarrow> string + propylea_config) \<Rightarrow> ('r, 'k) tls_lib \<Rightarrow> nat \<Rightarrow> string \<Rightarrow>
     serve_failure + ('r, 'k) serving" where
  "run_serve read toml T now p =
     (case load_from_file read toml p of
        Inl e \<Rightarrow> Inl (ServeConfig e)
      | Inr config \<Rightarrow>
          (case build_sni_tls_acceptor T (cfg_routes config) of
             Inl e \<Rightarrow> Inl (ServeTls e)
           | Inr acceptor \<Rightarrow>
               Inr \<lparr>sv_governor = run_hygiene_pass (new_governor (maintenance_config_of (cfg_maintenance config)) now),
                    sv_telemetry = new_ring (unat (max_telemetry_records (cfg_maintenance config))),
                    sv_redirect = \<lparr>rd_bind = http_bind (cfg_server config), rd_security = cfg_security config,
                      rd_acme_webroot = acme_webroot (cfg_server config)\<rparr>,
                    sv_proxy = \<lparr>pr_bind = https_bind (cfg_server config), pr_acceptor = acceptor, pr_config = config\<rparr>\<rparr>))"

text \<open>After the signal: the final pass over the counters of the time.\<close>

definition shut_down :: "resource_governor \<Rightarrow> resource_governor" where
  "shut_down g = run_hygiene_pass g"

text \<open>The state of the proxy service when its listener runs.\<close>

definition serving_state ::
    "('s, 'c) phylax_lib \<Rightarrow> 'n ipnet_lib \<Rightarrow> ('s, 'q, 'n) boot_env \<Rightarrow> ('r, 'k) serving \<Rightarrow> ('s, 'n, 'q) proxy_state" where
  "serving_state P N B d = initial_proxy_state P N B (pr_config (sv_proxy d)) (sv_governor d) (sv_telemetry d)"

section \<open>The command line\<close>

datatype commands =
    Serve string
  | Check string bool
  | Quarantine quarantine_commands

record cli =
  cli_command :: "commands option"
  cli_config :: string

text \<open>
  The quarantine commands: a configuration that cannot be loaded counts as the default one. What is
  found at a database path and a socket path is a parameter, as are the clock and the rest of the
  surroundings.
\<close>

record ('q, 'n) cli_system =
  sy_env :: env
  sy_cli :: "('q, 'n) cli_env"
  sy_dir_error :: "string \<Rightarrow> string option"
  sy_world :: "string \<Rightarrow> string \<Rightarrow> 'q world"
  sy_input :: "string \<Rightarrow> string + string option list"
  sy_now_ms :: u64

definition run_quarantine_command ::
    "(string \<Rightarrow> string + string) \<Rightarrow> (string \<Rightarrow> string + propylea_config) \<Rightarrow> ('q, 'n) cli_system \<Rightarrow> string \<Rightarrow>
     quarantine_commands \<Rightarrow> 'q outcome option" where
  "run_quarantine_command read toml S config_path cmd =
     (let config = (case load_from_file read toml config_path of Inr c \<Rightarrow> c | Inl _ \<Rightarrow> default_config);
          db_path = resolved_quarantine_db (sy_env S) (cfg_security config);
          sock_path = resolved_control_socket (sy_env S) (cfg_security config)
      in handle_quarantine_command ((sy_cli S)\<lparr>env_sock := sock_path, env_dir_error := sy_dir_error S db_path\<rparr>)
           (sy_input S) cmd (sy_now_ms S) (sy_world S db_path sock_path))"

datatype ('r, 'k, 'q) execution =
    ServeExecution "serve_failure + ('r, 'k) serving"
  | CheckExecution check_result
  | QuarantineExecution "'q outcome option"

definition execute_cli ::
    "(string \<Rightarrow> string + string) \<Rightarrow> (string \<Rightarrow> string + propylea_config) \<Rightarrow> ('r, 'k) tls_lib \<Rightarrow> nat \<Rightarrow>
     ('q, 'n) cli_system \<Rightarrow> cli \<Rightarrow> ('r, 'k, 'q) execution" where
  "execute_cli read toml T now S c =
     (case cli_command c of
        Some (Serve config) \<Rightarrow> ServeExecution (run_serve read toml T now config)
      | Some (Check config syntax_only) \<Rightarrow> CheckExecution (run_check read toml T config syntax_only)
      | Some (Quarantine cmd) \<Rightarrow> QuarantineExecution (run_quarantine_command read toml S (cli_config c) cmd)
      | None \<Rightarrow> ServeExecution (run_serve read toml T now (cli_config c)))"

end
