(* ===== verification/Startup_Props.thy ===== *)
theory Startup_Props
  imports Startup Proxy_Props
begin

text \<open>
  What a start of the daemon guarantees: the check and the start agree on which configurations are
  good, a running proxy has an upstream and a certificate for every host, and the bans of the last run
  are in force again.
\<close>

text \<open>Surroundings for evaluation: a store that opens, with the tables it is given.\<close>

definition plain_boot :: "quarantine_db \<Rightarrow> (unit, (cidr \<times> u64) list, cidr) boot_env" where
  "plain_boot db =
     \<lparr>be_env = \<lparr>can_create = (\<lambda>_. True), home_var = None\<rparr>, be_dir_error = (\<lambda>_. None), be_file = (\<lambda>_. Some db),
      be_sockets = \<lparr>so_exists = (\<lambda>_. False), so_remove = (\<lambda>_. True), so_bind = (\<lambda>_ _. Inr 0), so_chmod = (\<lambda>_. True)\<rparr>,
      be_engine = plain_engine, be_memory = list_quarantine, be_quarantine_of = (\<lambda>_. []), be_now_ms = 9\<rparr>"

section \<open>Check and start\<close>

lemma load_valid: "load_from_file read toml p = Inr c \<Longrightarrow> validate_config c = Inr ()"
  by (auto simp: load_from_file_def config_from_str_def split: sum.splits)

lemma check_routes_syntax: "snd (check_routes T True rs) = Inr ()"
  by (induction rs) (auto simp: Let_def split: prod.split)

definition route_loads :: "('r, 'k) tls_lib \<Rightarrow> route_config \<Rightarrow> bool" where
  "route_loads T route \<longleftrightarrow> \<not> isl (load_certs T (rc_cert route)) \<and> \<not> isl (load_private_key T (rc_key route))"

lemma check_routes_ok: "snd (check_routes T False rs) = Inr () \<longleftrightarrow> (\<forall>(i, route) \<in> set rs. route_loads T route)"
proof (induction rs)
  case (Cons x rs)
  obtain i route where x: "x = (i, route)" by (cases x)
  obtain lines r where "check_routes T False rs = (lines, r)" by fastforce
  with Cons show ?case by (auto simp: x route_loads_def split: sum.split)
qed simp

lemma check_enumerate_ok:
  "snd (check_routes T False (List.enumerate n routes)) = Inr () \<longleftrightarrow> (\<forall>route \<in> set routes. route_loads T route)"
  unfolding check_routes_ok by (induction routes arbitrary: n) auto

lemma run_check_ok:
  "snd (run_check read toml T p syntax_only) = Inr () \<longleftrightarrow>
     (\<exists>c. load_from_file read toml p = Inr c \<and> (syntax_only \<or> (\<forall>route \<in> set (cfg_routes c). route_loads T route)))"
  by (cases syntax_only)
    (auto simp: run_check_def Let_def case_prod_unfold check_routes_syntax check_enumerate_ok split: sum.split)

lemma route_key_loads: "route_key T route = Inr k \<Longrightarrow> route_loads T route"
  by (auto simp: route_key_def route_loads_def)

lemma add_routes_keys:
  "add_routes T r fb routes = Inr x \<Longrightarrow> route \<in> set routes \<Longrightarrow> \<exists>k. route_key T route = Inr k"
  by (induction routes arbitrary: r fb) (auto simp: Let_def)

lemma build_routes_load:
  "build_sni_tls_acceptor T routes = Inr acc \<Longrightarrow> route \<in> set routes \<Longrightarrow> route_loads T route"
  by (auto simp: build_sni_tls_acceptor_def split: if_splits option.splits dest!: add_routes_keys route_key_loads)

text \<open>What the check does not try: whether the key of a route can sign, and whether its domains can be registered for it.\<close>

definition key_signs :: "('r, 'k) tls_lib \<Rightarrow> route_config \<Rightarrow> bool" where
  "key_signs T route \<longleftrightarrow>
     (case load_private_key T (rc_key route) of Inr key \<Rightarrow> \<not> isl (tl_signing_key T key) | Inl _ \<Rightarrow> True)"

definition domains_accepted :: "('r, 'k) tls_lib \<Rightarrow> route_config \<Rightarrow> bool" where
  "domains_accepted T route \<longleftrightarrow>
     (case route_key T route of
        Inr key \<Rightarrow> list_all (\<lambda>d. \<not> isl (tl_sni_add T (tl_sni_new T) (lower (trim d)) key)) (rc_domains route)
      | Inl _ \<Rightarrow> True)"

lemma add_domains_ok:
  assumes "registration_law T"
  shows "(\<exists>r'. add_domains T key r ds = Inr r') \<longleftrightarrow>
    list_all (\<lambda>d. \<not> isl (tl_sni_add T (tl_sni_new T) (lower (trim d)) key)) ds"
proof (induction ds arbitrary: r)
  case (Cons d ds)
  have "isl (tl_sni_add T r (lower (trim d)) key) = isl (tl_sni_add T (tl_sni_new T) (lower (trim d)) key)"
    using assms unfolding registration_law_def by blast
  with Cons show ?case by (cases "tl_sni_add T r (lower (trim d)) key") (auto simp: Let_def)
qed simp

lemma route_key_ok: "(\<exists>k. route_key T route = Inr k) \<longleftrightarrow> route_loads T route \<and> key_signs T route"
  by (cases "load_certs T (rc_cert route)"; cases "load_private_key T (rc_key route)")
    (auto simp: route_key_def route_loads_def key_signs_def isl_def result_bind_def map_err_def split: sum.splits)

lemma add_routes_ok:
  assumes "registration_law T"
  shows "(\<exists>x. add_routes T r fb routes = Inr x) \<longleftrightarrow>
    (\<forall>route \<in> set routes. route_loads T route \<and> key_signs T route \<and> domains_accepted T route)"
proof (induction routes arbitrary: r fb)
  case (Cons route routes)
  show ?case
  proof (cases "route_key T route")
    case (Inl e)
    with route_key_ok [of T route] show ?thesis by (auto simp: Let_def)
  next
    case (Inr key)
    then have k: "route_loads T route" "key_signs T route" using route_key_ok [of T route] by auto
    note d = add_domains_ok [OF assms, of key r "rc_domains route"]
    show ?thesis
    proof (cases "add_domains T key r (rc_domains route)")
      case Inl
      with Inr d show ?thesis by (auto simp: Let_def domains_accepted_def)
    next
      case r': (Inr r')
      then have "domains_accepted T route" using Inr d by (auto simp: domains_accepted_def)
      with Inr r' k Cons.IH show ?thesis by (simp add: Let_def)
    qed
  qed
qed simp

lemma add_routes_fallback:
  "add_routes T r fb routes = Inr (r', fb') \<Longrightarrow> routes \<noteq> [] \<or> fb \<noteq> None \<Longrightarrow> fb' \<noteq> None"
  by (induction routes arbitrary: r fb) (auto simp: Let_def split: option.splits)

lemma build_accepts:
  assumes "registration_law T" "routes \<noteq> []"
  shows "(\<exists>acc. build_sni_tls_acceptor T routes = Inr acc) \<longleftrightarrow>
    (\<forall>route \<in> set routes. route_loads T route \<and> key_signs T route \<and> domains_accepted T route)"
proof (cases "add_routes T (tl_sni_new T) None routes")
  case (Inl e)
  with assms(2) add_routes_ok [OF assms(1), of "tl_sni_new T" None routes] show ?thesis
    by (auto simp: build_sni_tls_acceptor_def)
next
  case (Inr x)
  obtain r fb where x: "x = (r, fb)" by (cases x)
  then obtain k where "fb = Some k" using add_routes_fallback [of T "tl_sni_new T" None routes r fb] Inr assms(2) by auto
  with Inr x assms(2) add_routes_ok [OF assms(1), of "tl_sni_new T" None routes] show ?thesis
    by (auto simp: build_sni_tls_acceptor_def)
qed

lemma served_passes_check: "run_serve read toml T now p = Inr d \<Longrightarrow> snd (run_check read toml T p syntax_only) = Inr ()"
  by (auto simp: run_check_ok run_serve_def build_routes_load split: sum.splits)

lemma serve_iff:
  assumes "registration_law T"
  shows "(\<exists>d. run_serve read toml T now p = Inr d) \<longleftrightarrow>
    (\<exists>c. load_from_file read toml p = Inr c \<and>
       (\<forall>route \<in> set (cfg_routes c). route_loads T route \<and> key_signs T route \<and> domains_accepted T route))"
proof (cases "load_from_file read toml p")
  case (Inr c)
  then have "cfg_routes c \<noteq> []" using load_valid [OF Inr] by (auto simp: validate_config_ok valid_config_def)
  from build_accepts [OF assms this] Inr show ?thesis
    by (cases "build_sni_tls_acceptor T (cfg_routes c)") (auto simp: run_serve_def)
qed (simp add: run_serve_def)

text \<open>
  C26: the check predicts the start, up to two things that it does not try. A configuration that starts
  passes the check, with the files and of the syntax alone. And a configuration starts exactly when it
  passes the check with the files, the key of every route can sign, and the certificate resolver accepts
  every domain of every route for the certificate of that route; of the resolver this assumes only that it
  accepts or refuses a name for a certificate whatever it already holds.
\<close>

theorem check_predicts_serve:
  "(\<forall>d. run_serve read toml T now p = Inr d \<longrightarrow>
      snd (run_check read toml T p False) = Inr () \<and> snd (run_check read toml T p True) = Inr ()) \<and>
   (registration_law T \<longrightarrow>
      ((\<exists>d. run_serve read toml T now p = Inr d) \<longleftrightarrow>
         snd (run_check read toml T p False) = Inr () \<and>
         (\<forall>c. load_from_file read toml p = Inr c \<longrightarrow>
            (\<forall>route \<in> set (cfg_routes c). key_signs T route \<and> domains_accepted T route))))"
proof (intro conjI allI impI)
  assume "registration_law T"
  from serve_iff [OF this, of read toml now p]
  show "(\<exists>d. run_serve read toml T now p = Inr d) \<longleftrightarrow>
         snd (run_check read toml T p False) = Inr () \<and>
         (\<forall>c. load_from_file read toml p = Inr c \<longrightarrow>
            (\<forall>route \<in> set (cfg_routes c). key_signs T route \<and> domains_accepted T route))"
    by (auto simp: run_check_ok)
qed (simp_all add: served_passes_check)

lemma two_routes_load:
  "load_from_file (\<lambda>_. Inr []) (\<lambda>_. Inr (default_config\<lparr>cfg_routes := two_routes\<rparr>)) ''propylea.toml'' =
     Inr (default_config\<lparr>cfg_routes := two_routes\<rparr>)"
  unfolding load_from_file_def config_from_str_def
  using validate_config_ok [of "default_config\<lparr>cfg_routes := two_routes\<rparr>"]
  by (simp add: valid_config_def valid_route_def two_routes_def single_route_def)

lemma two_routes_accepted:
  "\<forall>route \<in> set two_routes. route_loads map_tls route \<and> key_signs map_tls route \<and> domains_accepted map_tls route"
  by code_simp

lemma two_routes_serve:
  "\<exists>d. run_serve (\<lambda>_. Inr []) (\<lambda>_. Inr (default_config\<lparr>cfg_routes := two_routes\<rparr>)) map_tls 0 ''propylea.toml'' = Inr d \<and>
     cfg_routes (pr_config (sv_proxy d)) = two_routes"
proof -
  have "two_routes \<noteq> []" by (simp add: two_routes_def)
  with build_accepts [OF map_tls_registration] two_routes_accepted
  obtain acc where "build_sni_tls_acceptor map_tls two_routes = Inr acc" by blast
  then show ?thesis by (simp add: run_serve_def two_routes_load)
qed

text \<open>A configuration with a key that the test library refuses, whose check passes.\<close>

definition sec1_tls :: "(string \<Rightarrow> string certified_key option, string) tls_lib" where
  "sec1_tls = map_tls\<lparr>tl_items := (\<lambda>f. [Inr (Sec1Key f)])\<rparr>"

theorem check_predicts_serve_witness:
  "(\<exists>d. run_serve (\<lambda>_. Inr []) (\<lambda>_. Inr (default_config\<lparr>cfg_routes := two_routes\<rparr>)) map_tls 0 ''propylea.toml'' = Inr d) \<and>
   snd (run_check (\<lambda>_. Inr []) (\<lambda>_. Inr (default_config\<lparr>cfg_routes := two_routes\<rparr>)) sec1_tls ''propylea.toml'' False) = Inr () \<and>
   (\<nexists>d. run_serve (\<lambda>_. Inr []) (\<lambda>_. Inr (default_config\<lparr>cfg_routes := two_routes\<rparr>)) sec1_tls 0 ''propylea.toml'' = Inr d)"
proof -
  have l: "registration_law sec1_tls" by (simp add: registration_law_def sec1_tls_def map_tls_def)
  have a: "\<forall>route \<in> set two_routes. route_loads sec1_tls route" "\<not> (\<forall>route \<in> set two_routes. key_signs sec1_tls route)"
    by code_simp+
  have c: "snd (run_check (\<lambda>_. Inr []) (\<lambda>_. Inr (default_config\<lparr>cfg_routes := two_routes\<rparr>)) T ''propylea.toml'' False) = Inr ()"
    if "\<forall>route \<in> set two_routes. route_loads T route" for T :: "(string \<Rightarrow> string certified_key option, string) tls_lib"
    using that by (simp add: run_check_ok two_routes_load)
  note P = check_predicts_serve [of "\<lambda>_. Inr []" "\<lambda>_. Inr (default_config\<lparr>cfg_routes := two_routes\<rparr>)" _ 0
      "''propylea.toml''", THEN conjunct2, THEN mp]
  have "\<exists>d. run_serve (\<lambda>_. Inr []) (\<lambda>_. Inr (default_config\<lparr>cfg_routes := two_routes\<rparr>)) map_tls 0 ''propylea.toml'' = Inr d"
    using P [OF map_tls_registration] two_routes_accepted c [of map_tls] by (simp add: two_routes_load)
  moreover have "\<nexists>d. run_serve (\<lambda>_. Inr []) (\<lambda>_. Inr (default_config\<lparr>cfg_routes := two_routes\<rparr>)) sec1_tls 0 ''propylea.toml'' = Inr d"
    using P [OF l] a(2) by (auto simp: two_routes_load)
  ultimately show ?thesis using c [OF a(1)] by blast
qed

section \<open>A running proxy\<close>

lemma certificate_of_host:
  assumes "sni_laws T" "build_sni_tls_acceptor T routes = Inr acc"
  shows "\<exists>r \<in> set routes. \<exists>k. resolve (new_router routes) raw = Some (route_target r) \<and>
    route_key T r = Inr k \<and> sovereign_resolve T acc (Some (clean_host raw)) = Some k"
proof -
  note B = build_ok [OF assms]
  show ?thesis
  proof (cases "matching_route routes (clean_host raw)")
    case None
    obtain r rs where r: "routes = r # rs" using B(1) by (cases routes) auto
    with B(2) obtain k where "route_key T r = Inr k" by (auto simp: route_key_of)
    with None r B(4) show ?thesis by (auto simp: resolve_matching route_key_of)
  next
    case (Some r)
    then have r: "r \<in> set routes" by (auto simp: matching_route_def dest: find_SomeD)
    with B(2) obtain k where "route_key T r = Inr k" by (auto simp: route_key_of)
    with Some r B(4) show ?thesis by (auto simp: resolve_matching route_key_of)
  qed
qed

lemma serving_state_router [simp]:
  "ps_router (serving_state P N B d) = new_router (cfg_routes (pr_config (sv_proxy d)))"
  by (simp add: serving_state_def initial_proxy_state_def)

text \<open>
  C25: a proxy that runs knows every host. Whatever host a request names, it resolves to one of the
  configured routes, which has an upstream address; and a client that asks for that host in the
  handshake is presented the certificate of that same route. So the answer for an unrecognised host
  is never given, and no client is shown the certificate of another route than the one it talks to.
\<close>

theorem running_proxy_knows_hosts:
  assumes "sni_laws T" "run_serve read toml T now p = Inr d"
  shows "\<exists>r \<in> set (cfg_routes (pr_config (sv_proxy d))). \<exists>k.
    resolve (ps_router (serving_state P N B d)) raw = Some (route_target r) \<and>
    resolved_upstreams r = Inr (ut_addrs (route_target r)) \<and> ut_addr (route_target r) = hd (ut_addrs (route_target r)) \<and>
    route_key T r = Inr k \<and> sovereign_resolve T (pr_acceptor (sv_proxy d)) (Some (clean_host raw)) = Some k"
proof -
  from assms(2) obtain c where c: "load_from_file read toml p = Inr c" "pr_config (sv_proxy d) = c"
    "build_sni_tls_acceptor T (cfg_routes c) = Inr (pr_acceptor (sv_proxy d))"
    by (auto simp: run_serve_def split: sum.splits)
  obtain r k where r: "r \<in> set (cfg_routes c)" "resolve (new_router (cfg_routes c)) raw = Some (route_target r)"
    "route_key T r = Inr k" "sovereign_resolve T (pr_acceptor (sv_proxy d)) (Some (clean_host raw)) = Some k"
    using certificate_of_host [OF assms(1) c(3)] by blast
  obtain r' where r': "resolve (new_router (cfg_routes c)) raw = Some (route_target r')"
    "ut_addr (route_target r') = hd (ut_addrs (route_target r'))"
    using valid_resolves [OF load_valid [OF c(1)]] by blast
  have "valid_route r" using r(1) load_valid [OF c(1)] by (auto simp: validate_config_ok valid_config_def)
  then have "upstream_list r \<noteq> []" by (auto simp: valid_route_def upstream_list_Nil)
  then have "resolved_upstreams r = Inr (ut_addrs (route_target r))"
    by (cases "upstream_list r") (simp_all add: route_target_def Let_def resolved_upstreams_def)
  with r r' show ?thesis by (auto simp: c(2))
qed

theorem running_proxy_knows_hosts_witness:
  "\<exists>d. run_serve (\<lambda>_. Inr []) (\<lambda>_. Inr (default_config\<lparr>cfg_routes := two_routes\<rparr>)) map_tls 0 ''propylea.toml'' = Inr d \<and>
     (\<exists>r \<in> set two_routes. \<exists>k. route_key map_tls r = Inr k \<and>
        sovereign_resolve map_tls (pr_acceptor (sv_proxy d)) (Some (clean_host ''b.example:443'')) = Some k)"
proof -
  obtain d where d: "run_serve (\<lambda>_. Inr []) (\<lambda>_. Inr (default_config\<lparr>cfg_routes := two_routes\<rparr>)) map_tls 0 ''propylea.toml'' = Inr d"
    "cfg_routes (pr_config (sv_proxy d)) = two_routes"
    using two_routes_serve by blast
  from running_proxy_knows_hosts [OF map_tls_laws d(1), of word_guard cidr_lib "plain_boot empty_db" "''b.example:443''"] d
  show ?thesis by auto
qed

section \<open>The bans of the last run\<close>

text \<open>The memory of the daemon that \<open>build_edge_defense\<close> starts on a store.\<close>

lemma boot_manager:
  assumes "persist_quarantine (cfg_security config)"
    and "boot_open B (resolved_quarantine_db (be_env B) (cfg_security config)) = Inr db"
  shows "\<exists>sock. ed_manager (fst (build_edge_defense P N B config)) =
      Some (snd (rehydrate_with_timestamp (be_engine B) N (be_memory B) (be_now_ms B)
        (new_manager (be_quarantine_of B (px_build P False False (reporting_of (cfg_security config)))) db sock))) \<and>
      PersistenceWorker \<in> set (snd (build_edge_defense P N B config))"
  using assms by (auto simp: build_edge_defense_def Let_def with_quarantine_manager_def new_edge_defense_def)


lemma unguarded_trap:
  "ed_manager (snd (evaluate_request_full assoc_http word_guard cidr_lib 5 (V4 198 51 100 7) ''GET'' ''/''
      (Some ''q=UNION'') None None guarded)) =
   Some ((new_manager [] empty_db [])\<lparr>channel := [trap_record ''198.51.100.0/24'' (V4 198 51 100 7) ''sqli'' None 5]\<rparr>)"
proof -
  have "px_derive_cidr word_guard (show_ip (V4 198 51 100 7)) = Some ''198.51.100.0/24''" by code_simp
  from trap_queues [OF guarded_trap(2,1) _ _ this, of "new_manager [] empty_db []" assoc_http 5 "''GET''"]
  show ?thesis by (simp add: guarded_def new_manager_def)
qed


end
