(* ===== verification/Daemon.thy ===== *)
theory Daemon
  imports Startup_Props Ipc
begin

text \<open>
  The running daemon: requests, the persistence worker, the control socket, the connections and the
  maintenance act on the one shared state, in any order. Each event is one of the operations of the
  other theories; the order and the outcome of every call of a library are arbitrary. The theorems hold
  for every interleaving.
\<close>

datatype ('h, 's, 'c, 'n) daemon_event =
    RequestServed "('h, 's, 'c, 'n) proxy_env" "'h request" ip_addr "client_tls_profile option"
  | WorkerTurn sql_engine
  | ControlCall "nat \<Rightarrow> sql_engine" ipc_request u64
  | ConnectionOpened
  | ConnectionClosed
  | HygienePass

definition manager_of :: "('s, 'n, 'q) proxy_state \<Rightarrow> 'q daemon option" where
  "manager_of st = ed_manager (ps_defense st)"

definition set_manager :: "'q daemon \<Rightarrow> ('s, 'n, 'q) proxy_state \<Rightarrow> ('s, 'n, 'q) proxy_state" where
  "set_manager qm st = st\<lparr>ps_defense := (ps_defense st)\<lparr>ed_manager := Some qm\<rparr>\<rparr>"

definition on_governor ::
    "(resource_governor \<Rightarrow> resource_governor) \<Rightarrow> ('s, 'n, 'q) proxy_state \<Rightarrow> ('s, 'n, 'q) proxy_state" where
  "on_governor f st = st\<lparr>ps_governor := f (ps_governor st)\<rparr>"

inductive daemon_step ::
    "bool \<Rightarrow> 'n ipnet_lib \<Rightarrow> ('q, 'n) phylax_quarantine \<Rightarrow> ('s, 'n, 'q) proxy_state \<Rightarrow> ('h, 's, 'c, 'n) daemon_event \<Rightarrow>
     ('s, 'n, 'q) proxy_state \<Rightarrow> bool" for checks N A where
  request: "daemon_step checks N A st (RequestServed X req ip tls)
     (po_state (handle_proxy_request_with_tls X req ip tls st))"
| worker: "manager_of st = Some qm \<Longrightarrow> daemon_step checks N A st (WorkerTurn E) (set_manager (worker_step E qm) st)"
| control: "manager_of st = Some qm \<Longrightarrow> dispatch checks E N A req now qm = Some (res, qm') \<Longrightarrow>
     daemon_step checks N A st (ControlCall E req now) (set_manager qm' st)"
| control_panics: "manager_of st = Some qm \<Longrightarrow> dispatch checks E N A req now qm = None \<Longrightarrow>
     daemon_step checks N A st (ControlCall E req now) st"
| opened: "daemon_step checks N A st ConnectionOpened (on_governor register_connection st)"
| closed: "daemon_step checks N A st ConnectionClosed (on_governor deregister_connection st)"
| hygiene: "daemon_step checks N A st HygienePass (on_governor run_hygiene_pass st)"

inductive_cases daemon_stepE: "daemon_step checks N A st e st'"

section \<open>What a request does to the shared state\<close>

text \<open>The part of the state that no operation changes.\<close>

definition settings_of :: "('s, 'n, 'q) proxy_state \<Rightarrow>
    upstream_router \<times> security_config \<times> string option \<times> framing_guard \<times> 'n list" where
  "settings_of st =
     (ps_router st, ps_security st, ps_acme_webroot st, ps_framing_guard st, ed_trusted_subnets (ps_defense st))"

lemma harvester_keeps [simp]:
  "ed_manager (ps_defense (check_harvester_promotion X s p ip st)) = ed_manager (ps_defense st)"
  "ed_trusted_subnets (ps_defense (check_harvester_promotion X s p ip st)) = ed_trusted_subnets (ps_defense st)"
  by (simp_all add: check_harvester_promotion_def record_anomalous_uri_def case_prod_unfold Let_def)

lemma bookkeeping_keeps [simp]:
  "settings_of (log_request X f s u t st) = settings_of st"
  "settings_of (count_threat st) = settings_of st"
  "manager_of (log_request X f s u t st) = manager_of st"
  "manager_of (count_threat st) = manager_of st"
  "manager_of (st\<lparr>ps_defense := ed\<rparr>) = ed_manager ed"
  by (simp_all add: settings_of_def manager_of_def)

lemma websocket_keeps:
  "manager_of (po_state (handle_websocket_upgrade X req t f st)) = manager_of st"
  "settings_of (po_state (handle_websocket_upgrade X req t f st)) = settings_of st"
  by (auto simp: manager_of_def settings_of_def upstream_defs Let_def split: upstream_result.split)

lemma direct_keeps:
  "manager_of (po_state (forward_http_request_direct X req addr f st)) = manager_of st"
  "settings_of (po_state (forward_http_request_direct X req addr f st)) = settings_of st"
  by (auto simp: manager_of_def settings_of_def upstream_defs Let_def split: upstream_result.split)

lemma hedged_keeps:
  "manager_of (po_state (forward_http_request_hedged X req racer f st)) = manager_of st"
  "settings_of (po_state (forward_http_request_hedged X req racer f st)) = settings_of st"
  by (auto simp: manager_of_def settings_of_def upstream_defs Let_def case_prod_unfold split: option.split)

lemma route_keeps:
  "manager_of (po_state (route_request X req f st)) = manager_of st"
  "settings_of (po_state (route_request X req f st)) = settings_of st"
  by (auto simp: route_request_def forward_http_request_def Let_def websocket_keeps direct_keeps hedged_keeps
      bookkeeping_keeps split: option.split)

lemma on_shield_trusted [simp]: "ed_trusted_subnets (on_shield f ed) = ed_trusted_subnets ed"
  by (simp add: on_shield_def)

lemma notify_trusted [simp]:
  "ed_trusted_subnets (notify_quarantine P ip reason ua now ed) = ed_trusted_subnets ed"
  by (simp add: notify_quarantine_def split: option.split)

lemma harvest_trusted [simp]: "ed_trusted_subnets (harvest_if_some P ua r now ed) = ed_trusted_subnets ed"
  by (simp add: harvest_if_some_def split: option.split)

lemma evaluate_trusted_subnets:
  "ed_trusted_subnets (snd (evaluate_request_full L P N now ip m path q ua tls ed)) = ed_trusted_subnets ed"
  by (auto simp: evaluate_request_full_def Let_def split: sum.split option.split prod.split bot_verdict.split)

text \<open>The defence leaves the manager alone or queues one record.\<close>

lemma evaluate_manager:
  "ed_manager (snd (evaluate_request_full L P N now ip m path q ua tls ed)) = ed_manager ed \<or>
   (\<exists>qm cidr reason. ed_manager ed = Some qm \<and>
      ed_manager (snd (evaluate_request_full L P N now ip m path q ua tls ed)) =
        Some (queue_record (trap_record cidr ip reason ua now) qm))"
proof (cases "is_trusted N ed ip")
  case False
  show ?thesis
  proof (cases "trap_of P path q ua tls")
    case None
    obtain denied s1 where "shield_verdict P now ip m path ua (ed_shield ed) = (denied, s1)" by fastforce
    with evaluate_no_trap_result(2) [OF False None] show ?thesis by blast
  next
    case (Some reason)
    with evaluate_trap(2) [OF False Some, of L now m] show ?thesis
      by (auto simp: notify_manager split: option.split)
  qed
qed (simp add: evaluate_trusted)

lemma verdict_keeps:
  "ed_trusted_subnets (snd (defence_verdict X req ip tls st)) = ed_trusted_subnets (ps_defense st)"
  by (simp add: defence_verdict_def evaluate_trusted_subnets)

lemma handle_keeps_settings:
  "settings_of (po_state (handle_proxy_request_with_tls X req ip tls st)) = settings_of st"
proof -
  have "settings_of (st\<lparr>ps_defense := snd (defence_verdict X req ip tls st)\<rparr>) = settings_of st"
    using verdict_keeps [of X req ip tls st] by (simp add: settings_of_def)
  then show ?thesis
    unfolding handle_eq
    by (cases "defence_verdict X req ip tls st") (auto simp: route_keeps split: sum.split option.split)
qed

lemma handle_manager:
  "manager_of (po_state (handle_proxy_request_with_tls X req ip tls st)) = manager_of st \<or>
   (\<exists>qm cidr reason ua. manager_of st = Some qm \<and>
      manager_of (po_state (handle_proxy_request_with_tls X req ip tls st)) =
        Some (queue_record (trap_record cidr ip reason ua (pe_now_ms X)) qm))"
proof -
  have v: "ed_manager (snd (defence_verdict X req ip tls st)) = manager_of st \<or>
     (\<exists>qm cidr reason ua. manager_of st = Some qm \<and> ed_manager (snd (defence_verdict X req ip tls st)) =
        Some (queue_record (trap_record cidr ip reason ua (pe_now_ms X)) qm))"
    using evaluate_manager [of "pe_http X" "pe_phylax X" "pe_net X" "pe_now_ms X" ip "rq_method req" "rq_path req" "rq_query req"
        "header_str (pe_http X) (sanitize_ingress_headers (pe_http X) (rq_headers req) ip) ''user-agent''" tls "ps_defense st"]
    by (auto simp: defence_verdict_def manager_of_def)
  have "manager_of (po_state (handle_proxy_request_with_tls X req ip tls st)) = manager_of st \<or>
      manager_of (po_state (handle_proxy_request_with_tls X req ip tls st)) = ed_manager (snd (defence_verdict X req ip tls st))"
    unfolding handle_eq
    by (cases "defence_verdict X req ip tls st") (auto simp: route_keeps split: sum.split option.split)
  with v show ?thesis by metis
qed

text \<open>The log gets at most one record.\<close>

lemma route_telemetry:
  "ps_telemetry (po_state (route_request X req f st)) \<in> insert (ps_telemetry st) (range (ring_record (ps_telemetry st)))"
  using route_accounts(2) [of X req f st] by (auto simp: records_exchange_def)

lemma log_telemetry: "ps_telemetry (log_request X f s u t st) \<in> range (ring_record (ps_telemetry st))"
  by (simp add: log_request_def)

lemma handle_telemetry:
  "ps_telemetry (po_state (handle_proxy_request_with_tls X req ip tls st)) \<in>
     insert (ps_telemetry st) (range (ring_record (ps_telemetry st)))"
  unfolding handle_eq
  using route_telemetry [of X _ _ "st\<lparr>ps_defense := ed\<rparr>" for ed]
    log_telemetry [of X _ _ _ _ "count_threat (st\<lparr>ps_defense := ed\<rparr>)" for ed]
  by (auto split: sum.split option.split prod.split)

section \<open>The invariant of a run\<close>

definition well_formed :: "('s, 'n, 'q) proxy_state \<Rightarrow> bool" where
  "well_formed st \<longleftrightarrow>
     length (ring_records (ps_telemetry st)) \<le> max 1 (max_capacity (ps_telemetry st)) \<and>
     (case manager_of st of None \<Rightarrow> True
      | Some qm \<Rightarrow> store_inv (daemon_db qm) \<and> list_all persistable (channel qm))"

text \<open>Events of a working machine: a clock of this era, and an engine that lists every row once.\<close>

fun event_ok :: "('h, 's, 'c, 'n) daemon_event \<Rightarrow> bool" where
  "event_ok (RequestServed X req ip tls) = (unat (pe_now_ms X) + 86400000 < 2 ^ 63)"
| "event_ok (WorkerTurn E) = engine_laws E"
| "event_ok (ControlCall E req now) = (\<forall>i. engine_laws (E i))"
| "event_ok _ = True"

lemma trap_record_persistable:
  "unat now + 86400000 < 2 ^ 63 \<Longrightarrow> persistable (trap_record cidr ip reason ua now)"
  using trap_expiry [of now] by (simp add: persistable_def) (simp add: trap_record_def)

lemma worker_step_inv:
  assumes "store_inv (daemon_db qm)" "list_all persistable (channel qm)"
  shows "store_inv (daemon_db (worker_step E qm)) \<and> list_all persistable (channel (worker_step E qm))"
  using assms by (cases "channel qm") (auto simp: worker_step_def persistable_def store_inv_record_ban)

text \<open>The channel is the worker's: a control call leaves both its ends as they are.\<close>

lemma ban_targets_channel [simp]:
  "channel (snd (ban_targets E N A reason now e exact ts d)) = channel d \<and>
   receiver_alive (snd (ban_targets E N A reason now e exact ts d)) = receiver_alive d"
proof (induction ts arbitrary: E d)
  case (Cons t ts)
  then show ?case by (auto simp: Let_def case_prod_unfold split: option.split)
qed simp

lemma unban_each_channel [simp]:
  "channel (snd (unban_each E N A now ts d)) = channel d \<and>
   receiver_alive (snd (unban_each E N A now ts d)) = receiver_alive d"
proof (induction ts arbitrary: E d)
  case (Cons t ts)
  then show ?case by (simp add: Let_def case_prod_unfold)
qed simp

lemma dispatch_channel:
  assumes "dispatch checks E N A req now d = Some (res, d')"
  shows "channel d' = channel d \<and> receiver_alive d' = receiver_alive d"
proof (cases req)
  case (Ban ts reason dur exact)
  then have "exec_ban checks E N A ts reason dur exact now d = Some (res, d')"
    using assms by (simp add: dispatch_def)
  then show ?thesis using exec_ban_shape ban_targets_channel by metis
qed (use assms in \<open>auto simp: dispatch_def exec_unban_def case_prod_unfold Let_def\<close>)

lemma set_manager_simps [simp]:
  "manager_of (set_manager qm st) = Some qm"
  "settings_of (set_manager qm st) = settings_of st"
  "ps_telemetry (set_manager qm st) = ps_telemetry st"
  by (simp_all add: set_manager_def manager_of_def settings_of_def)

lemma on_governor_simps [simp]:
  "manager_of (on_governor f st) = manager_of st"
  "settings_of (on_governor f st) = settings_of st"
  "ps_telemetry (on_governor f st) = ps_telemetry st"
  by (simp_all add: on_governor_def manager_of_def settings_of_def)

text \<open>An operation that queues at most one record and logs at most one keeps the state well formed.\<close>

lemma effect_well_formed:
  assumes "well_formed st" "unat now + 86400000 < 2 ^ 63"
    and "ps_telemetry st' \<in> insert (ps_telemetry st) (range (ring_record (ps_telemetry st)))"
    and "manager_of st' = manager_of st \<or>
      (\<exists>qm cidr reason ua. manager_of st = Some qm \<and>
         manager_of st' = Some (queue_record (trap_record cidr ip reason ua now) qm))"
  shows "well_formed st'"
proof -
  have "length (ring_records (ps_telemetry st')) \<le> max 1 (max_capacity (ps_telemetry st'))"
    using assms(1,3) tel.length_put [of "ps_telemetry st"]
    by (auto simp: well_formed_def tel.bound_def tel.put_cap)
  moreover have "case manager_of st' of None \<Rightarrow> True
      | Some qm \<Rightarrow> store_inv (daemon_db qm) \<and> list_all persistable (channel qm)"
    using assms(4,1) trap_record_persistable [OF assms(2)]
    by (auto simp: well_formed_def queue_record_def split: option.splits)
  ultimately show ?thesis by (simp add: well_formed_def)
qed

lemma handle_well_formed:
  "well_formed st \<Longrightarrow> unat (pe_now_ms X) + 86400000 < 2 ^ 63 \<Longrightarrow>
     well_formed (po_state (handle_proxy_request_with_tls X req ip tls st))"
  using effect_well_formed [OF _ _ handle_telemetry handle_manager] by blast

lemma step_invariant:
  assumes "daemon_step checks N A st e st'" "event_ok e" "well_formed st"
  shows "well_formed st' \<and> settings_of st' = settings_of st \<and> (manager_of st' = None \<longleftrightarrow> manager_of st = None)"
  using assms(1)
proof cases
  case (request X req ip tls)
  then show ?thesis
    using assms(2) handle_well_formed [OF assms(3), of X] handle_keeps_settings [of X req ip tls st]
      handle_manager [of X req ip tls st] by auto
next
  case (worker qm E)
  then show ?thesis
    using assms(3) worker_step_inv [of qm E] by (auto simp: well_formed_def)
next
  case (control qm E req now res qm')
  then show ?thesis
    using assms(2,3) dispatch_inv [of qm E checks N A req now res qm'] dispatch_channel [OF control(4)]
    by (auto simp: well_formed_def)
qed (use assms(3) in \<open>auto simp: well_formed_def\<close>)

interpretation wf: trace_invariant "daemon_step checks N A" event_ok well_formed
    "\<lambda>st _ st'. well_formed st' \<and> settings_of st' = settings_of st \<and> (manager_of st' = None \<longleftrightarrow> manager_of st = None)"
  for checks N A
proof unfold_locales
  fix st es st' e st''
  assume inv: "well_formed st' \<and> settings_of st' = settings_of st \<and> (manager_of st' = None \<longleftrightarrow> manager_of st = None)"
    and e: "event_ok e" "daemon_step checks N A st' e st''"
  from inv step_invariant [OF e(2,1)]
  show "well_formed st'' \<and> settings_of st'' = settings_of st \<and> (manager_of st'' = None \<longleftrightarrow> manager_of st = None)"
    by simp
qed simp

text \<open>
  The shared state stays well formed whatever happens in whatever order. After any interleaving
  of requests, turns of the worker, calls of the control socket, connections and maintenance, with
  statements of the store failing and handlers of the socket panicking, the log is within its capacity,
  the store is consistent, every queued record can be stored, and the routes, the settings, the limits
  and the trusted networks are those of the start.
\<close>

theorem daemon_well_formed:
  assumes "run_of (daemon_step checks N A) st es st'" "list_all event_ok es" "well_formed st"
  shows "well_formed st' \<and> settings_of st' = settings_of st \<and> (manager_of st' = None \<longleftrightarrow> manager_of st = None)"
  by (rule wf.inv_run [OF assms(1,3,2)])

text \<open>A daemon for evaluation, and a run in which a client is trapped and the worker stores the ban.\<close>

definition plain_daemon :: "(unit, cidr, (cidr \<times> u64) list) proxy_state" where
  "plain_daemon = plain_proxy [single_route [''a.example''] fallback_upstream [] [] True]"

definition trap_event :: "((string \<times> string) list, unit, string, cidr) daemon_event" where
  "trap_event = RequestServed plain_env (plain_request (Some ''q=UNION'')) (V4 198 51 100 7) None"

lemma plain_daemon_well_formed: "well_formed plain_daemon"
  by (simp add: well_formed_def plain_daemon_def plain_proxy_def manager_of_def guarded_def new_manager_def
      store_inv_empty new_ring_def)

lemma daemon_Cons:
  "daemon_step checks N A st e st' \<Longrightarrow> run_of (daemon_step checks N A) st' es st'' \<Longrightarrow>
     run_of (daemon_step checks N A) st (e # es) st''"
  by (rule run_Cons)

theorem daemon_well_formed_witness:
  "\<exists>st'. run_of (daemon_step True cidr_lib list_quarantine) plain_daemon [trap_event, ConnectionOpened, HygienePass] st' \<and>
     well_formed st' \<and> settings_of st' = settings_of plain_daemon"
proof -
  let ?st1 = "po_state (handle_proxy_request_with_tls plain_env (plain_request (Some ''q=UNION'')) (V4 198 51 100 7) None plain_daemon)"
  have r: "run_of (daemon_step True cidr_lib list_quarantine) plain_daemon [trap_event, ConnectionOpened, HygienePass]
      (on_governor run_hygiene_pass (on_governor register_connection ?st1))"
    unfolding trap_event_def
    by (intro daemon_Cons [OF daemon_step.request] daemon_Cons [OF daemon_step.opened] daemon_Cons [OF daemon_step.hygiene] run_Nil)
  moreover have "list_all event_ok [trap_event, ConnectionOpened, HygienePass]"
    by (simp add: trap_event_def plain_env_def)
  ultimately show ?thesis using daemon_well_formed [OF r _ plain_daemon_well_formed] by blast
qed

section \<open>No ban is lost while the store works\<close>

definition known :: "'q daemon \<Rightarrow> string set" where
  "known qm = active_set (daemon_db qm) \<union> qr_cidr ` set (channel qm)"

text \<open>Events that lift no ban, with an engine that works for the worker.\<close>

fun keeps_bans :: "('h, 's, 'c, 'n) daemon_event \<Rightarrow> bool" where
  "keeps_bans (RequestServed X req ip tls) = (unat (pe_now_ms X) + 86400000 < 2 ^ 63)"
| "keeps_bans (WorkerTurn E) = (engine_works E \<and> engine_laws E)"
| "keeps_bans (ControlCall E req now) =
     ((\<forall>i. engine_laws (E i)) \<and> (case req of Unban _ \<Rightarrow> False | UnbanAll \<Rightarrow> False | _ \<Rightarrow> True))"
| "keeps_bans _ = True"

lemma keeps_bans_ok: "keeps_bans e \<Longrightarrow> event_ok e"
  by (cases e) simp_all

lemma record_ban_mono:
  assumes "store_inv db" "qr_active rec"
  shows "active_set db \<subseteq> active_set (snd (record_ban E rec db))"
  by (cases rule: record_ban_cases [of E rec db]) (use assms active_banned in auto)

lemma ban_targets_mono:
  "store_inv (daemon_db d) \<Longrightarrow>
     active_set (daemon_db d) \<subseteq> active_set (daemon_db (snd (ban_targets E N A reason now e exact ts d)))"
proof (induction ts arbitrary: E d)
  case (Cons t ts)
  show ?case
  proof (cases "if trim t = [] then None else ban_target N A exact (trim t)")
    case None
    with Cons show ?thesis by (simp add: Let_def)
  next
    case (Some nt)
    let ?db = "snd (record_ban (E 0) (operator_record N reason now e nt) (daemon_db d))"
    have "active_set (daemon_db d) \<subseteq> active_set ?db" "store_inv ?db"
      using record_ban_mono [OF Cons.prems] store_inv_record_ban [OF Cons.prems] by simp_all
    with Some Cons.IH [of "d\<lparr>in_memory := aq_add_ban A (in_memory d) (fst nt) e, daemon_db := ?db\<rparr>" "\<lambda>i. E (Suc i)"]
    show ?thesis by (simp add: Let_def case_prod_unfold)
  qed
qed simp

lemma dispatch_active:
  assumes "store_inv (daemon_db d)" "dispatch checks E N A req now d = Some (res, d')"
    and "case req of Unban _ \<Rightarrow> False | UnbanAll \<Rightarrow> False | _ \<Rightarrow> True"
  shows "active_set (daemon_db d) \<subseteq> active_set (daemon_db d')"
proof (cases req)
  case (Ban ts reason dur exact)
  then have "exec_ban checks E N A ts reason dur exact now d = Some (res, d')"
    using assms(2) by (simp add: dispatch_def)
  then show ?thesis using exec_ban_shape ban_targets_mono [OF assms(1)] by metis
qed (use assms in \<open>auto simp: dispatch_def\<close>)

lemma dispatch_keeps_bans:
  assumes "store_inv (daemon_db d)" "dispatch checks E N A req now d = Some (res, d')"
    and "case req of Unban _ \<Rightarrow> False | UnbanAll \<Rightarrow> False | _ \<Rightarrow> True"
  shows "known d \<subseteq> known d'"
  using dispatch_active [OF assms] dispatch_channel [OF assms(2)] by (auto simp: known_def)

lemma worker_keeps_bans:
  assumes "store_inv (daemon_db qm)" "list_all persistable (channel qm)" "engine_works E"
  shows "known qm \<subseteq> known (worker_step E qm)"
proof (cases "channel qm")
  case (Cons rec rest)
  with store.ban_bans [of "daemon_db qm" "(E, rec)"] assms show ?thesis
    by (auto simp: known_def worker_step_def persistable_def)
qed (simp add: worker_step_def)

lemma step_keeps_bans:
  assumes "daemon_step checks N A st e st'" "keeps_bans e" "well_formed st" "manager_of st = Some qm"
  shows "\<exists>qm'. manager_of st' = Some qm' \<and> known qm \<subseteq> known qm' \<and> receiver_alive qm' = receiver_alive qm"
  using assms(1)
proof cases
  case (request X req ip tls)
  with handle_manager [of X req ip tls st] assms(4) show ?thesis
    by (auto simp: known_def queue_record_def)
next
  case (worker qm E)
  with assms worker_keeps_bans [of qm E] show ?thesis
    by (auto simp: well_formed_def worker_step_def split: list.split)
next
  case (control qm E req now res qm')
  with assms dispatch_keeps_bans [of qm checks E N A req now res qm'] dispatch_channel [OF control(4)] show ?thesis
    by (auto simp: well_formed_def)
qed (use assms(4) in auto)

interpretation bans: trace_invariant "daemon_step checks N A" keeps_bans well_formed
    "\<lambda>st _ st'. well_formed st' \<and>
       (\<forall>qm. manager_of st = Some qm \<longrightarrow> (\<exists>qm'. manager_of st' = Some qm' \<and> known qm \<subseteq> known qm'))"
  for checks N A
proof unfold_locales
  fix st es st' e st''
  assume inv: "well_formed st' \<and>
       (\<forall>qm. manager_of st = Some qm \<longrightarrow> (\<exists>qm'. manager_of st' = Some qm' \<and> known qm \<subseteq> known qm'))"
    and e: "keeps_bans e" "daemon_step checks N A st' e st''"
  have "\<exists>qm''. manager_of st'' = Some qm'' \<and> known qm' \<subseteq> known qm''" if "manager_of st' = Some qm'" for qm'
    using step_keeps_bans [OF e(2,1)] inv that by blast
  with inv step_invariant [OF e(2) keeps_bans_ok [OF e(1)]]
  show "well_formed st'' \<and>
       (\<forall>qm. manager_of st = Some qm \<longrightarrow> (\<exists>qm'. manager_of st'' = Some qm' \<and> known qm \<subseteq> known qm'))"
    by (meson subset_trans)
qed simp

text \<open>The trap of a request, with the headers the handler passes the defence.\<close>

definition trapped_as ::
    "('h, 's, 'c, 'n) proxy_env \<Rightarrow> 'h request \<Rightarrow> ip_addr \<Rightarrow> client_tls_profile option \<Rightarrow> string option" where
  "trapped_as X req ip tls =
     trap_of (pe_phylax X) (rq_path req) (rq_query req)
       (header_str (pe_http X) (sanitize_ingress_headers (pe_http X) (rq_headers req) ip) ''user-agent'') tls"

lemma trapped_request_queues:
  assumes "validate_headers (pe_http X) (ps_framing_guard st) (rq_headers req) (rq_method req) = Inr ()"
    and "try_serve_acme_challenge (pe_http X) (pe_fs X) (rq_path req) (ps_acme_webroot st) = None"
    and "enable_defense (ps_security st)" "\<not> is_trusted (pe_net X) (ps_defense st) ip"
    and "trapped_as X req ip tls = Some reason"
    and "manager_of st = Some qm" "receiver_alive qm" "px_derive_cidr (pe_phylax X) (show_ip ip) = Some cidr"
  shows "\<exists>qm'. manager_of (po_state (handle_proxy_request_with_tls X req ip tls st)) = Some qm' \<and>
    cidr \<in> known qm'"
proof -
  let ?ua = "header_str (pe_http X) (sanitize_ingress_headers (pe_http X) (rq_headers req) ip) ''user-agent''"
  have m: "ed_manager (ps_defense st) = Some qm" using assms(6) by (simp add: manager_of_def)
  note t = assms(5) [unfolded trapped_as_def]
  have v: "fst (defence_verdict X req ip tls st) \<noteq> None"
    using evaluate_trap(1) [OF assms(4) t] assms(3) by (fastforce simp: defence_verdict_def)
  have q: "ed_manager (snd (defence_verdict X req ip tls st)) =
      Some (qm\<lparr>channel := channel qm @ [trap_record cidr ip reason ?ua (pe_now_ms X)]\<rparr>)"
    using trap_queues [OF assms(4) t m assms(7,8)] assms(3) by (simp add: defence_verdict_def)
  have "manager_of (po_state (handle_proxy_request_with_tls X req ip tls st)) =
      ed_manager (snd (defence_verdict X req ip tls st))"
    unfolding handle_eq using assms(1,2) v by (cases "defence_verdict X req ip tls st") (auto split: option.split)
  with q show ?thesis by (simp add: known_def trap_record_def)
qed

text \<open>
  A trapped client's ban is not lost while the store works. When a request passes the guard, is not for a challenge,
  and trips a trap, then after any later interleaving of requests, turns of the worker and calls of the
  control socket that lift no ban, the client's network is stored as banned or waits in the channel; once
  the channel is empty, it is stored.
\<close>

theorem trap_leads_to_ban:
  assumes "validate_headers (pe_http X) (ps_framing_guard st) (rq_headers req) (rq_method req) = Inr ()"
    and "try_serve_acme_challenge (pe_http X) (pe_fs X) (rq_path req) (ps_acme_webroot st) = None"
    and "enable_defense (ps_security st)" "\<not> is_trusted (pe_net X) (ps_defense st) ip"
    and "trapped_as X req ip tls = Some reason"
    and "manager_of st = Some qm" "receiver_alive qm" "px_derive_cidr (pe_phylax X) (show_ip ip) = Some cidr"
    and "well_formed st" "unat (pe_now_ms X) + 86400000 < 2 ^ 63"
    and "run_of (daemon_step checks N A) (po_state (handle_proxy_request_with_tls X req ip tls st)) es st'" "list_all keeps_bans es"
  shows "\<exists>qm'. manager_of st' = Some qm' \<and> cidr \<in> active_set (daemon_db qm') \<union> qr_cidr ` set (channel qm') \<and>
    (channel qm' = [] \<longrightarrow> cidr \<in> active_set (daemon_db qm'))"
proof -
  obtain qm1 where q: "manager_of (po_state (handle_proxy_request_with_tls X req ip tls st)) = Some qm1" "cidr \<in> known qm1"
    using trapped_request_queues [OF assms(1-8)] by blast
  from bans.inv_run [OF assms(11) handle_well_formed [OF assms(9,10)] assms(12)] q
  obtain qm' where "manager_of st' = Some qm'" "cidr \<in> known qm'" by blast
  then show ?thesis by (auto simp: known_def)
qed

lemma plain_daemon_simps:
  "ps_framing_guard plain_daemon = default_guard" "ps_security plain_daemon = default_security"
  "ps_defense plain_daemon = guarded" "manager_of plain_daemon = Some (new_manager [] empty_db [])"
  "enable_defense default_security" "receiver_alive (new_manager [] empty_db [])"
  by (simp_all add: plain_daemon_def plain_proxy_def manager_of_def guarded_def default_security_def new_manager_def)

lemma plain_env_simps:
  "pe_phylax plain_env = word_guard" "pe_net plain_env = cidr_lib" "pe_now_ms plain_env = 5"
  by (simp_all add: plain_env_def)

lemma plain_request_accepted:
  "validate_headers assoc_http default_guard (rq_headers (plain_request q)) (rq_method (plain_request q)) = Inr ()"
  "try_serve_acme_challenge assoc_http fs (rq_path (plain_request q)) root = None"
proof -
  have "validate_headers assoc_http default_guard (rq_headers (plain_request None)) (rq_method (plain_request None)) = Inr ()"
    "\<not> starts_with (rq_path (plain_request None)) acme_challenge_prefix"
    by code_simp+
  then show "validate_headers assoc_http default_guard (rq_headers (plain_request q)) (rq_method (plain_request q)) = Inr ()"
    "try_serve_acme_challenge assoc_http fs (rq_path (plain_request q)) root = None"
    by (simp_all add: plain_request_def try_serve_acme_challenge_def)
qed

lemma plain_trap:
  "trapped_as plain_env (plain_request (Some ''q=UNION'')) (V4 198 51 100 7) None = Some ''sqli''"
  "px_derive_cidr word_guard (show_ip (V4 198 51 100 7)) = Some ''198.51.100.0/24''"
  by code_simp+

theorem trap_leads_to_ban_witness:
  "\<exists>st' qm'. run_of (daemon_step True cidr_lib list_quarantine) plain_daemon [trap_event, WorkerTurn plain_engine] st' \<and>
     manager_of st' = Some qm' \<and> ''198.51.100.0/24'' \<in> active_set (daemon_db qm') \<union> qr_cidr ` set (channel qm')"
proof -
  let ?req = "plain_request (Some ''q=UNION'')" and ?ip = "V4 198 51 100 7"
  let ?st1 = "po_state (handle_proxy_request_with_tls plain_env ?req ?ip None plain_daemon)"
  note facts = plain_daemon_simps plain_env_simps plain_request_accepted plain_trap guarded_trap(2)
  obtain qm1 where m1: "manager_of ?st1 = Some qm1"
    using trapped_request_queues [of plain_env plain_daemon ?req ?ip None "''sqli''" "new_manager [] empty_db []"
        "''198.51.100.0/24''"] facts
    by auto
  have r: "run_of (daemon_step True cidr_lib list_quarantine) ?st1 [WorkerTurn plain_engine :: (_, _, string, _) daemon_event]
      (set_manager (worker_step plain_engine qm1) ?st1)"
    by (intro daemon_Cons [OF daemon_step.worker [OF m1]] run_Nil)
  then have r': "run_of (daemon_step True cidr_lib list_quarantine) plain_daemon [trap_event, WorkerTurn plain_engine]
      (set_manager (worker_step plain_engine qm1) ?st1)"
    unfolding trap_event_def by (intro daemon_Cons [OF daemon_step.request])
  from trap_leads_to_ban [of plain_env plain_daemon ?req ?ip None "''sqli''" "new_manager [] empty_db []"
      "''198.51.100.0/24''", OF _ _ _ _ plain_trap(1) _ _ _ plain_daemon_well_formed _ r] facts
  obtain qm' where "manager_of (set_manager (worker_step plain_engine qm1) ?st1) = Some qm'"
    "''198.51.100.0/24'' \<in> active_set (daemon_db qm') \<union> qr_cidr ` set (channel qm')"
    by auto
  with r' show ?thesis by blast
qed

end
