(* ===== verification/Tasks.thy ===== *)
theory Tasks
  imports Daemon
begin

text \<open>
  The handler of a request as the task that the runtime schedules. Between two of its steps any other
  task may run: a step makes at most one call on the shared state (a counter, the log, the channel, the
  shield, the bot guard), or is the wait for a file or an upstream. \<open>task_step\<close> follows
  \<open>handle_proxy_request_with_tls\<close> and the functions it calls, \<open>evaluate_request_full\<close>,
  \<open>forward_http_request\<close> and \<open>handle_websocket_upgrade\<close>; run without interference it is the handler of
  \<open>Proxy\<close>, and it takes at most nine steps.
\<close>

section \<open>The steps of a request\<close>

text \<open>
  What a task holds on to: its surroundings, the request, and of its connection the address and the
  profile, with the number of the connection.
\<close>

record ('h, 's, 'c, 'n) call =
  ca_conn :: nat
  ca_env :: "('h, 's, 'c, 'n) proxy_env"
  ca_request :: "'h request"
  ca_ip :: ip_addr
  ca_tls :: "client_tls_profile option"

text \<open>
  What the wait for an upstream ends with: the result, the requests that were sent, and the calls
  that are still to be made, for the status the harvester is shown and for the log.
\<close>

record 'h reply =
  rp_result :: "string + 'h response"
  rp_sent :: "(socket_addr \<times> 'h request) list"
  rp_harvest :: "nat option"
  rp_log :: "(nat \<times> string option) option"

text \<open>The calls of a trap, in the order of its branch.\<close>

datatype trap_call =
    QuarantineClient
  | NotifyManager string
  | HarvestAgent string
  | HarvestCanary

datatype 'h phase =
    Arrived
  | Challenged
  | Judged
  | Trapping "trap_call list" "'h response"
  | Shielded
  | BotChecked
  | Convicted "'h response"
  | Counted "'h response"
  | Routed
  | Upgrading upstream_target
  | Forwarding upstream_target
  | Received "'h reply"
  | Recording "'h reply"
  | Finished "string + 'h response" "(socket_addr \<times> 'h request) list"

definition failed_upstream ::
    "('h, 's, 'c, 'n) proxy_env \<Rightarrow> security_config \<Rightarrow> string \<Rightarrow> (socket_addr \<times> 'h request) list \<Rightarrow>
     string option \<Rightarrow> 'h reply" where
  "failed_upstream X sec msg sent upstream =
     \<lparr>rp_result = Inr (plain_502 X sec msg), rp_sent = sent, rp_harvest = None, rp_log = Some (502, upstream)\<rparr>"

definition direct_reply ::
    "('h, 's, 'c, 'n) proxy_env \<Rightarrow> security_config \<Rightarrow> 'h request \<Rightarrow> socket_addr \<Rightarrow> 'h reply" where
  "direct_reply X sec req addr =
     (case pe_upstream X addr req of
        ConnectFailed e \<Rightarrow>
          failed_upstream X sec ''502 Bad Gateway: Upstream Unavailable'' [] (Some (show_addr addr))
      | HandshakeFailure e \<Rightarrow> \<lparr>rp_result = Inl e, rp_sent = [], rp_harvest = None, rp_log = None\<rparr>
      | SendFailed e \<Rightarrow>
          failed_upstream X sec ''502 Bad Gateway: Upstream Protocol Error'' [(addr, req)] (Some (show_addr addr))
      | Answered res \<Rightarrow>
          \<lparr>rp_result = Inr (harden (pe_http X) sec res), rp_sent = [(addr, req)], rp_harvest = Some (rs_status res),
           rp_log = Some (rs_status res, Some (show_addr addr))\<rparr>)"

definition hedged_reply ::
    "('h, 's, 'c, 'n) proxy_env \<Rightarrow> security_config \<Rightarrow> framing_guard \<Rightarrow> 'h request \<Rightarrow> racer \<Rightarrow> 'h reply" where
  "hedged_reply X sec guard req racer =
     (let max_bytes = unat (max_body_bytes guard) in
      if (case pe_body X of Some b \<Rightarrow> length b > max_bytes | None \<Rightarrow> True)
      then \<lparr>rp_result = Inr (too_large_response X sec), rp_sent = [], rp_harvest = None, rp_log = None\<rparr>
      else
        (let (outcome, tried) = pe_race X racer (rq_method req) (hedged_attempt X req);
             sent = attempts_sent X req tried
         in case outcome of
              None \<Rightarrow> failed_upstream X sec ''502 Bad Gateway: Upstream Unavailable'' sent None
            | Some (res, winner_endpoint) \<Rightarrow>
                \<lparr>rp_result = Inr (harden (pe_http X) sec res), rp_sent = sent, rp_harvest = Some (rs_status res),
                 rp_log = Some (rs_status res, Some winner_endpoint)\<rparr>))"

definition forward_reply ::
    "('h, 's, 'c, 'n) proxy_env \<Rightarrow> security_config \<Rightarrow> framing_guard \<Rightarrow> 'h request \<Rightarrow> ip_addr \<Rightarrow>
     upstream_target \<Rightarrow> 'h reply" where
  "forward_reply X sec guard req0 client_ip target =
     (let req = upstream_request (pe_http X) client_ip target req0;
          direct = direct_reply X sec req (ut_addr target)
      in if pe_hedging X \<and> ut_hedged_racing target \<and> length (ut_addrs target) > 1
         then (case racer_of target of Some racer \<Rightarrow> hedged_reply X sec guard req racer | None \<Rightarrow> direct)
         else direct)"

definition upgrade_reply ::
    "('h, 's, 'c, 'n) proxy_env \<Rightarrow> security_config \<Rightarrow> 'h request \<Rightarrow> ip_addr \<Rightarrow> upstream_target \<Rightarrow> 'h reply" where
  "upgrade_reply X sec req client_ip target =
     (let sent = upstream_request (pe_http X) client_ip target req; addr = ut_addr target in
      case pe_upstream X addr sent of
        ConnectFailed e \<Rightarrow>
          \<lparr>rp_result = Inr (plain_502 X sec ''502 Bad Gateway: Upstream Unavailable''), rp_sent = [],
           rp_harvest = None, rp_log = None\<rparr>
      | HandshakeFailure e \<Rightarrow> \<lparr>rp_result = Inl e, rp_sent = [], rp_harvest = None, rp_log = None\<rparr>
      | SendFailed e \<Rightarrow> \<lparr>rp_result = Inl e, rp_sent = [(addr, sent)], rp_harvest = None, rp_log = None\<rparr>
      | Answered res \<Rightarrow>
          \<lparr>rp_result = Inr (harden (pe_http X) sec res), rp_sent = [(addr, sent)], rp_harvest = None,
           rp_log = Some (rs_status res, Some (show_addr addr))\<rparr>)"

text \<open>One call of a trap on the defence.\<close>

fun trap_effect ::
    "('s, 'c) phylax_lib \<Rightarrow> u64 \<Rightarrow> ip_addr \<Rightarrow> string option \<Rightarrow> trap_call \<Rightarrow> ('s, 'n, 'q) edge_defense \<Rightarrow>
     ('s, 'n, 'q) edge_defense" where
  "trap_effect P now_ms ip user_agent QuarantineClient ed =
     on_shield (\<lambda>s. px_record_and_check P s (show_ip ip) now_ms) ed"
| "trap_effect P now_ms ip user_agent (NotifyManager reason) ed = notify_quarantine P ip reason user_agent now_ms ed"
| "trap_effect P now_ms ip user_agent (HarvestAgent reason) ed = harvest_if_some P user_agent reason now_ms ed"
| "trap_effect P now_ms ip user_agent HarvestCanary ed =
     on_shield (\<lambda>s. px_harvest P s user_agent ''Tripped invisible canary trap honeylink'' now_ms) ed"

text \<open>The checks of the defence that read no shared state: the trusted networks, the payload, the profile, the canaries.\<close>

definition judge ::
    "('h, 's, 'c, 'n) proxy_env \<Rightarrow> ip_addr \<Rightarrow> string \<Rightarrow> string option \<Rightarrow> string option \<Rightarrow>
     client_tls_profile option \<Rightarrow> ('s, 'n, 'q) edge_defense \<Rightarrow> 'h phase" where
  "judge X client_ip path query user_agent tls_profile ed =
     (let L = pe_http X; P = pe_phylax X in
      if is_trusted (pe_net X) ed client_ip then Routed
      else
        (case px_inspect P path (case query of Some q \<Rightarrow> q | None \<Rightarrow> []) of
           Inl threat \<Rightarrow>
             Trapping [QuarantineClient, NotifyManager (category_name threat), HarvestAgent (description threat)]
               (forbidden_payload_response L (description threat))
         | Inr _ \<Rightarrow>
             (case spoof_reason tls_profile user_agent of
                Some reason \<Rightarrow>
                  Trapping [QuarantineClient, NotifyManager ''tls_clienthello_spoof'', HarvestAgent reason]
                    (stealth_404_response L)
              | None \<Rightarrow>
                  if is_canary (px_normalize_path P path)
                  then Trapping [HarvestCanary, QuarantineClient, NotifyManager ''canary_trap_honeylink'']
                    (stealth_404_response L)
                  else Shielded)))"

text \<open>
  One step of a task. The guard, the settings, the routes and the trusted networks never change, so
  that reading them is part of any step.
\<close>

fun task_step ::
    "('h, 's, 'c, 'n) call \<Rightarrow> 'h phase \<Rightarrow> ('s, 'n, 'q) proxy_state \<Rightarrow> 'h phase \<times> ('s, 'n, 'q) proxy_state" where
  "task_step c Arrived st =
     (case validate_headers (pe_http (ca_env c)) (ps_framing_guard st) (rq_headers (ca_request c))
             (rq_method (ca_request c)) of
        Inl violation \<Rightarrow> (Finished (Inr (public_response (pe_http (ca_env c)) violation)) [], count_threat st)
      | Inr _ \<Rightarrow> (Challenged, st))"
| "task_step c Challenged st =
     (case try_serve_acme_challenge (pe_http (ca_env c)) (pe_fs (ca_env c)) (rq_path (ca_request c))
             (ps_acme_webroot st) of
        Some res \<Rightarrow>
          (Finished (Inr (inject_response_security_headers (pe_http (ca_env c)) res (ps_security st))) [], st)
      | None \<Rightarrow> (if enable_defense (ps_security st) then Judged else Routed, st))"
| "task_step c Judged st =
     (let f = fields_of (pe_http (ca_env c)) (ca_ip c) (ca_request c) in
      (judge (ca_env c) (ca_ip c) (rq_path (ca_request c)) (rq_query (ca_request c)) (lf_user_agent f) (ca_tls c)
         (ps_defense st), st))"
| "task_step c (Trapping [] res) st = (Convicted res, st)"
| "task_step c (Trapping (a # as) res) st =
     (let f = fields_of (pe_http (ca_env c)) (ca_ip c) (ca_request c) in
      (Trapping as res,
       st\<lparr>ps_defense := trap_effect (pe_phylax (ca_env c)) (pe_now_ms (ca_env c)) (ca_ip c) (lf_user_agent f) a
            (ps_defense st)\<rparr>))"
| "task_step c Shielded st =
     (let f = fields_of (pe_http (ca_env c)) (ca_ip c) (ca_request c); P = pe_phylax (ca_env c);
          (denied, s) = px_shield P (ed_shield (ps_defense st))
            \<lparr>sr_client_ip = show_ip (ca_ip c), sr_target_uri = px_normalize_path P (rq_path (ca_request c)),
             sr_http_method = lf_method f, sr_user_agent = lf_user_agent f, sr_now_ms = pe_now_ms (ca_env c)\<rparr>
      in (case denied of
            Some public_message \<Rightarrow> Trapping [HarvestAgent public_message] (stealth_404_response (pe_http (ca_env c)))
          | None \<Rightarrow> BotChecked,
          st\<lparr>ps_defense := (ps_defense st)\<lparr>ed_shield := s\<rparr>\<rparr>))"
| "task_step c BotChecked st =
     (let f = fields_of (pe_http (ca_env c)) (ca_ip c) (ca_request c); P = pe_phylax (ca_env c) in
      (case bot_verdict_for P (ed_shield (ps_defense st)) (ca_ip c) (lf_user_agent f)
              (px_normalize_path P (rq_path (ca_request c))) of
         BotBlocked category matched_token \<Rightarrow>
           Convicted (if category = px_automation_tool P then stealth_404_response (pe_http (ca_env c))
                      else forbidden_bot_response (pe_http (ca_env c)) (px_category_name P category) matched_token)
       | BotAllowed _ \<Rightarrow> Routed, st))"
| "task_step c (Convicted res) st = (Counted res, count_threat st)"
| "task_step c (Counted res) st =
     (Finished (Inr (inject_response_security_headers (pe_http (ca_env c)) res (ps_security st))) [],
      log_request (ca_env c) (fields_of (pe_http (ca_env c)) (ca_ip c) (ca_request c)) (rs_status res) None
        (Some (threat_label (rs_status res))) st)"
| "task_step c Routed st =
     (let L = pe_http (ca_env c); req = sanitized L (ca_ip c) (ca_request c);
          f = fields_of L (ca_ip c) (ca_request c);
          host_header = (case request_host L req of Some h \<Rightarrow> h | None \<Rightarrow> [])
      in case resolve (ps_router st) host_header of
           None \<Rightarrow>
             (Finished (Inr (plain_502 (ca_env c) (ps_security st) ''502 Bad Gateway: Unrecognized Sovereign Host'')) [],
              log_request (ca_env c) f 502 None None st)
         | Some target \<Rightarrow>
             (if is_websocket L (rq_headers req) \<and> ut_websocket_allowed target then Upgrading target
              else Forwarding target, st))"
| "task_step c (Upgrading target) st =
     (Received (upgrade_reply (ca_env c) (ps_security st)
        (sanitized (pe_http (ca_env c)) (ca_ip c) (ca_request c)) (ca_ip c) target), st)"
| "task_step c (Forwarding target) st =
     (Received (forward_reply (ca_env c) (ps_security st) (ps_framing_guard st)
        (sanitized (pe_http (ca_env c)) (ca_ip c) (ca_request c)) (ca_ip c) target), st)"
| "task_step c (Received rp) st =
     (Recording rp,
      case rp_harvest rp of
        None \<Rightarrow> st
      | Some status \<Rightarrow> check_harvester_promotion (ca_env c) status (full_path_of (ca_request c)) (ca_ip c) st)"
| "task_step c (Recording rp) st =
     (Finished (rp_result rp) (rp_sent rp),
      case rp_log rp of
        None \<Rightarrow> st
      | Some (status, upstream) \<Rightarrow>
          log_request (ca_env c) (fields_of (pe_http (ca_env c)) (ca_ip c) (ca_request c)) status upstream None st)"
| "task_step c (Finished res sent) st = (Finished res sent, st)"

text \<open>An upper bound of the steps that are left.\<close>

fun steps_left :: "'h phase \<Rightarrow> nat" where
  "steps_left Arrived = 9"
| "steps_left Challenged = 8"
| "steps_left Judged = 7"
| "steps_left (Trapping as res) = 3 + length as"
| "steps_left Shielded = 6"
| "steps_left BotChecked = 5"
| "steps_left (Convicted res) = 2"
| "steps_left (Counted res) = 1"
| "steps_left Routed = 4"
| "steps_left (Upgrading t) = 3"
| "steps_left (Forwarding t) = 3"
| "steps_left (Received rp) = 2"
| "steps_left (Recording rp) = 1"
| "steps_left (Finished res sent) = 0"

lemma judge_short: "steps_left (judge X ip p q ua tls ed) < 7"
  by (simp add: judge_def Let_def split: sum.split option.split)

lemma steps_left_0 [simp]: "steps_left ph = 0 \<longleftrightarrow> (\<exists>res sent. ph = Finished res sent)"
  by (cases ph) simp_all

lemma task_step_decreases:
  "steps_left ph \<noteq> 0 \<Longrightarrow> steps_left (fst (task_step c ph st)) < steps_left ph"
  by (induction c ph st rule: task_step.induct)
    (auto simp: Let_def case_prod_unfold judge_short split: sum.split option.split bot_verdict.split)

text \<open>A task that runs alone.\<close>

function run_task ::
    "('h, 's, 'c, 'n) call \<Rightarrow> 'h phase \<Rightarrow> ('s, 'n, 'q) proxy_state \<Rightarrow> 'h phase \<times> ('s, 'n, 'q) proxy_state" where
  "run_task c ph st =
     (if steps_left ph = 0 then (ph, st)
      else let (ph', st') = task_step c ph st in run_task c ph' st')"
  by auto
termination
proof (relation "measure (\<lambda>(c, ph, st). steps_left ph)")
  fix c :: "('h, 's, 'c, 'n) call" and ph and st :: "('s, 'n, 'q) proxy_state" and x ph' st'
  assume "steps_left ph \<noteq> 0" "x = task_step c ph st" "(ph', st') = x"
  then show "((c, ph', st'), (c, ph, st)) \<in> measure (\<lambda>(c, ph, st). steps_left ph)"
    using task_step_decreases [of ph c st] by (metis case_prod_conv fst_conv in_measure)
qed simp

declare run_task.simps [simp del]

section \<open>A task without interference\<close>

definition outcome_of :: "('h, 's, 'n, 'q) proxy_outcome \<Rightarrow> 'h phase \<times> ('s, 'n, 'q) proxy_state" where
  "outcome_of out = (Finished (po_result out) (po_sent out), po_state out)"

lemma run_finished [simp]: "run_task c (Finished res sent) st = (Finished res sent, st)"
  by (subst run_task.simps) simp

lemma run_step: "steps_left ph \<noteq> 0 \<Longrightarrow> run_task c ph st = case_prod (run_task c) (task_step c ph st)"
  by (subst run_task.simps) simp

lemma outcome_answer [simp]: "outcome_of (answer res sent st) = (Finished (Inr res) sent, st)"
  by (simp add: outcome_of_def)

lemma run_Received:
  "run_task c (Received rp) st = (Finished (rp_result rp) (rp_sent rp),
     snd (task_step c (Recording rp) (snd (task_step c (Received rp) st))))"
  by (simp add: run_step)

lemma run_direct:
  "run_task c (Received (direct_reply (ca_env c) (ps_security st) req addr)) st =
     outcome_of (forward_http_request_direct (ca_env c) req addr
       (fields_of (pe_http (ca_env c)) (ca_ip c) (ca_request c)) st)"
  by (cases "pe_upstream (ca_env c) addr req")
    (simp_all add: run_Received direct_reply_def failed_upstream_def forward_http_request_direct_def
      build_502_response_def outcome_of_def)

lemma run_hedged:
  assumes "rq_method req = rq_method (ca_request c)"
  shows "run_task c (Received (hedged_reply (ca_env c) (ps_security st) (ps_framing_guard st) req racer)) st =
     outcome_of (forward_http_request_hedged (ca_env c) req racer
       (fields_of (pe_http (ca_env c)) (ca_ip c) (ca_request c)) st)"
  using assms
  by (auto simp: run_Received hedged_reply_def failed_upstream_def forward_http_request_hedged_def
      build_502_response_def outcome_of_def Let_def case_prod_unfold split: option.split)

lemma run_Forwarding:
  "run_task c (Forwarding t) st =
     outcome_of (forward_http_request (ca_env c) (sanitized (pe_http (ca_env c)) (ca_ip c) (ca_request c)) t
       (fields_of (pe_http (ca_env c)) (ca_ip c) (ca_request c)) st)"
  by (subst run_step) (auto simp: forward_reply_def forward_http_request_def Let_def run_direct run_hedged split: option.split)

lemma run_Upgrading:
  "run_task c (Upgrading t) st =
     outcome_of (handle_websocket_upgrade (ca_env c) (sanitized (pe_http (ca_env c)) (ca_ip c) (ca_request c)) t
       (fields_of (pe_http (ca_env c)) (ca_ip c) (ca_request c)) st)"
  by (subst run_step) (auto simp: run_Received upgrade_reply_def handle_websocket_upgrade_def outcome_of_def Let_def
      split: upstream_result.split)

lemma run_Routed:
  "run_task c Routed st =
     outcome_of (route_request (ca_env c) (sanitized (pe_http (ca_env c)) (ca_ip c) (ca_request c))
       (fields_of (pe_http (ca_env c)) (ca_ip c) (ca_request c)) st)"
  by (subst run_step) (auto simp: route_request_def Let_def run_Forwarding run_Upgrading split: option.split)

lemma run_Convicted:
  "run_task c (Convicted res) st =
     (Finished (Inr (inject_response_security_headers (pe_http (ca_env c)) res (ps_security st))) [],
      log_request (ca_env c) (fields_of (pe_http (ca_env c)) (ca_ip c) (ca_request c)) (rs_status res) None
        (Some (threat_label (rs_status res))) (count_threat st))"
  by (simp add: run_step)

lemma run_Trapping:
  "run_task c (Trapping as res) st =
     run_task c (Convicted res) (st\<lparr>ps_defense := fold (trap_effect (pe_phylax (ca_env c)) (pe_now_ms (ca_env c)) (ca_ip c)
       (lf_user_agent (fields_of (pe_http (ca_env c)) (ca_ip c) (ca_request c)))) as (ps_defense st)\<rparr>)"
  by (induction as arbitrary: st) (simp_all add: run_step Let_def)

text \<open>The defence: the pure checks, then the calls.\<close>

lemma run_Judged:
  assumes "enable_defense (ps_security st)"
    and "defence_verdict (ca_env c) (ca_request c) (ca_ip c) (ca_tls c) st = (verdict, ed)"
  shows "run_task c Judged st =
    (case verdict of
       Some res \<Rightarrow> run_task c (Convicted res) (st\<lparr>ps_defense := ed\<rparr>)
     | None \<Rightarrow> run_task c Routed (st\<lparr>ps_defense := ed\<rparr>))"
  using assms
  by (subst run_step)
    (auto simp: defence_verdict_def evaluate_request_full_def judge_def Let_def run_Trapping fields_of_def
      run_step [of Shielded] run_step [of BotChecked] case_prod_unfold
      split: sum.splits option.splits if_splits bot_verdict.splits)

lemma steps_run:
  "steps_left ph \<le> n \<Longrightarrow> ((\<lambda>(ph, st). task_step c ph st) ^^ n) (ph, st) = run_task c ph st"
proof (induction n arbitrary: ph st)
  case (Suc n)
  show ?case
  proof (cases "steps_left ph = 0")
    case True
    have "((\<lambda>(ph, st). task_step c ph st) ^^ k) (Finished res sent, st) = (Finished res sent, st)" for k res sent
      by (induction k) simp_all
    with True show ?thesis by auto
  next
    case False
    obtain ph' st' where s: "task_step c ph st = (ph', st')" by fastforce
    with False Suc.prems task_step_decreases [of ph c st] have "steps_left ph' \<le> n" by simp
    with Suc.IH [of ph' st'] False s show ?thesis by (simp add: funpow_swap1 [symmetric] run_step [OF False] funpow_Suc_right del: funpow.simps)
  qed
qed auto

lemma run_task_finishes: "\<exists>res sent. fst (run_task c ph st) = Finished res sent"
proof (induction c ph st rule: run_task.induct)
  case (1 c ph st)
  then show ?case
    by (cases "steps_left ph = 0") (auto simp: run_step case_prod_unfold)
qed

lemma run_Arrived:
  "run_task c Arrived st =
     outcome_of (handle_proxy_request_with_tls (ca_env c) (ca_request c) (ca_ip c) (ca_tls c) st)"
proof -
  let ?v = "defence_verdict (ca_env c) (ca_request c) (ca_ip c) (ca_tls c) st"
  have j: "enable_defense (ps_security st) \<Longrightarrow> run_task c Judged st =
      (case ?v of
         (Some d, ed) \<Rightarrow> run_task c (Convicted d) (st\<lparr>ps_defense := ed\<rparr>)
       | (None, ed) \<Rightarrow> run_task c Routed (st\<lparr>ps_defense := ed\<rparr>))"
    using run_Judged [of st c] by (auto split: prod.split option.split)
  have n: "\<not> enable_defense (ps_security st) \<Longrightarrow> ?v = (None, ps_defense st)"
    by (simp add: defence_verdict_def)
  show ?thesis
    unfolding handle_eq
    by (auto simp: run_step [of Arrived] run_step [of Challenged] j n run_Convicted run_Routed
        split: sum.split option.split prod.split)
qed


end
