(* ===== verification/Server.thy ===== *)
theory Server
  imports Tasks
begin

text \<open>
  The listener of \<open>run_https_proxy_listener\<close> (\<open>src/proxy/mod.rs\<close>) with everything that runs beside it: the
  accept loop, the tasks of the connections from the peek at the ClientHello to the end of the
  connection, the tasks of the requests step by step, and the background work of \<open>Daemon\<close>. The order
  of the steps is arbitrary; so are the bytes a peek sees, the outcome of a handshake, the moment a
  connection ends and a request is given up, and every answer of a library or an upstream. No task
  has to get its next turn: a run in which a task that waits for an upstream has none from some moment on
  is one in which that upstream never answers, which nothing in the code bounds.
\<close>

datatype stage =
    Peeking
  | Handshaking "client_tls_profile option"
  | Serving "client_tls_profile option"

record connection =
  cn_ip :: ip_addr
  cn_stage :: stage

text \<open>Connections are numbered as they are accepted; a request has a number of its own.\<close>

record ('h, 's, 'c, 'n, 'q) server =
  sr_state :: "('s, 'n, 'q) proxy_state"
  sr_conns :: "nat \<rightharpoonup> connection"
  sr_accepted :: nat
  sr_tasks :: "nat \<rightharpoonup> ('h, 's, 'c, 'n) call \<times> 'h phase"

text \<open>The peek at the first bytes of a connection: what has arrived, cut to the buffer, or an error.\<close>

definition peek_profile :: "u8 list option \<Rightarrow> client_tls_profile option option" where
  "peek_profile arrived =
     (case arrived of
        None \<Rightarrow> Some None
      | Some bytes \<Rightarrow>
          (let peek_buf = take 1024 bytes; n = length peek_buf
           in if n > 0 then parse_client_hello peek_buf else Some None))"

definition accept_connection :: "ip_addr \<Rightarrow> ('h, 's, 'c, 'n, 'q) server \<Rightarrow> ('h, 's, 'c, 'n, 'q) server" where
  "accept_connection ip s =
     s\<lparr>sr_state := on_governor register_connection (sr_state s),
       sr_conns := (sr_conns s)(sr_accepted s \<mapsto> \<lparr>cn_ip = ip, cn_stage = Peeking\<rparr>),
       sr_accepted := sr_accepted s + 1\<rparr>"

definition set_stage :: "nat \<Rightarrow> connection \<Rightarrow> stage \<Rightarrow> ('h, 's, 'c, 'n, 'q) server \<Rightarrow> ('h, 's, 'c, 'n, 'q) server" where
  "set_stage cid cn stage s = s\<lparr>sr_conns := (sr_conns s)(cid \<mapsto> cn\<lparr>cn_stage := stage\<rparr>)\<rparr>"

text \<open>The task of a connection ends, and with it its guard.\<close>

definition end_connection :: "nat \<Rightarrow> ('h, 's, 'c, 'n, 'q) server \<Rightarrow> ('h, 's, 'c, 'n, 'q) server" where
  "end_connection cid s =
     s\<lparr>sr_state := on_governor deregister_connection (sr_state s), sr_conns := (sr_conns s)(cid := None)\<rparr>"

definition start_request ::
    "nat \<Rightarrow> ('h, 's, 'c, 'n) call \<Rightarrow> ('h, 's, 'c, 'n, 'q) server \<Rightarrow> ('h, 's, 'c, 'n, 'q) server" where
  "start_request rid c s = s\<lparr>sr_tasks := (sr_tasks s)(rid \<mapsto> (c, Arrived))\<rparr>"

definition advance_task ::
    "nat \<Rightarrow> ('h, 's, 'c, 'n) call \<Rightarrow> 'h phase \<Rightarrow> ('h, 's, 'c, 'n, 'q) server \<Rightarrow> ('h, 's, 'c, 'n, 'q) server" where
  "advance_task rid c ph s =
     (let (ph', st') = task_step c ph (sr_state s)
      in s\<lparr>sr_state := st', sr_tasks := (sr_tasks s)(rid \<mapsto> (c, ph'))\<rparr>)"

text \<open>A request that is given up is dropped where it waits.\<close>

fun waiting :: "'h phase \<Rightarrow> bool" where
  "waiting Arrived = True"
| "waiting Challenged = True"
| "waiting (Upgrading t) = True"
| "waiting (Forwarding t) = True"
| "waiting _ = False"

text \<open>What runs beside the listener.\<close>

fun background :: "('h, 's, 'c, 'n) daemon_event \<Rightarrow> bool" where
  "background (WorkerTurn E) = True"
| "background (ControlCall E req now) = True"
| "background HygienePass = True"
| "background _ = False"

datatype ('h, 's, 'c, 'n) server_event =
    AcceptError
  | Accept ip_addr
  | Peek nat "u8 list option"
  | HandshakeEnds nat bool
  | RequestArrives nat nat "('h, 's, 'c, 'n) proxy_env" "'h request"
  | TaskRuns nat
  | RequestDropped nat
  | ConnectionEnds nat
  | Background "('h, 's, 'c, 'n) daemon_event"

inductive server_step ::
    "bool \<Rightarrow> 'n ipnet_lib \<Rightarrow> ('q, 'n) phylax_quarantine \<Rightarrow> ('h, 's, 'c, 'n, 'q) server \<Rightarrow>
     ('h, 's, 'c, 'n) server_event \<Rightarrow> ('h, 's, 'c, 'n, 'q) server \<Rightarrow> bool" for checks N A where
  accept_error: "server_step checks N A s AcceptError s"
| accept: "server_step checks N A s (Accept ip) (accept_connection ip s)"
| peek: "sr_conns s cid = Some cn \<Longrightarrow> cn_stage cn = Peeking \<Longrightarrow> peek_profile arrived = Some p \<Longrightarrow>
     server_step checks N A s (Peek cid arrived) (set_stage cid cn (Handshaking p) s)"
| peek_panics: "sr_conns s cid = Some cn \<Longrightarrow> cn_stage cn = Peeking \<Longrightarrow> peek_profile arrived = None \<Longrightarrow>
     server_step checks N A s (Peek cid arrived) (end_connection cid s)"
| handshake: "sr_conns s cid = Some cn \<Longrightarrow> cn_stage cn = Handshaking p \<Longrightarrow>
     server_step checks N A s (HandshakeEnds cid True) (set_stage cid cn (Serving p) s)"
| handshake_error: "sr_conns s cid = Some cn \<Longrightarrow> cn_stage cn = Handshaking p \<Longrightarrow>
     server_step checks N A s (HandshakeEnds cid False) (end_connection cid s)"
| request: "sr_conns s cid = Some cn \<Longrightarrow> cn_stage cn = Serving p \<Longrightarrow> sr_tasks s rid = None \<Longrightarrow>
     server_step checks N A s (RequestArrives cid rid X req)
       (start_request rid \<lparr>ca_conn = cid, ca_env = X, ca_request = req, ca_ip = cn_ip cn, ca_tls = p\<rparr> s)"
| task: "sr_tasks s rid = Some (c, ph) \<Longrightarrow> server_step checks N A s (TaskRuns rid) (advance_task rid c ph s)"
| drop_task: "sr_tasks s rid = Some (c, ph) \<Longrightarrow> waiting ph \<Longrightarrow>
     server_step checks N A s (RequestDropped rid) (s\<lparr>sr_tasks := (sr_tasks s)(rid := None)\<rparr>)"
| served: "sr_conns s cid = Some cn \<Longrightarrow> cn_stage cn = Serving p \<Longrightarrow>
     server_step checks N A s (ConnectionEnds cid) (end_connection cid s)"
| beside: "background e \<Longrightarrow> daemon_step checks N A (sr_state s) e st \<Longrightarrow>
     server_step checks N A s (Background e) (s\<lparr>sr_state := st\<rparr>)"

inductive_cases server_stepE: "server_step checks N A s e s'"

text \<open>A listener that has just been bound.\<close>

definition listening :: "('s, 'n, 'q) proxy_state \<Rightarrow> ('h, 's, 'c, 'n, 'q) server" where
  "listening st = \<lparr>sr_state = st, sr_conns = Map.empty, sr_accepted = 0, sr_tasks = Map.empty\<rparr>"

lemma peek_never_panics: "peek_profile arrived \<noteq> None"
  using parse_total by (auto simp: peek_profile_def Let_def split: option.split)

section \<open>What a step does to the shared state\<close>

lemma trap_effect_trusted [simp]:
  "ed_trusted_subnets (trap_effect P now ip ua a ed) = ed_trusted_subnets ed"
  by (cases a) simp_all

lemma trap_effect_manager:
  "ed_manager (trap_effect P now ip ua a ed) = ed_manager ed \<or>
   (\<exists>qm cidr reason. ed_manager ed = Some qm \<and>
      ed_manager (trap_effect P now ip ua a ed) = Some (queue_record (trap_record cidr ip reason ua now) qm))"
  by (cases a) (auto simp: notify_manager split: option.split)

lemma task_keeps_settings: "settings_of (snd (task_step c ph st)) = settings_of st"
proof (cases "(c, ph, st)" rule: task_step.cases)
  case (13 c rp st)
  then show ?thesis
    by (simp add: settings_of_def split: option.split)
qed (auto simp: settings_of_def Let_def case_prod_unfold split: sum.split option.split bot_verdict.split)

lemma task_manager:
  "manager_of (snd (task_step c ph st)) = manager_of st \<or>
   (\<exists>qm cidr reason ua. manager_of st = Some qm \<and>
      manager_of (snd (task_step c ph st)) =
        Some (queue_record (trap_record cidr (ca_ip c) reason ua (pe_now_ms (ca_env c))) qm))"
proof (cases "(c, ph, st)" rule: task_step.cases)
  case (5 c a as res st)
  then show ?thesis
    using trap_effect_manager [of "pe_phylax (ca_env c)" "pe_now_ms (ca_env c)" "ca_ip c"
        "lf_user_agent (fields_of (pe_http (ca_env c)) (ca_ip c) (ca_request c))" a "ps_defense st"]
    by (auto simp: manager_of_def Let_def)
qed (auto simp: manager_of_def Let_def case_prod_unfold split: sum.split option.split bot_verdict.split)

lemma task_telemetry:
  "ps_telemetry (snd (task_step c ph st)) \<in> insert (ps_telemetry st) (range (ring_record (ps_telemetry st)))"
  by (cases "(c, ph, st)" rule: task_step.cases)
    (auto simp: Let_def case_prod_unfold log_request_def split: sum.split option.split bot_verdict.split)

lemma task_governor:
  "ps_governor (snd (task_step c ph st)) = ps_governor st \<or>
   ps_governor (snd (task_step c ph st)) = record_threat (ps_governor st)"
  by (cases "(c, ph, st)" rule: task_step.cases)
    (auto simp: Let_def case_prod_unfold split: sum.split option.split bot_verdict.split)

end
