(* ===== verification/Server_Props.thy ===== *)
theory Server_Props
  imports Server
begin

text \<open>
  What holds of the listener in every interleaving: the shared state stays well formed; the counters
  are those of the connection life cycle of \<open>Governor\<close>; a response differs from the response of the
  handler only in the verdict of the shield; a client that trips a trap is banned before it gets its
  answer; and the profile a request is judged by comes from the bytes of its own connection.
\<close>

lemma server_op_simps [simp]:
  "sr_state (set_stage cid cn g s) = sr_state s"
  "sr_state (start_request rid c s) = sr_state s"
  "sr_state (accept_connection ip s) = on_governor register_connection (sr_state s)"
  "sr_state (end_connection cid s) = on_governor deregister_connection (sr_state s)"
  "sr_state (advance_task rid c ph s) = snd (task_step c ph (sr_state s))"
  "sr_tasks (set_stage cid cn g s) = sr_tasks s"
  "sr_tasks (start_request rid c s) = (sr_tasks s)(rid \<mapsto> (c, Arrived))"
  "sr_tasks (accept_connection ip s) = sr_tasks s"
  "sr_tasks (end_connection cid s) = sr_tasks s"
  "sr_tasks (advance_task rid c ph s) = (sr_tasks s)(rid \<mapsto> (c, fst (task_step c ph (sr_state s))))"
  "sr_conns (set_stage cid cn g s) = (sr_conns s)(cid \<mapsto> cn\<lparr>cn_stage := g\<rparr>)"
  "sr_conns (start_request rid c s) = sr_conns s"
  "sr_conns (accept_connection ip s) = (sr_conns s)(sr_accepted s \<mapsto> \<lparr>cn_ip = ip, cn_stage = Peeking\<rparr>)"
  "sr_conns (end_connection cid s) = (sr_conns s)(cid := None)"
  "sr_conns (advance_task rid c ph s) = sr_conns s"
  "sr_accepted (set_stage cid cn g s) = sr_accepted s"
  "sr_accepted (start_request rid c s) = sr_accepted s"
  "sr_accepted (accept_connection ip s) = sr_accepted s + 1"
  "sr_accepted (end_connection cid s) = sr_accepted s"
  "sr_accepted (advance_task rid c ph s) = sr_accepted s"
  by (simp_all add: set_stage_def start_request_def accept_connection_def end_connection_def advance_task_def
      case_prod_unfold Let_def)

lemma listening_simps [simp]:
  "sr_state (listening st) = st" "sr_conns (listening st) = Map.empty"
  "sr_accepted (listening st) = 0" "sr_tasks (listening st) = Map.empty"
  by (simp_all add: listening_def)

section \<open>The shared state\<close>

definition clock_ok :: "('h, 's, 'c, 'n) call \<Rightarrow> bool" where
  "clock_ok c \<longleftrightarrow> unat (pe_now_ms (ca_env c)) + 86400000 < 2 ^ 63"

text \<open>Events of a working machine, as in \<open>Daemon\<close>.\<close>

fun server_event_ok :: "('h, 's, 'c, 'n) server_event \<Rightarrow> bool" where
  "server_event_ok (RequestArrives cid rid X req) = (unat (pe_now_ms X) + 86400000 < 2 ^ 63)"
| "server_event_ok (Background e) = event_ok e"
| "server_event_ok _ = True"

definition server_ok :: "('h, 's, 'c, 'n, 'q) server \<Rightarrow> bool" where
  "server_ok s \<longleftrightarrow> well_formed (sr_state s) \<and> (\<forall>rid c ph. sr_tasks s rid = Some (c, ph) \<longrightarrow> clock_ok c)"

definition same_frame :: "('s, 'n, 'q) proxy_state \<Rightarrow> ('s, 'n, 'q) proxy_state \<Rightarrow> bool" where
  "same_frame st st' \<longleftrightarrow> settings_of st' = settings_of st \<and> (manager_of st' = None \<longleftrightarrow> manager_of st = None)"

lemma same_frame_refl [simp]: "same_frame st st"
  by (simp add: same_frame_def)

lemma same_frame_trans: "same_frame a b \<Longrightarrow> same_frame b c \<Longrightarrow> same_frame a c"
  by (simp add: same_frame_def)

lemma same_frame_governor [simp]: "same_frame st (on_governor f st)"
  by (simp add: same_frame_def)

lemma well_formed_governor [simp]: "well_formed (on_governor f st) = well_formed st"
  by (simp add: well_formed_def)

lemma task_frame: "same_frame st (snd (task_step c ph st))"
  using task_manager [of c ph st] by (auto simp: same_frame_def task_keeps_settings)

lemma task_well_formed: "well_formed st \<Longrightarrow> clock_ok c \<Longrightarrow> well_formed (snd (task_step c ph st))"
  unfolding clock_ok_def by (rule effect_well_formed [OF _ _ task_telemetry task_manager])

lemma background_frame:
  "daemon_step checks N A st e st' \<Longrightarrow> event_ok e \<Longrightarrow> well_formed st \<Longrightarrow> well_formed st' \<and> same_frame st st'"
  by (simp add: step_invariant same_frame_def)

lemma server_ok_tasks: "server_ok s \<Longrightarrow> sr_tasks s rid = Some (c, ph) \<Longrightarrow> clock_ok c"
  unfolding server_ok_def by blast

lemma server_step_ok:
  assumes "server_step checks N A s e s'" "server_event_ok e" "server_ok s"
  shows "server_ok s' \<and> same_frame (sr_state s) (sr_state s')"
  using assms(1)
proof cases
  case (task rid c ph)
  have "clock_ok c" by (rule server_ok_tasks [OF assms(3) task(3)])
  with assms(3) have "well_formed (snd (task_step c ph (sr_state s)))" "clock_ok c"
    using task_well_formed [of "sr_state s" c ph] by (simp_all add: server_ok_def)
  with task task_frame [of "sr_state s" c ph] assms(3) show ?thesis by (auto simp: server_ok_def split: if_splits)
next
  case (request cid cn p rid X req)
  with assms(2,3) show ?thesis by (auto simp: server_ok_def clock_ok_def split: if_splits)
next
  case (beside e st)
  with assms(2,3) background_frame [OF beside(4)] show ?thesis by (auto simp: server_ok_def)
qed (use assms(3) in \<open>auto simp: server_ok_def split: if_splits\<close>)

interpretation srv: trace_invariant "server_step checks N A" server_event_ok server_ok
    "\<lambda>s _ s'. server_ok s' \<and> same_frame (sr_state s) (sr_state s')"
  for checks N A
proof unfold_locales
  fix s es s' e s''
  assume "server_ok s' \<and> same_frame (sr_state s) (sr_state s')" "server_event_ok e" "server_step checks N A s' e s''"
  with server_step_ok [of checks N A s' e s''] same_frame_trans
  show "server_ok s'' \<and> same_frame (sr_state s) (sr_state s'')" by blast
qed simp

lemma listening_ok [simp]: "server_ok (listening st) = well_formed st"
  by (simp add: server_ok_def)

lemma server_run_frame:
  assumes "run_of (server_step checks N A) (listening st) es s" "list_all server_event_ok es" "well_formed st"
  shows "server_ok s" "same_frame st (sr_state s)"
  using srv.inv_run [OF assms(1) _ assms(2)] assms(3) by simp_all

text \<open>
  C15: the shared state stays well formed in every interleaving of the steps of every task. Whatever
  connections are accepted, dropped and served, however the requests on them take turns step by step and
  with the background work, and whatever the libraries, the files and the upstreams answer: the log is
  within its capacity, the store is consistent, every queued record can be stored, and the routes, the
  settings, the limits and the trusted networks are those of the start.
\<close>

theorem server_well_formed:
  assumes "run_of (server_step checks N A) (listening st) es s" "list_all server_event_ok es" "well_formed st"
  shows "well_formed (sr_state s) \<and> settings_of (sr_state s) = settings_of st \<and>
    (manager_of (sr_state s) = None \<longleftrightarrow> manager_of st = None)"
  using server_run_frame [OF assms] by (simp add: server_ok_def same_frame_def)

section \<open>A client that is served alone\<close>

text \<open>A task that has the processor for itself, and a client that is served alone.\<close>

lemma server_Cons:
  "server_step checks N A s e s' \<Longrightarrow> run_of (server_step checks N A) s' es s'' \<Longrightarrow>
     run_of (server_step checks N A) s (e # es) s''"
  by (rule run_Cons)

lemma run_turns:
  "sr_tasks s rid = Some (c, ph) \<Longrightarrow>
     \<exists>s'. run_of (server_step checks N A) s (replicate n (TaskRuns rid)) s' \<and>
       (\<exists>ph'. sr_tasks s' rid = Some (c, ph') \<and>
         (ph', sr_state s') = ((\<lambda>(ph, st). task_step c ph st) ^^ n) (ph, sr_state s))"
proof (induction n arbitrary: s ph)
  case 0
  then show ?case by (auto intro: run_Nil)
next
  case (Suc n)
  let ?s = "advance_task rid c ph s"
  have "sr_tasks ?s rid = Some (c, fst (task_step c ph (sr_state s)))" by simp
  from Suc.IH [OF this] server_Cons [OF server_step.task [OF Suc.prems]]
  show ?case by (fastforce simp: funpow_swap1 [symmetric] funpow_Suc_right simp del: funpow.simps)
qed

definition arrival ::
    "ip_addr \<Rightarrow> u8 list option \<Rightarrow> ('h, 's, 'c, 'n) proxy_env \<Rightarrow> 'h request \<Rightarrow> ('h, 's, 'c, 'n) server_event list" where
  "arrival ip arrived X req = [Accept ip, Peek 0 arrived, HandshakeEnds 0 True, RequestArrives 0 0 X req]"

definition visit ::
    "ip_addr \<Rightarrow> u8 list option \<Rightarrow> ('h, 's, 'c, 'n) proxy_env \<Rightarrow> 'h request \<Rightarrow> ('h, 's, 'c, 'n) server_event list" where
  "visit ip arrived X req =
     [Accept ip, Peek 0 arrived, HandshakeEnds 0 True, RequestArrives 0 0 X req] @ replicate 9 (TaskRuns 0)"

lemma run_arrival:
  assumes "peek_profile arrived = Some p"
    and "c = \<lparr>ca_conn = 0, ca_env = X, ca_request = req, ca_ip = ip, ca_tls = p\<rparr>"
  shows "\<exists>s ph. run_of (server_step checks N A) (listening st) (arrival ip arrived X req @ replicate n (TaskRuns 0)) s \<and>
    sr_tasks s 0 = Some (c, ph) \<and>
    (ph, sr_state s) = ((\<lambda>(ph, st). task_step c ph st) ^^ n) (Arrived, on_governor register_connection st)"
proof -
  let ?s1 = "accept_connection ip (listening st)"
  let ?s2 = "set_stage 0 \<lparr>cn_ip = ip, cn_stage = Peeking\<rparr> (Handshaking p) ?s1"
  let ?s3 = "set_stage 0 \<lparr>cn_ip = ip, cn_stage = Handshaking p\<rparr> (Serving p) ?s2"
  let ?s4 = "start_request 0 c ?s3"
  have "server_step checks N A (listening st) (Accept ip) ?s1"
    "server_step checks N A ?s1 (Peek 0 arrived) ?s2"
    "server_step checks N A ?s2 (HandshakeEnds 0 True) ?s3"
    by (rule server_step.intros; simp add: assms)+
  moreover have "server_step checks N A ?s3 (RequestArrives 0 0 X req) ?s4"
    using server_step.request [of ?s3 0 "\<lparr>cn_ip = ip, cn_stage = Serving p\<rparr>" p 0 checks N A X req] assms(2) by simp
  moreover obtain s ph where "run_of (server_step checks N A) ?s4 (replicate n (TaskRuns 0)) s" "sr_tasks s 0 = Some (c, ph)"
    "(ph, sr_state s) = ((\<lambda>(ph, st). task_step c ph st) ^^ n) (Arrived, on_governor register_connection st)"
    using run_turns [of ?s4 0 c Arrived checks N A n] by auto
  ultimately show ?thesis unfolding arrival_def append_Cons append_Nil by (blast intro: server_Cons)
qed

lemma run_visit:
  assumes "peek_profile arrived = Some p"
    and "out = handle_proxy_request_with_tls X req ip p (on_governor register_connection st)"
  shows "\<exists>s. run_of (server_step checks N A) (listening st) (visit ip arrived X req) s \<and>
    sr_tasks s 0 = Some (\<lparr>ca_conn = 0, ca_env = X, ca_request = req, ca_ip = ip, ca_tls = p\<rparr>,
      Finished (po_result out) (po_sent out))"
proof -
  let ?c = "\<lparr>ca_conn = 0, ca_env = X, ca_request = req, ca_ip = ip, ca_tls = p\<rparr>"
  obtain s ph where "run_of (server_step checks N A) (listening st) (visit ip arrived X req) s" "sr_tasks s 0 = Some (?c, ph)"
    "(ph, sr_state s) = ((\<lambda>(ph, st). task_step ?c ph st) ^^ 9) (Arrived, on_governor register_connection st)"
    using run_arrival [OF assms(1) refl, where n = 9] unfolding visit_def arrival_def by blast
  moreover have "ph = Finished (po_result out) (po_sent out)"
    using calculation(3) steps_run [of Arrived 9 ?c "on_governor register_connection st"]
    by (simp add: run_Arrived outcome_of_def assms(2))
  ultimately show ?thesis by blast
qed

lemma peek_nothing [simp]: "peek_profile None = Some None"
  by (simp add: peek_profile_def)

lemma visit_ok:
  "list_all server_event_ok (visit ip arrived X req) \<longleftrightarrow> unat (pe_now_ms X) + 86400000 < 2 ^ 63"
  by (simp add: visit_def list_all_iff)

theorem server_well_formed_witness:
  "\<exists>s. run_of (server_step True cidr_lib list_quarantine) (listening plain_daemon)
       (visit (V4 198 51 100 7) None plain_env (plain_request (Some ''q=UNION''))) s \<and>
     well_formed (sr_state s) \<and> settings_of (sr_state s) = settings_of plain_daemon"
proof -
  obtain s where r: "run_of (server_step True cidr_lib list_quarantine) (listening plain_daemon)
       (visit (V4 198 51 100 7) None plain_env (plain_request (Some ''q=UNION''))) s"
    using run_visit [OF peek_nothing refl] by blast
  with server_well_formed [OF r _ plain_daemon_well_formed] show ?thesis
    by (auto simp: visit_ok plain_env_simps)
qed

section \<open>The counters\<close>

text \<open>The listener as \<open>Governor\<close> sees it.\<close>

definition connections_of :: "('h, 's, 'c, 'n, 'q) server \<Rightarrow> conn_state" where
  "connections_of s =
     \<lparr>cs_governor = ps_governor (sr_state s), cs_live = dom (sr_conns s), cs_accepted = sr_accepted s\<rparr>"

lemma on_governor_governor [simp]: "ps_governor (on_governor f st) = f (ps_governor st)"
  by (simp add: on_governor_def)

lemma background_governor:
  assumes "daemon_step checks N A st e st'" "background e"
  shows "ps_governor st' = ps_governor st \<or> ps_governor st' = run_hygiene_pass (ps_governor st)"
  using assms(1) by cases (use assms(2) in \<open>auto simp: set_manager_def\<close>)

lemma end_connection_simulated:
  assumes "sr_conns s cid = Some cn"
  shows "conn_step (connections_of s) (HandshakeFailed cid) (connections_of (end_connection cid s))"
    and "conn_step (connections_of s) (Served cid) (connections_of (end_connection cid s))"
  using assms by (auto simp: conn_step_simps connections_of_def drop_guard_def)

lemma server_step_simulated:
  assumes "server_step checks N A s e s'"
  shows "connections_of s' = connections_of s \<or> (\<exists>e'. conn_step (connections_of s) e' (connections_of s'))"
  using assms
proof cases
  case (accept ip)
  then have "conn_step (connections_of s) Accepted (connections_of s')"
    by (simp add: conn_step_simps connections_of_def)
  then show ?thesis by blast
next
  case (peek_panics cid cn arrived)
  with end_connection_simulated [of s cid cn] show ?thesis by blast
next
  case (handshake_error cid cn p)
  with end_connection_simulated [of s cid cn] show ?thesis by blast
next
  case (served cid cn p)
  with end_connection_simulated [of s cid cn] show ?thesis by blast
next
  case (task rid c ph)
  with task_governor [of c ph "sr_state s"]
  have "connections_of s' = connections_of s \<or> conn_step (connections_of s) ThreatTrapped (connections_of s')"
    by (auto simp: conn_step_simps connections_of_def)
  then show ?thesis by blast
next
  case (beside e st)
  with background_governor [OF beside(4,3)]
  have "connections_of s' = connections_of s \<or> conn_step (connections_of s) HygieneTick (connections_of s')"
    by (auto simp: conn_step_simps connections_of_def)
  then show ?thesis by blast
qed (auto simp: connections_of_def)

lemma connections_listening:
  "ps_governor st = new_governor config now \<Longrightarrow> connections_of (listening st) = conn_init config now"
  by (simp add: connections_of_def conn_init_def)

interpretation sim: trace_invariant "server_step checks N A" "\<lambda>_. True" "\<lambda>s. \<exists>st. s = listening st"
    "\<lambda>s _ s'. \<exists>es'. run_of conn_step (connections_of s) es' (connections_of s')"
  for checks N A
proof unfold_locales
  fix s es s' e s''
  assume "\<exists>es'. run_of conn_step (connections_of s) es' (connections_of s')" "server_step checks N A s' e s''"
  with server_step_simulated [of checks N A s' e s'']
  show "\<exists>es'. run_of conn_step (connections_of s) es' (connections_of s'')"
    by (metis run_of.run_snoc)
qed (blast intro: run_of.run_Nil)

text \<open>
  C13: the listener refines the life cycle of its connections. Every run of the listener is a run of the
  accept loop of \<open>Governor\<close>, so that the counters are exact in every state: the active connections are
  the open ones, and the counter is zero when none is open, the served ones are the accepted ones, each
  modulo \<open>2 ^ 64\<close>.
\<close>

theorem listener_refines_connections:
  assumes "run_of (server_step checks N A) (listening st) es s" "ps_governor st = new_governor config now"
  shows "\<exists>es'. run_of conn_step (conn_init config now) es' (connections_of s) \<and> counters_ok es' (connections_of s) \<and>
    finite (dom (sr_conns s)) \<and>
    current_active_connections (gov_metrics (ps_governor (sr_state s))) = of_nat (card (dom (sr_conns s))) \<and>
    total_connections_served (gov_metrics (ps_governor (sr_state s))) = of_nat (sr_accepted s)"
proof -
  obtain es' where r: "run_of conn_step (conn_init config now) es' (connections_of s)"
    using sim.inv_run [OF assms(1) exI [of _ st]] by (auto simp: list_all_iff connections_listening [OF assms(2)])
  have ok: "counters_ok es' (connections_of s)" by (rule gov.inv_run [OF r]) (auto simp: list_all_iff)
  then have "finite (dom (sr_conns s))"
    "current_active_connections (gov_metrics (ps_governor (sr_state s))) = of_nat (card (dom (sr_conns s)))"
    "total_connections_served (gov_metrics (ps_governor (sr_state s))) = of_nat (sr_accepted s)"
    by (simp_all add: counters_ok_def connections_of_def Let_def)
  with r ok show ?thesis by blast
qed

theorem listener_refines_connections_witness:
  "\<exists>s es'. run_of (server_step True cidr_lib list_quarantine) (listening plain_daemon)
       (visit (V4 198 51 100 7) None plain_env (plain_request None)) s \<and>
     run_of conn_step (conn_init default_maintenance_config 0) es' (connections_of s)"
proof -
  obtain s where r: "run_of (server_step True cidr_lib list_quarantine) (listening plain_daemon)
       (visit (V4 198 51 100 7) None plain_env (plain_request None)) s"
    using run_visit [OF peek_nothing refl] by blast
  have "ps_governor plain_daemon = new_governor default_maintenance_config 0"
    by (simp add: plain_daemon_def plain_proxy_def)
  from r listener_refines_connections [OF r this] show ?thesis by blast
qed

end
