(* ===== verification/Server_Bans.thy ===== *)
theory Server_Bans
  imports Server_Props
begin

text \<open>
  A client that trips a trap is banned before it gets its answer, whatever the other tasks do in
  between; afterwards the ban is stored, waits for the worker, or its write has failed, and then the
  worker has logged and dropped it.
\<close>

section \<open>A trap in the middle of its calls\<close>

text \<open>The request passes the guard, is for no challenge, and trips a trap that is armed.\<close>

definition tripped :: "('s, 'n, 'q) proxy_state \<Rightarrow> ('h, 's, 'c, 'n) call \<Rightarrow> string \<Rightarrow> bool" where
  "tripped st c reason \<longleftrightarrow>
     validate_headers (pe_http (ca_env c)) (ps_framing_guard st) (rq_headers (ca_request c)) (rq_method (ca_request c)) = Inr () \<and>
     try_serve_acme_challenge (pe_http (ca_env c)) (pe_fs (ca_env c)) (rq_path (ca_request c)) (ps_acme_webroot st) = None \<and>
     enable_defense (ps_security st) \<and> \<not> is_trusted (pe_net (ca_env c)) (ps_defense st) (ca_ip c) \<and>
     trapped_as (ca_env c) (ca_request c) (ca_ip c) (ca_tls c) = Some reason"

lemma tripped_settings: "settings_of st' = settings_of st \<Longrightarrow> tripped st' c reason = tripped st c reason"
  by (simp add: tripped_def settings_of_def is_trusted_def)

fun undecided :: "'h phase \<Rightarrow> bool" where
  "undecided Arrived = True"
| "undecided Challenged = True"
| "undecided Judged = True"
| "undecided _ = False"

text \<open>The task will answer with a denial, or has.\<close>

fun denying :: "'h phase \<Rightarrow> bool" where
  "denying (Trapping as res) = (rs_status res \<in> {403, 404})"
| "denying (Convicted res) = (rs_status res \<in> {403, 404})"
| "denying (Counted res) = (rs_status res \<in> {403, 404})"
| "denying (Finished res sent) = (sent = [] \<and> (\<exists>r. res = Inr r \<and> rs_status r \<in> {403, 404}))"
| "denying _ = False"

fun will_notify :: "string \<Rightarrow> 'h phase \<Rightarrow> bool" where
  "will_notify reason (Trapping as res) = (NotifyManager reason \<in> set as)"
| "will_notify reason ph = undecided ph"

lemma judge_trap:
  assumes "\<not> is_trusted (pe_net X) ed ip" "trap_of (pe_phylax X) p q ua tls = Some reason"
  shows "\<exists>as res. judge X ip p q ua tls ed = Trapping as res \<and> NotifyManager reason \<in> set as \<and> rs_status res \<in> {403, 404}"
  using assms
  by (auto simp: judge_def trap_of_def Let_def stealth_404_response_def forbidden_payload_response_def
      forbidden_response_def split: sum.splits option.splits if_splits)

lemma inject_status [simp]: "rs_status (inject_response_security_headers L res sec) = rs_status res"
  by (simp add: inject_response_security_headers_def)

lemma tripped_phase:
  assumes "tripped st c reason" "undecided ph \<or> denying ph"
  shows "undecided (fst (task_step c ph st)) \<or> denying (fst (task_step c ph st))"
  using assms
  by (cases "(c, ph, st)" rule: task_step.cases)
    (auto simp: tripped_def trapped_as_def Let_def fields_of_def dest!: judge_trap)

text \<open>The call that notifies the manager queues the record.\<close>

lemma notify_known:
  assumes "ed_manager ed = Some qm" "receiver_alive qm" "px_derive_cidr P (show_ip ip) = Some cidr"
  shows "\<exists>qm'. ed_manager (notify_quarantine P ip reason ua now ed) = Some qm' \<and> cidr \<in> known qm'"
  using assms by (simp add: notify_manager queue_record_def known_def trap_record_def)

lemma tripped_notifies:
  assumes "tripped st c reason" "will_notify reason ph" "manager_of st = Some qm" "receiver_alive qm"
    and "px_derive_cidr (pe_phylax (ca_env c)) (show_ip (ca_ip c)) = Some cidr"
  shows "will_notify reason (fst (task_step c ph st)) \<or>
    (\<exists>qm'. manager_of (snd (task_step c ph st)) = Some qm' \<and> cidr \<in> known qm')"
proof (cases "(c, ph, st)" rule: task_step.cases)
  case (5 c a as res st)
  then show ?thesis
    using assms notify_known [of "ps_defense st" qm "pe_phylax (ca_env c)" "ca_ip c" cidr reason
        "lf_user_agent (fields_of (pe_http (ca_env c)) (ca_ip c) (ca_request c))" "pe_now_ms (ca_env c)"]
    by (auto simp: manager_of_def Let_def)
qed (use assms in \<open>auto simp: tripped_def trapped_as_def Let_def fields_of_def dest!: judge_trap\<close>)

section \<open>In every interleaving\<close>

text \<open>A task of the next state was there before, has just come, or has made a step.\<close>

lemma task_origin:
  assumes "server_step checks N A s e s'" "sr_tasks s' rid = Some (c, ph')"
  shows "sr_tasks s rid = Some (c, ph') \<or> ph' = Arrived \<or>
    (\<exists>ph. sr_tasks s rid = Some (c, ph) \<and> sr_state s' = snd (task_step c ph (sr_state s)) \<and>
       ph' = fst (task_step c ph (sr_state s)))"
  using assms(1) by cases (use assms(2) in \<open>auto split: if_splits\<close>)

text \<open>
  What an operator does to lift bans, and the events of a working machine (as in \<open>Server_Props\<close>) in which
  none does. A turn of the worker may fail: \<open>worker_stores\<close> says of an event that, if it is the worker's, the
  statements of the store succeed.
\<close>

fun lifting :: "ipc_request \<Rightarrow> bool" where
  "lifting (Unban ts) = True"
| "lifting UnbanAll = True"
| "lifting _ = False"

fun lifting_event :: "('h, 's, 'c, 'n) server_event \<Rightarrow> bool" where
  "lifting_event (Background (ControlCall E req now)) = lifting req"
| "lifting_event _ = False"

definition lifts_no_ban :: "('h, 's, 'c, 'n) server_event \<Rightarrow> bool" where
  "lifts_no_ban e \<longleftrightarrow> server_event_ok e \<and> \<not> lifting_event e"

fun worker_stores :: "('h, 's, 'c, 'n) server_event \<Rightarrow> bool" where
  "worker_stores (Background (WorkerTurn E)) = engine_works E"
| "worker_stores _ = True"

lemma lifts_no_ban_ok: "lifts_no_ban e \<Longrightarrow> server_event_ok e"
  by (simp add: lifts_no_ban_def)

lemma lifts_no_ban_list:
  "list_all lifts_no_ban es \<longleftrightarrow> list_all server_event_ok es \<and> \<not> list_ex lifting_event es"
  by (induction es) (auto simp: lifts_no_ban_def)

lemma known_queue [simp]:
  "known (queue_record rec qm) = (if receiver_alive qm then insert (qr_cidr rec) (known qm) else known qm)"
  "receiver_alive (queue_record rec qm) = receiver_alive qm"
  by (auto simp: known_def queue_record_def)

text \<open>
  A record whose write fails is logged and dropped: the network that a turn of the worker drops, and the
  networks that a run has dropped.
\<close>

definition dropped :: "sql_engine \<Rightarrow> 'q daemon \<Rightarrow> string set" where
  "dropped E qm =
     (case channel qm of
        [] \<Rightarrow> {}
      | rec # _ \<Rightarrow> (case fst (record_ban E rec (daemon_db qm)) of Inl _ \<Rightarrow> {qr_cidr rec} | Inr _ \<Rightarrow> {}))"

fun write_fails :: "('h, 's, 'c, 'n, 'q) server \<Rightarrow> ('h, 's, 'c, 'n) server_event \<Rightarrow> string set" where
  "write_fails s (Background (WorkerTurn E)) =
     (case manager_of (sr_state s) of None \<Rightarrow> {} | Some qm \<Rightarrow> dropped E qm)"
| "write_fails s _ = {}"

definition writes_failed ::
    "bool \<Rightarrow> 'n ipnet_lib \<Rightarrow> ('q, 'n) phylax_quarantine \<Rightarrow> ('h, 's, 'c, 'n, 'q) server \<Rightarrow>
     ('h, 's, 'c, 'n) server_event list \<Rightarrow> string set" where
  "writes_failed checks N A s0 es =
     {cidr. \<exists>es1 e es2 s. es = es1 @ e # es2 \<and> run_of (server_step checks N A) s0 es1 s \<and> cidr \<in> write_fails s e}"

text \<open>An event leads a state to one state only, so the networks of \<open>writes_failed\<close> are those of the run itself.\<close>

lemma server_step_deterministic:
  assumes "server_step checks N A s e s'" "server_step checks N A s e s''"
  shows "s' = s''"
proof -
  have d: "st' = st''" if "daemon_step checks N A st e st'" "daemon_step checks N A st e st''" for st e st' st''
    using that(1) by cases (use that(2) in \<open>cases; simp\<close>)+
  show ?thesis using assms(1) by cases (use assms(2) d in \<open>cases; auto\<close>)+
qed

lemma writes_failed_snoc:
  assumes "run_of (server_step checks N A) s0 es s"
  shows "writes_failed checks N A s0 es \<union> write_fails s e \<subseteq> writes_failed checks N A s0 (es @ [e])"
  unfolding writes_failed_def using assms by fastforce

lemma worker_known:
  assumes "store_inv (daemon_db qm)" "list_all persistable (channel qm)"
  shows "known qm \<subseteq> known (worker_step E qm) \<union> dropped E qm"
proof (cases "channel qm")
  case (Cons rec rest)
  then have r: "qr_active rec" using assms(2) by (simp add: persistable_def)
  have "qr_cidr rec \<in> active_set (snd (record_ban E rec (daemon_db qm))) \<union> dropped E qm"
    by (cases rule: record_ban_cases [of E rec "daemon_db qm"])
      (use assms(1) r Cons active_banned in \<open>auto simp: dropped_def\<close>)
  with record_ban_mono [OF assms(1) r, of E] Cons show ?thesis
    by (auto simp: known_def worker_step_def)
qed (simp add: worker_step_def)

lemma server_step_known:
  assumes "server_step checks N A s e s'" "lifts_no_ban e" "server_ok s" "manager_of (sr_state s) = Some qm"
  shows "\<exists>qm'. manager_of (sr_state s') = Some qm' \<and> known qm \<subseteq> known qm' \<union> write_fails s e \<and>
    receiver_alive qm' = receiver_alive qm"
  using assms(1)
proof cases
  case (task rid c ph)
  with assms(4) task_manager [of c ph "sr_state s"] show ?thesis by auto
next
  case (beside e st)
  have inv: "store_inv (daemon_db qm)" "list_all persistable (channel qm)"
    using assms(3,4) by (auto simp: server_ok_def well_formed_def)
  from beside(4) show ?thesis
  proof cases
    case (worker qm1 E)
    with worker_known [OF inv, of E] beside assms(4) show ?thesis
      by (auto simp: worker_step_def split: list.split)
  next
    case (control qm1 E req now res qm')
    with dispatch_keeps_bans [OF inv(1), of checks E N A req now res qm'] dispatch_channel [OF control(4)] assms(2,4) beside
    show ?thesis by (cases req) (auto simp: lifts_no_ban_def)
  qed (use assms(4) beside in auto)
qed (use assms(4) in auto)

text \<open>A ban that is in the store stays there, whether later writes succeed or not.\<close>

lemma server_step_active:
  assumes "server_step checks N A s e s'" "lifts_no_ban e" "server_ok s" "manager_of (sr_state s) = Some qm"
  shows "\<exists>qm'. manager_of (sr_state s') = Some qm' \<and> active_set (daemon_db qm) \<subseteq> active_set (daemon_db qm')"
  using assms(1)
proof cases
  case (task rid c ph)
  with assms(4) task_manager [of c ph "sr_state s"] show ?thesis by (auto simp: queue_record_def)
next
  case (beside e st)
  have inv: "store_inv (daemon_db qm)" "list_all persistable (channel qm)"
    using assms(3,4) by (auto simp: server_ok_def well_formed_def)
  from beside(4) show ?thesis
  proof cases
    case (worker qm1 E)
    have "active_set (daemon_db qm) \<subseteq> active_set (daemon_db (worker_step E qm))"
      using record_ban_mono [OF inv(1), of _ E, THEN subsetD] inv(2)
      by (auto simp: worker_step_def persistable_def split: list.split)
    with worker beside assms(4) show ?thesis by auto
  next
    case (control qm1 E req now res qm')
    with dispatch_active [OF inv(1), of checks E N A req now res qm'] assms(2,4) beside
    show ?thesis by (cases req) (auto simp: lifts_no_ban_def)
  qed (use assms(4) beside in auto)
qed (use assms(4) in auto)

text \<open>With a store that works nothing is dropped.\<close>

lemma no_write_fails:
  assumes "server_ok s" "worker_stores e"
  shows "write_fails s e = {}"
proof (cases "(s, e)" rule: write_fails.cases)
  case (1 s1 E)
  show ?thesis
  proof (cases "manager_of (sr_state s)")
    case (Some qm)
    then have "list_all persistable (channel qm)" using assms(1) by (simp add: server_ok_def well_formed_def)
    moreover have "fst (record_ban E rec (daemon_db qm)) = Inr ()" if "persistable rec" for rec
      using record_ban_works [of E rec "daemon_db qm"] that 1 assms(2) by (auto simp: persistable_def)
    ultimately show ?thesis using 1 Some by (auto simp: dropped_def split: list.split)
  qed (use 1 in simp)
qed simp_all

lemma none_failed:
  assumes "list_all lifts_no_ban es" "list_all worker_stores es" "server_ok s0"
  shows "writes_failed checks N A s0 es = {}"
proof -
  have "write_fails s e = {}" if "es = es1 @ e # es2" "run_of (server_step checks N A) s0 es1 s" for es1 e es2 s
  proof (rule no_write_fails)
    have "list_all server_event_ok es1" using assms(1) that(1) by (simp add: lifts_no_ban_list)
    with srv.inv_run [OF that(2) assms(3)] show "server_ok s" by blast
    show "worker_stores e" using assms(2) that(1) by simp
  qed
  then show ?thesis unfolding writes_failed_def by blast
qed

definition bans_first :: "string set \<Rightarrow> ('h, 's, 'c, 'n, 'q) server \<Rightarrow> bool" where
  "bans_first F s \<longleftrightarrow>
     (\<exists>qm. manager_of (sr_state s) = Some qm \<and> receiver_alive qm \<and>
       (\<forall>rid c ph reason cidr. sr_tasks s rid = Some (c, ph) \<longrightarrow> tripped (sr_state s) c reason \<longrightarrow>
          px_derive_cidr (pe_phylax (ca_env c)) (show_ip (ca_ip c)) = Some cidr \<longrightarrow>
          (undecided ph \<or> denying ph) \<and> (will_notify reason ph \<or> cidr \<in> known qm \<union> F)))"

lemma bans_first_step:
  assumes "server_step checks N A s e s'" "lifts_no_ban e" "server_ok s" "bans_first F s" "F \<union> write_fails s e \<subseteq> F'"
  shows "bans_first F' s'"
proof -
  obtain qm where q: "manager_of (sr_state s) = Some qm" "receiver_alive qm"
    and b: "\<And>rid c ph reason cidr. sr_tasks s rid = Some (c, ph) \<Longrightarrow> tripped (sr_state s) c reason \<Longrightarrow>
      px_derive_cidr (pe_phylax (ca_env c)) (show_ip (ca_ip c)) = Some cidr \<Longrightarrow>
      (undecided ph \<or> denying ph) \<and> (will_notify reason ph \<or> cidr \<in> known qm \<union> F)"
    using assms(4) unfolding bans_first_def by blast
  obtain qm' where q': "manager_of (sr_state s') = Some qm'" "known qm \<union> F \<subseteq> known qm' \<union> F'" "receiver_alive qm'"
    using server_step_known [OF assms(1-3) q(1)] q(2) assms(5) by blast
  have set: "settings_of (sr_state s') = settings_of (sr_state s)"
    using server_step_ok [OF assms(1) lifts_no_ban_ok [OF assms(2)] assms(3)] by (simp add: same_frame_def)
  have "(undecided ph' \<or> denying ph') \<and> (will_notify reason ph' \<or> cidr \<in> known qm' \<union> F')"
    if t: "sr_tasks s' rid = Some (c, ph')" "tripped (sr_state s') c reason"
      "px_derive_cidr (pe_phylax (ca_env c)) (show_ip (ca_ip c)) = Some cidr" for rid c ph' reason cidr
  proof -
    have tr: "tripped (sr_state s) c reason" by (rule iffD1 [OF tripped_settings [OF set] t(2)])
    from task_origin [OF assms(1) t(1)] show ?thesis
    proof (elim disjE exE conjE)
      assume "sr_tasks s rid = Some (c, ph')"
      with b [OF this tr t(3)] q'(2) show ?thesis by blast
    next
      fix ph
      assume o: "sr_tasks s rid = Some (c, ph)" "sr_state s' = snd (task_step c ph (sr_state s))"
        "ph' = fst (task_step c ph (sr_state s))"
      with b [OF o(1) tr t(3)] tripped_phase [OF tr, of ph] tripped_notifies [OF tr _ q t(3), of ph] q'
      show ?thesis by auto
    qed simp
  qed
  with q' show ?thesis unfolding bans_first_def by blast
qed

interpretation banfirst: trace_invariant "server_step checks N A" lifts_no_ban "\<lambda>s. server_ok s \<and> bans_first {} s"
    "\<lambda>s0 es s. run_of (server_step checks N A) s0 es s \<and> server_ok s \<and> bans_first (writes_failed checks N A s0 es) s"
  for checks N A
proof unfold_locales
  fix s0 es s e s'
  assume i: "run_of (server_step checks N A) s0 es s \<and> server_ok s \<and> bans_first (writes_failed checks N A s0 es) s"
    and e: "lifts_no_ban e" "server_step checks N A s e s'"
  from i bans_first_step [OF e(2,1) _ _ writes_failed_snoc] server_step_ok [OF e(2) lifts_no_ban_ok [OF e(1)]]
  show "run_of (server_step checks N A) s0 (es @ [e]) s' \<and> server_ok s' \<and> bans_first (writes_failed checks N A s0 (es @ [e])) s'"
    using run_of.run_snoc [of "server_step checks N A" s0 es s e s'] e(2) by blast
qed (auto simp: writes_failed_def intro: run_of.run_Nil)

lemma listening_bans_first:
  "manager_of st = Some qm \<Longrightarrow> receiver_alive qm \<Longrightarrow> bans_first {} (listening st)"
  by (simp add: bans_first_def)

lemma finished_tripped:
  assumes "run_of (server_step checks N A) (listening st) es s" "list_all lifts_no_ban es"
    and "well_formed st" "manager_of st = Some qm" "receiver_alive qm"
    and "sr_tasks s rid = Some (c, Finished res sent)" "tripped st c reason"
    and "px_derive_cidr (pe_phylax (ca_env c)) (show_ip (ca_ip c)) = Some cidr"
  shows "denying (Finished res sent) \<and>
    (\<exists>qm'. manager_of (sr_state s) = Some qm' \<and> cidr \<in> known qm' \<union> writes_failed checks N A (listening st) es)"
proof -
  have b: "bans_first (writes_failed checks N A (listening st) es) s"
    using banfirst.inv_run [OF assms(1) _ assms(2)] assms(3) listening_bans_first [OF assms(4,5)] by auto
  have "list_all server_event_ok es"
    using assms(2) by (simp add: lifts_no_ban_list)
  then have "settings_of (sr_state s) = settings_of st"
    using server_run_frame(2) [OF assms(1) _ assms(3)] by (simp add: same_frame_def)
  then have "tripped (sr_state s) c reason" using assms(7) tripped_settings by blast
  with b assms(6,8) show ?thesis unfolding bans_first_def by fastforce
qed

text \<open>With a store that works the network is stored or waits.\<close>

lemma finished_tripped_known:
  assumes "run_of (server_step checks N A) (listening st) es s" "list_all lifts_no_ban es" "list_all worker_stores es"
    and "well_formed st" "manager_of st = Some qm" "receiver_alive qm"
    and "sr_tasks s rid = Some (c, Finished res sent)" "tripped st c reason"
    and "px_derive_cidr (pe_phylax (ca_env c)) (show_ip (ca_ip c)) = Some cidr"
  shows "denying (Finished res sent) \<and> (\<exists>qm'. manager_of (sr_state s) = Some qm' \<and> cidr \<in> known qm')"
  using finished_tripped [OF assms(1,2,4-9)] none_failed [OF assms(2,3), of "listening st"] assms(4) by simp

text \<open>
  The ban comes before the answer. Whatever the other tasks do between the steps of a request that
  trips a trap, when the client has its answer, the answer is a denial, nothing was sent upstream, and
  the client's network is stored as banned or waits in the channel; it stays so in every later state
  as long as no operator lifts bans and the store works, and once the channel is empty it is stored.
\<close>

theorem ban_precedes_answer:
  assumes "run_of (server_step checks N A) (listening st) es s" "list_all lifts_no_ban es" "list_all worker_stores es"
    and "well_formed st" "manager_of st = Some qm" "receiver_alive qm"
    and "sr_tasks s rid = Some (c, Finished res sent)" "tripped st c reason"
    and "px_derive_cidr (pe_phylax (ca_env c)) (show_ip (ca_ip c)) = Some cidr"
  shows "(\<exists>r. res = Inr r \<and> rs_status r \<in> {403, 404}) \<and> sent = [] \<and>
    (\<exists>qm'. manager_of (sr_state s) = Some qm' \<and>
       cidr \<in> active_set (daemon_db qm') \<union> qr_cidr ` set (channel qm') \<and>
       (channel qm' = [] \<longrightarrow> cidr \<in> active_set (daemon_db qm')))"
  using finished_tripped_known [OF assms] by (auto simp: known_def)

lemma visit_lifts:
  "list_all lifts_no_ban (visit ip arrived X req) \<longleftrightarrow> unat (pe_now_ms X) + 86400000 < 2 ^ 63"
  by (simp add: visit_def list_all_iff lifts_no_ban_def)

lemma visit_stores [simp]: "list_all worker_stores (visit ip arrived X req)"
  by (simp add: visit_def list_all_iff)

lemma plain_tripped:
  "tripped plain_daemon \<lparr>ca_conn = 0, ca_env = plain_env, ca_request = plain_request (Some ''q=UNION''),
     ca_ip = V4 198 51 100 7, ca_tls = None\<rparr> ''sqli''"
  using plain_daemon_simps plain_env_simps plain_request_accepted plain_trap guarded_trap(2)
  by (simp add: tripped_def)

theorem ban_precedes_answer_witness:
  "\<exists>s qm'. run_of (server_step True cidr_lib list_quarantine) (listening plain_daemon)
       (visit (V4 198 51 100 7) None plain_env (plain_request (Some ''q=UNION''))) s \<and>
     manager_of (sr_state s) = Some qm' \<and> ''198.51.100.0/24'' \<in> active_set (daemon_db qm') \<union> qr_cidr ` set (channel qm')"
proof -
  obtain s res sent where r: "run_of (server_step True cidr_lib list_quarantine) (listening plain_daemon)
       (visit (V4 198 51 100 7) None plain_env (plain_request (Some ''q=UNION''))) s"
    "sr_tasks s 0 = Some (\<lparr>ca_conn = 0, ca_env = plain_env, ca_request = plain_request (Some ''q=UNION''),
       ca_ip = V4 198 51 100 7, ca_tls = None\<rparr>, Finished res sent)"
    using run_visit [OF peek_nothing refl] by blast
  from r(1) ban_precedes_answer [OF r(1) _ visit_stores plain_daemon_well_formed plain_daemon_simps(4,6) r(2) plain_tripped, of "''198.51.100.0/24''"]
    plain_trap(2)
  show ?thesis by (auto simp: visit_lifts plain_env_simps)
qed

end
