(* ===== verification/Server_Hello.thy ===== *)
theory Server_Hello
  imports Server_Bans
begin

text \<open>
  Where a task has its address and its profile from: the accept and the peek of its own connection. With
  the parser of the ClientHello and the trap this gives the promise the fingerprint is made for: a client
  whose hello is not a browser's, and that claims to be one, is banned.
\<close>

section \<open>The history of a connection\<close>

definition accepted_from :: "('h, 's, 'c, 'n) server_event list \<Rightarrow> ip_addr list" where
  "accepted_from es = List.map_filter (\<lambda>e. case e of Accept ip \<Rightarrow> Some ip | _ \<Rightarrow> None) es"

definition peeked_on :: "nat \<Rightarrow> ('h, 's, 'c, 'n) server_event list \<Rightarrow> u8 list option list" where
  "peeked_on cid es = List.map_filter (\<lambda>e. case e of Peek i arrived \<Rightarrow> if i = cid then Some arrived else None | _ \<Rightarrow> None) es"

lemma history_Nil [simp]: "accepted_from [] = []" "peeked_on cid [] = []"
  by (simp_all add: accepted_from_def peeked_on_def List.map_filter_def)

lemma history_snoc [simp]:
  "accepted_from (es @ [e]) = accepted_from es @ (case e of Accept ip \<Rightarrow> [ip] | _ \<Rightarrow> [])"
  "peeked_on cid (es @ [e]) = peeked_on cid es @ (case e of Peek i arrived \<Rightarrow> if i = cid then [arrived] else [] | _ \<Rightarrow> [])"
  by (simp_all add: accepted_from_def peeked_on_def List.map_filter_def split: server_event.split)

text \<open>A connection that has been peeked at, once, and what came of it.\<close>

definition peeked_as :: "nat \<Rightarrow> ('h, 's, 'c, 'n) server_event list \<Rightarrow> client_tls_profile option \<Rightarrow> bool" where
  "peeked_as cid es p \<longleftrightarrow> (\<exists>arrived. peeked_on cid es = [arrived] \<and> peek_profile arrived = Some p)"

definition connection_history :: "nat \<Rightarrow> ('h, 's, 'c, 'n) server_event list \<Rightarrow> connection \<Rightarrow> bool" where
  "connection_history cid es cn \<longleftrightarrow>
     cid < length (accepted_from es) \<and> cn_ip cn = accepted_from es ! cid \<and>
     (case cn_stage cn of
        Peeking \<Rightarrow> peeked_on cid es = []
      | Handshaking p \<Rightarrow> peeked_as cid es p
      | Serving p \<Rightarrow> peeked_as cid es p)"

definition task_history :: "('h, 's, 'c, 'n) server_event list \<Rightarrow> nat \<Rightarrow> ('h, 's, 'c, 'n) call \<Rightarrow> bool" where
  "task_history es rid c \<longleftrightarrow>
     ca_conn c < length (accepted_from es) \<and> ca_ip c = accepted_from es ! ca_conn c \<and>
     peeked_as (ca_conn c) es (ca_tls c) \<and> RequestArrives (ca_conn c) rid (ca_env c) (ca_request c) \<in> set es"

definition history_ok :: "('h, 's, 'c, 'n) server_event list \<Rightarrow> ('h, 's, 'c, 'n, 'q) server \<Rightarrow> bool" where
  "history_ok es s \<longleftrightarrow>
     length (accepted_from es) = sr_accepted s \<and>
     (\<forall>cid \<ge> sr_accepted s. peeked_on cid es = []) \<and>
     (\<forall>cid cn. sr_conns s cid = Some cn \<longrightarrow> connection_history cid es cn) \<and>
     (\<forall>rid c ph. sr_tasks s rid = Some (c, ph) \<longrightarrow> task_history es rid c)"

lemma history_conn: "history_ok es s \<Longrightarrow> sr_conns s cid = Some cn \<Longrightarrow> connection_history cid es cn"
  unfolding history_ok_def by blast

lemma history_task: "history_ok es s \<Longrightarrow> sr_tasks s rid = Some (c, ph) \<Longrightarrow> task_history es rid c"
  unfolding history_ok_def by blast

lemma peek_of_new:
  assumes "server_step checks N A s (Peek cid arrived) s'" "history_ok es s"
  shows "cid < sr_accepted s \<and> peeked_on cid es = []"
proof -
  obtain cn where "sr_conns s cid = Some cn" "cn_stage cn = Peeking"
    using assms(1) by (auto elim: server_stepE)
  with history_conn [OF assms(2) this(1)] assms(2) show ?thesis
    by (simp add: connection_history_def history_ok_def)
qed

lemma connection_history_snoc:
  "connection_history cid es cn \<Longrightarrow> \<forall>arrived. e \<noteq> Peek cid arrived \<Longrightarrow> connection_history cid (es @ [e]) cn"
  by (auto simp: connection_history_def peeked_as_def nth_append split: stage.splits server_event.splits)

lemma task_history_snoc:
  assumes "task_history es rid c" "history_ok es s" "server_step checks N A s e s'"
  shows "task_history (es @ [e]) rid c"
proof -
  have "e \<noteq> Peek (ca_conn c) arrived" for arrived
    using peek_of_new [of checks N A s "ca_conn c" arrived s' es] assms
    by (auto simp: task_history_def peeked_as_def)
  with assms(1) show ?thesis
    by (auto simp: task_history_def peeked_as_def nth_append split: server_event.split)
qed

lemma history_step:
  assumes "history_ok es s" "server_step checks N A s e s'"
  shows "history_ok (es @ [e]) s'"
proof -
  have n: "length (accepted_from (es @ [e])) = sr_accepted s'" "\<forall>cid \<ge> sr_accepted s'. peeked_on cid (es @ [e]) = []"
    using assms(2)
    by (cases; use assms(1) peek_of_new [OF _ assms(1)] assms(2) in \<open>fastforce simp: history_ok_def\<close>)+
  have t: "task_history (es @ [e]) rid c" if "sr_tasks s' rid = Some (c, ph)" for rid c ph
    using assms(2)
  proof cases
    case (request cid cn p rid' X req)
    show ?thesis
    proof (cases "sr_tasks s rid")
      case None
      with request that history_conn [OF assms(1) request(3)] show ?thesis
        by (auto simp: task_history_def connection_history_def peeked_as_def split: if_splits)
    qed (use request that task_history_snoc [OF history_task [OF assms(1)] assms] in \<open>auto split: if_splits\<close>)
  qed (use that task_history_snoc [OF history_task [OF assms(1)] assms] in \<open>auto split: if_splits\<close>)
  have "connection_history cid (es @ [e]) cn" if "sr_conns s' cid = Some cn" for cid cn
    using assms(2)
  proof cases
    case (accept ip)
    with that n(2) connection_history_snoc [OF history_conn [OF assms(1)]] assms(1) show ?thesis
      by (auto simp: connection_history_def history_ok_def nth_append split: if_splits)
  next
    case (peek cid' cn' arrived p)
    with that peek_of_new [of checks N A s cid' arrived s' es] assms history_conn [OF assms(1)]
      connection_history_snoc [OF history_conn [OF assms(1)]] show ?thesis
      by (auto simp: connection_history_def peeked_as_def split: if_splits)
  next
    case (handshake cid' cn' p)
    note h = connection_history_snoc [OF history_conn [OF assms(1)], of _ _ e]
    show ?thesis
    proof (cases "cid = cid'")
      case True
      with that handshake h [OF handshake(3)] show ?thesis by (auto simp: connection_history_def)
    qed (use that handshake h in auto)
  qed (use that connection_history_snoc [OF history_conn [OF assms(1)]] in \<open>auto split: if_splits\<close>)
  with n t show ?thesis unfolding history_ok_def by blast
qed

interpretation hist: trace_invariant "server_step checks N A" "\<lambda>_. True" "\<lambda>s. \<exists>st. s = listening st" "\<lambda>_. history_ok"
  for checks N A
  by unfold_locales (auto simp: history_step, auto simp: history_ok_def)

lemma run_history: "run_of (server_step checks N A) (listening st) es s \<Longrightarrow> history_ok es s"
  by (rule hist.inv_run) (auto simp: list_all_iff)

text \<open>
  C16: a request is judged by its own connection. In every interleaving, the task of a request has the
  address of the peer that its connection was accepted from, and the profile that the parser makes of the
  first bytes of that connection, which are read once, before the handshake; nothing of another
  connection gets into it.
\<close>

theorem request_of_its_connection:
  assumes "run_of (server_step checks N A) (listening st) es s" "sr_tasks s rid = Some (c, ph)"
  shows "RequestArrives (ca_conn c) rid (ca_env c) (ca_request c) \<in> set es \<and>
    ca_conn c < length (accepted_from es) \<and> ca_ip c = accepted_from es ! ca_conn c \<and>
    (\<exists>arrived. peeked_on (ca_conn c) es = [arrived] \<and> peek_profile arrived = Some (ca_tls c))"
  using history_task [OF run_history [OF assms(1)] assms(2)] by (simp add: task_history_def peeked_as_def)

lemma peeked_visit: "peeked_on 0 (visit ip arrived X req) = [arrived]"
  by (simp add: peeked_on_def visit_def List.map_filter_def numeral_eq_Suc)

lemma accepted_visit: "accepted_from (visit ip arrived X req) = [ip]"
  by (simp add: accepted_from_def visit_def List.map_filter_def numeral_eq_Suc)

theorem request_of_its_connection_witness:
  "\<exists>s c ph. run_of (server_step True cidr_lib list_quarantine) (listening plain_daemon)
       (visit (V4 198 51 100 7) None plain_env (plain_request None)) s \<and>
     sr_tasks s 0 = Some (c, ph) \<and> ca_ip c = V4 198 51 100 7"
proof -
  obtain s res sent where r: "run_of (server_step True cidr_lib list_quarantine) (listening plain_daemon)
       (visit (V4 198 51 100 7) None plain_env (plain_request None)) s"
    "sr_tasks s 0 = Some (\<lparr>ca_conn = 0, ca_env = plain_env, ca_request = plain_request None,
       ca_ip = V4 198 51 100 7, ca_tls = None\<rparr>, Finished res sent)"
    using run_visit [OF peek_nothing refl] by blast
  with request_of_its_connection [OF r] show ?thesis by (auto simp: accepted_visit)
qed

section \<open>A hello that is not a browser's\<close>

lemma peek_encoded:
  assumes "wf_hello h" "length (encode_hello h) \<le> 1024"
  shows "peek_profile (Some (encode_hello h @ rest)) = Some (Some (profile_of h))"
proof -
  have "take 1024 (encode_hello h @ rest) = encode_hello h @ take (1024 - length (encode_hello h)) rest"
    using assms(2) by simp
  moreover have "encode_hello h \<noteq> []" by (simp add: encode_hello_def Let_def)
  ultimately show ?thesis using parse_encoded [OF assms(1)] by (simp add: peek_profile_def Let_def)
qed

text \<open>The hello of a client that is no browser: no GREASE value among its suites and extensions.\<close>

definition no_grease :: "client_hello \<Rightarrow> bool" where
  "no_grease h \<longleftrightarrow> (\<forall>w \<in> set (ch_ciphers h) \<union> fst ` set (ch_extensions h). \<not> is_grease_u16 w)"

definition claims_browser :: "string \<Rightarrow> bool" where
  "claims_browser ua \<longleftrightarrow>
     (claims_chrome (trim ua) \<or> claims_edge (trim ua) \<or> claims_safari (trim ua)) \<and> \<not> search_spider (trim ua)"

lemma spoof_detected:
  assumes "no_grease h" "claims_browser ua"
  shows "spoof_reason (Some (profile_of h)) (Some ua) \<noteq> None"
proof -
  have "\<not> has_grease (profile_of h)"
    using assms(1) by (auto simp: profile_of_def no_grease_def list_ex_iff)
  with assms(2) show ?thesis
    by (auto simp: spoof_reason_def claims_browser_def verify_user_agent_coherence_def Let_def)
qed

lemma spoof_trapped:
  "spoof_reason tls ua \<noteq> None \<Longrightarrow> \<exists>reason. trap_of P path q ua tls = Some reason"
  by (auto simp: trap_of_def split: sum.split)


definition browser_request :: "(string \<times> string) list request" where
  "browser_request =
     \<lparr>rq_method = ''GET'', rq_uri_host = None, rq_path = ''/'', rq_query = None,
      rq_headers = [(''host'', ''a.example''), (''user-agent'', ''Mozilla/5.0 Chrome/120'')]\<rparr>"


end
