(* ===== verification/Server_Exchange.thy ===== *)
theory Server_Exchange
  imports Server_Bans
begin

text \<open>
  How far the tasks can influence each other: the answer to a request, and what is sent upstream for
  it, is what the handler gives for that request alone, but for one thing, the verdict of the shield and
  of the bot guard on a request that trips no trap.
\<close>

section \<open>The exchange of a request\<close>

definition trap_response :: "('h, 's, 'c, 'n) call \<Rightarrow> 'h response" where
  "trap_response c =
     (case px_inspect (pe_phylax (ca_env c)) (rq_path (ca_request c))
             (case rq_query (ca_request c) of Some q \<Rightarrow> q | None \<Rightarrow> []) of
        Inl threat \<Rightarrow> forbidden_payload_response (pe_http (ca_env c)) (description threat)
      | Inr _ \<Rightarrow> stealth_404_response (pe_http (ca_env c)))"

text \<open>The verdicts the defence can come to, with the settings of a state.\<close>

definition verdict_possible ::
    "('s, 'n, 'q) proxy_state \<Rightarrow> ('h, 's, 'c, 'n) call \<Rightarrow> 'h response option \<Rightarrow> bool" where
  "verdict_possible st c v \<longleftrightarrow>
     (if \<not> enable_defense (ps_security st) \<or> is_trusted (pe_net (ca_env c)) (ps_defense st) (ca_ip c) then v = None
      else if trapped_as (ca_env c) (ca_request c) (ca_ip c) (ca_tls c) \<noteq> None then v = Some (trap_response c)
      else v = None \<or> v = Some (stealth_404_response (pe_http (ca_env c))) \<or>
        (\<exists>category token. v = Some (forbidden_bot_response (pe_http (ca_env c)) category token)))"

text \<open>The answer and the requests sent upstream, given the verdict.\<close>

definition exchange ::
    "('s, 'n, 'q) proxy_state \<Rightarrow> ('h, 's, 'c, 'n) call \<Rightarrow> 'h response option \<Rightarrow>
     (string + 'h response) \<times> (socket_addr \<times> 'h request) list" where
  "exchange st c v =
     (let X = ca_env c; L = pe_http X; req = ca_request c in
      case validate_headers L (ps_framing_guard st) (rq_headers req) (rq_method req) of
        Inl violation \<Rightarrow> (Inr (public_response L violation), [])
      | Inr _ \<Rightarrow>
         (case try_serve_acme_challenge L (pe_fs X) (rq_path req) (ps_acme_webroot st) of
            Some res \<Rightarrow> (Inr (inject_response_security_headers L res (ps_security st)), [])
          | None \<Rightarrow>
             (case v of
                Some denial \<Rightarrow> (Inr (inject_response_security_headers L denial (ps_security st)), [])
              | None \<Rightarrow>
                  (let out = route_request X (sanitized L (ca_ip c) req) (fields_of L (ca_ip c) req) st
                   in (po_result out, po_sent out)))))"

lemma verdict_exists: "\<exists>v. verdict_possible st c v"
  by (rule exI [of _ "if \<not> enable_defense (ps_security st) \<or> is_trusted (pe_net (ca_env c)) (ps_defense st) (ca_ip c) then None
       else if trapped_as (ca_env c) (ca_request c) (ca_ip c) (ca_tls c) \<noteq> None then Some (trap_response c) else None"])
    (simp add: verdict_possible_def)

section \<open>What depends on the settings only\<close>

fun decided :: "'h phase \<Rightarrow> bool" where
  "decided Arrived = False"
| "decided Challenged = False"
| "decided Judged = False"
| "decided Shielded = False"
| "decided BotChecked = False"
| "decided _ = True"

lemma decided_step:
  assumes "decided ph" "settings_of st' = settings_of st"
  shows "fst (task_step c ph st') = fst (task_step c ph st) \<and> decided (fst (task_step c ph st))"
  using assms
  by (cases "(c, ph, st)" rule: task_step.cases)
    (auto simp: settings_of_def Let_def split: option.split)

lemma decided_run:
  "decided ph \<Longrightarrow> settings_of st' = settings_of st \<Longrightarrow> fst (run_task c ph st') = fst (run_task c ph st)"
proof (induction c ph st arbitrary: st' rule: run_task.induct)
  case (1 c ph st)
  show ?case
  proof (cases "steps_left ph = 0")
    case False
    have "settings_of (snd (task_step c ph st')) = settings_of (snd (task_step c ph st))"
      using 1(3) by (simp add: task_keeps_settings)
    with False 1(1) [OF False prod.collapse] decided_step [OF 1(2,3), of c] show ?thesis
      by (simp add: run_step case_prod_unfold)
  qed auto
qed

lemma decided_continue:
  assumes "decided ph" "settings_of st' = settings_of st"
  shows "fst (run_task c (fst (task_step c ph st')) st) = fst (run_task c ph st)"
proof (cases "steps_left ph = 0")
  case False
  have "fst (run_task c ph st) = fst (run_task c (fst (task_step c ph st)) (snd (task_step c ph st)))"
    by (simp add: run_step [OF False] case_prod_unfold)
  also have "\<dots> = fst (run_task c (fst (task_step c ph st)) st)"
    using decided_step [OF assms(1) refl] by (intro decided_run) (simp_all add: task_keeps_settings)
  finally show ?thesis using decided_step [OF assms, of c] by simp
qed auto

section \<open>Every task keeps to its exchange\<close>

definition cleared :: "('s, 'n, 'q) proxy_state \<Rightarrow> ('h, 's, 'c, 'n) call \<Rightarrow> bool" where
  "cleared st c \<longleftrightarrow>
     validate_headers (pe_http (ca_env c)) (ps_framing_guard st) (rq_headers (ca_request c)) (rq_method (ca_request c)) = Inr () \<and>
     try_serve_acme_challenge (pe_http (ca_env c)) (pe_fs (ca_env c)) (rq_path (ca_request c)) (ps_acme_webroot st) = None"

definition untrapped :: "('s, 'n, 'q) proxy_state \<Rightarrow> ('h, 's, 'c, 'n) call \<Rightarrow> bool" where
  "untrapped st c \<longleftrightarrow>
     enable_defense (ps_security st) \<and> \<not> is_trusted (pe_net (ca_env c)) (ps_defense st) (ca_ip c) \<and>
     trapped_as (ca_env c) (ca_request c) (ca_ip c) (ca_tls c) = None"

definition heads_for :: "('s, 'n, 'q) proxy_state \<Rightarrow> ('h, 's, 'c, 'n) call \<Rightarrow> 'h phase \<Rightarrow> bool" where
  "heads_for st c ph \<longleftrightarrow>
     (\<exists>v. verdict_possible st c v \<and> fst (run_task c ph st) = case_prod Finished (exchange st c v))"

fun on_course :: "('s, 'n, 'q) proxy_state \<Rightarrow> ('h, 's, 'c, 'n) call \<Rightarrow> 'h phase \<Rightarrow> bool" where
  "on_course st c Arrived = True"
| "on_course st c Challenged =
     (validate_headers (pe_http (ca_env c)) (ps_framing_guard st) (rq_headers (ca_request c)) (rq_method (ca_request c)) = Inr ())"
| "on_course st c Judged = (cleared st c \<and> enable_defense (ps_security st))"
| "on_course st c Shielded = (cleared st c \<and> untrapped st c)"
| "on_course st c BotChecked = (cleared st c \<and> untrapped st c)"
| "on_course st c ph = heads_for st c ph"

lemma on_course_decided: "decided ph \<Longrightarrow> on_course st c ph = heads_for st c ph"
  by (cases ph) simp_all

lemma heads_for_denial:
  assumes "cleared st c" "verdict_possible st c (Some d)"
  shows "heads_for st c (Trapping as d)" "heads_for st c (Convicted d)"
  using assms by (auto simp: heads_for_def cleared_def exchange_def Let_def run_Trapping run_Convicted)

lemma heads_for_route: "cleared st c \<Longrightarrow> verdict_possible st c None \<Longrightarrow> heads_for st c Routed"
  by (auto simp: heads_for_def cleared_def exchange_def Let_def run_Routed outcome_of_def)

lemma possible_untrapped:
  assumes "untrapped st c"
  shows "verdict_possible st c None" "verdict_possible st c (Some (stealth_404_response (pe_http (ca_env c))))"
    and "verdict_possible st c (Some (forbidden_bot_response (pe_http (ca_env c)) category token))"
  using assms by (auto simp: untrapped_def verdict_possible_def)

lemma judge_on_course:
  assumes "cleared st c" "enable_defense (ps_security st)" "ed_trusted_subnets ed = ed_trusted_subnets (ps_defense st)"
  shows "on_course st c (judge (ca_env c) (ca_ip c) (rq_path (ca_request c)) (rq_query (ca_request c))
    (header_str (pe_http (ca_env c)) (sanitize_ingress_headers (pe_http (ca_env c)) (rq_headers (ca_request c)) (ca_ip c)) ''user-agent'')
    (ca_tls c) ed)"
proof -
  have tr: "is_trusted (pe_net (ca_env c)) ed (ca_ip c) = is_trusted (pe_net (ca_env c)) (ps_defense st) (ca_ip c)"
    using assms(3) by (simp add: is_trusted_def)
  show ?thesis
    using assms(1,2) heads_for_denial(1) [OF assms(1)] heads_for_route [OF assms(1)]
    by (auto simp: judge_def tr Let_def verdict_possible_def trapped_as_def trap_of_def trap_response_def
        untrapped_def split: sum.split option.split)
qed

lemma on_course_step:
  assumes "on_course st c ph" "settings_of st' = settings_of st"
  shows "on_course st c (fst (task_step c ph st'))"
proof (cases "decided ph")
  case True
  with decided_step [OF True assms(2), of c] decided_continue [OF True assms(2), of c] assms(1)
  show ?thesis by (simp add: on_course_decided heads_for_def)
next
  case False
  have set: "ps_framing_guard st' = ps_framing_guard st" "ps_acme_webroot st' = ps_acme_webroot st"
    "ps_security st' = ps_security st" "ed_trusted_subnets (ps_defense st') = ed_trusted_subnets (ps_defense st)"
    using assms(2) by (simp_all add: settings_of_def)
  show ?thesis
  proof (cases ph)
    case Arrived
    then show ?thesis
      using verdict_exists [of st c] by (auto simp: heads_for_def exchange_def Let_def set split: sum.split)
  next
    case Challenged
    with assms(1) verdict_exists [of st c] heads_for_route [of st c] show ?thesis
      by (auto simp: heads_for_def exchange_def cleared_def verdict_possible_def Let_def set split: option.split)
  next
    case Judged
    with assms(1) judge_on_course [OF _ _ set(4), of c] show ?thesis by (simp add: Let_def fields_of_def)
  next
    case Shielded
    with assms(1) possible_untrapped(2) [of st c] heads_for_denial(1) [of st c] show ?thesis
      by (auto simp: Let_def case_prod_unfold split: option.split)
  next
    case BotChecked
    with assms(1) possible_untrapped [of st c] heads_for_denial(2) [of st c] heads_for_route [of st c] show ?thesis
      by (auto simp: Let_def split: bot_verdict.split)
  qed (use False in simp_all)
qed

text \<open>No step changes the settings.\<close>

lemma step_settings:
  assumes "server_step checks N A s e s'"
  shows "settings_of (sr_state s') = settings_of (sr_state s)"
  using assms
proof cases
  case (beside e st)
  from beside(4) show ?thesis using beside by cases auto
qed (simp_all add: task_keeps_settings)

interpretation course: trace_invariant "server_step checks N A" "\<lambda>_. True" "\<lambda>s. \<exists>st. s = listening st"
    "\<lambda>s0 _ s. settings_of (sr_state s) = settings_of (sr_state s0) \<and>
       (\<forall>rid c ph. sr_tasks s rid = Some (c, ph) \<longrightarrow> on_course (sr_state s0) c ph)"
  for checks N A
proof unfold_locales
  fix s0 es s e s'
  assume inv: "settings_of (sr_state s) = settings_of (sr_state s0) \<and>
      (\<forall>rid c ph. sr_tasks s rid = Some (c, ph) \<longrightarrow> on_course (sr_state s0) c ph)"
    and st: "server_step checks N A s e s'"
  have "on_course (sr_state s0) c ph" if "sr_tasks s' rid = Some (c, ph)" for rid c ph
    using task_origin [OF st that] inv on_course_step [of "sr_state s0" c _ "sr_state s"] by auto
  with inv step_settings [OF st]
  show "settings_of (sr_state s') = settings_of (sr_state s0) \<and>
      (\<forall>rid c ph. sr_tasks s' rid = Some (c, ph) \<longrightarrow> on_course (sr_state s0) c ph)" by simp
qed auto

lemma finished_exchange:
  assumes "run_of (server_step checks N A) (listening st) es s" "sr_tasks s rid = Some (c, Finished res sent)"
  shows "\<exists>v. verdict_possible st c v \<and> (res, sent) = exchange st c v"
proof -
  have "on_course st c (Finished res sent)"
    using course.inv_run [OF assms(1) exI [of _ st]] assms(2)
    by (auto simp: list_all_iff simp del: on_course.simps)
  then obtain v where "verdict_possible st c v" "Finished res sent = case_prod Finished (exchange st c v)"
    by (auto simp: heads_for_def)
  then show ?thesis by (cases "exchange st c v") auto
qed

text \<open>The handler by itself is such an exchange, with the verdict of its defence.\<close>

lemma verdict_of_defence:
  "verdict_possible st c (fst (defence_verdict (ca_env c) (ca_request c) (ca_ip c) (ca_tls c) st))"
  by (auto simp: verdict_possible_def defence_verdict_def evaluate_request_full_def trapped_as_def trap_of_def
      trap_response_def Let_def case_prod_unfold split: sum.split option.split bot_verdict.split)

lemma route_settings:
  fixes c :: "('h, 's, 'c, 'n) call"
  assumes "settings_of st' = settings_of st"
  shows "po_result (route_request (ca_env c) (sanitized (pe_http (ca_env c)) (ca_ip c) (ca_request c))
        (fields_of (pe_http (ca_env c)) (ca_ip c) (ca_request c)) st') =
      po_result (route_request (ca_env c) (sanitized (pe_http (ca_env c)) (ca_ip c) (ca_request c))
        (fields_of (pe_http (ca_env c)) (ca_ip c) (ca_request c)) st)"
    and "po_sent (route_request (ca_env c) (sanitized (pe_http (ca_env c)) (ca_ip c) (ca_request c))
        (fields_of (pe_http (ca_env c)) (ca_ip c) (ca_request c)) st') =
      po_sent (route_request (ca_env c) (sanitized (pe_http (ca_env c)) (ca_ip c) (ca_request c))
        (fields_of (pe_http (ca_env c)) (ca_ip c) (ca_request c)) st)"
  using decided_run [of Routed st' st c, OF _ assms] by (simp_all add: run_Routed outcome_of_def)

lemma handler_exchange:
  fixes c :: "('h, 's, 'c, 'n) call"
  shows "(let out = handle_proxy_request_with_tls (ca_env c) (ca_request c) (ca_ip c) (ca_tls c) st
      in (po_result out, po_sent out)) =
    exchange st c (fst (defence_verdict (ca_env c) (ca_request c) (ca_ip c) (ca_tls c) st))"
proof -
  let ?v = "defence_verdict (ca_env c) (ca_request c) (ca_ip c) (ca_tls c) st"
  have "settings_of (st\<lparr>ps_defense := snd ?v\<rparr>) = settings_of st"
    using verdict_keeps [of "ca_env c" "ca_request c" "ca_ip c" "ca_tls c" st] by (simp add: settings_of_def)
  note r = route_settings [OF this, of c]
  show ?thesis
    unfolding handle_eq exchange_def Let_def
    using r by (cases ?v) (auto split: sum.split option.split)
qed

text \<open>
  C3: the tasks do not influence each other's answers. Whatever the interleaving, the answer of a
  finished request and what was sent upstream for it are those of the handler with the settings of the
  start and with a verdict the defence can come to on this request: none when it is disabled or the peer
  is trusted, the trap's when the request trips one, and the shield's or the bot guard's otherwise, which
  is all that other requests can change. (The handler by itself is the case of its own verdict.)
\<close>

theorem answers_independent:
  assumes "run_of (server_step checks N A) (listening st) es s" "sr_tasks s rid = Some (c, Finished res sent)"
  shows "(\<exists>v. verdict_possible st c v \<and> (res, sent) = exchange st c v) \<and>
    (let out = handle_proxy_request_with_tls (ca_env c) (ca_request c) (ca_ip c) (ca_tls c) st;
         v = fst (defence_verdict (ca_env c) (ca_request c) (ca_ip c) (ca_tls c) st)
     in verdict_possible st c v \<and> (po_result out, po_sent out) = exchange st c v)"
  using finished_exchange [OF assms] verdict_of_defence [of st c] handler_exchange [of c st] by (simp add: Let_def)

theorem answers_independent_witness:
  "\<exists>s c res sent v. run_of (server_step True cidr_lib list_quarantine) (listening plain_daemon)
       (visit (V4 198 51 100 7) None plain_env (plain_request None)) s \<and>
     sr_tasks s 0 = Some (c, Finished res sent) \<and> (res, sent) = exchange plain_daemon c v"
proof -
  obtain s c res sent where r: "run_of (server_step True cidr_lib list_quarantine) (listening plain_daemon)
       (visit (V4 198 51 100 7) None plain_env (plain_request None)) s" "sr_tasks s 0 = Some (c, Finished res sent)"
    using run_visit [OF peek_nothing refl] by blast
  with answers_independent [OF r] show ?thesis by blast
qed

section \<open>What an upstream sees\<close>

text \<open>The request that reaches an upstream for a request of a client, and where it goes.\<close>

definition sent_as ::
    "('h, 's, 'c, 'n) call \<Rightarrow> ('s, 'n, 'q) proxy_state \<Rightarrow> socket_addr \<Rightarrow> 'h request \<Rightarrow> bool" where
  "sent_as c st addr r \<longleftrightarrow>
     (let L = pe_http (ca_env c); req = ca_request c; ip = ca_ip c in
      (rq_method r, rq_path r, rq_query r) = (rq_method req, rq_path req, rq_query req) \<and>
      (\<exists>t. resolve (ps_router st) (case request_host L req of Some h \<Rightarrow> h | None \<Rightarrow> []) = Some t \<and>
         target_address (ca_env c) t addr \<and>
         (\<forall>n. hm_get_all L (rq_headers r) n =
            (if lower n = ''host'' \<and> list_all value_byte (ut_primary_host t) then [ut_primary_host t]
             else if lower n = ''x-forwarded-for'' then [show_ip ip @ '', '' @ show_ip ip]
             else if lower n = ''x-real-ip'' then [show_ip ip]
             else if lower n = ''x-forwarded-proto'' then [''https'']
             else if lower n = ''via'' then [''1.1 Propylea-Boundary'']
             else if lower n \<in> {''x-forwarded-host'', ''x-client-ip'', ''cf-connecting-ip'', ''true-client-ip''}
             then [] else hm_get_all L (rq_headers req) n))))"

lemma route_sent_as:
  assumes "http_laws (pe_http (ca_env c))" "pe_hedging (ca_env c) \<longrightarrow> race_law (ca_env c)"
    and "(addr, r) \<in> set (po_sent (route_request (ca_env c) (sanitized (pe_http (ca_env c)) (ca_ip c) (ca_request c))
       (fields_of (pe_http (ca_env c)) (ca_ip c) (ca_request c)) st))"
  shows "sent_as c st addr r"
proof -
  obtain t where "resolve (ps_router st)
      (case request_host (pe_http (ca_env c)) (ca_request c) of Some h \<Rightarrow> h | None \<Rightarrow> []) = Some t"
    "target_address (ca_env c) t addr"
    "r = upstream_request (pe_http (ca_env c)) (ca_ip c) t (sanitized (pe_http (ca_env c)) (ca_ip c) (ca_request c))"
    using route_sent [OF assms(2,3)] sanitized_host [OF assms(1)] by auto
  then show ?thesis using upstream_headers [OF assms(1)] by (auto simp: sent_as_def Let_def)
qed

text \<open>
  C1: what reaches an upstream, in every interleaving. A request is sent upstream only when its framing is
  accepted, it is no ACME challenge, and, with the defence enabled and a peer that is not trusted, it trips
  no trap; it goes to an address of the route of its host, with the client's method, path and query, with
  the identity of the socket peer, whatever the client claims, and the other headers as they came.
\<close>

theorem upstream_clean_in_every_run:
  assumes "run_of (server_step checks N A) (listening st) es s" "sr_tasks s rid = Some (c, Finished res sent)"
    and "http_laws (pe_http (ca_env c))" "pe_hedging (ca_env c) \<longrightarrow> race_law (ca_env c)"
    and "(addr, r) \<in> set sent"
  shows "framing_ok (pe_http (ca_env c)) (ps_framing_guard st) (rq_headers (ca_request c)) \<and>
    try_serve_acme_challenge (pe_http (ca_env c)) (pe_fs (ca_env c)) (rq_path (ca_request c)) (ps_acme_webroot st) = None \<and>
    (enable_defense (ps_security st) \<and> \<not> is_trusted (pe_net (ca_env c)) (ps_defense st) (ca_ip c) \<longrightarrow>
       trapped_as (ca_env c) (ca_request c) (ca_ip c) (ca_tls c) = None) \<and>
    sent_as c st addr r"
proof -
  obtain v where v: "verdict_possible st c v" "(res, sent) = exchange st c v"
    using finished_exchange [OF assms(1,2)] by blast
  from v(2) assms(5) have cl: "cleared st c" and n: "v = None"
    and "(addr, r) \<in> set (po_sent (route_request (ca_env c) (sanitized (pe_http (ca_env c)) (ca_ip c) (ca_request c))
       (fields_of (pe_http (ca_env c)) (ca_ip c) (ca_request c)) st))"
    by (auto simp: exchange_def cleared_def Let_def split: sum.splits option.splits)
  moreover have "enable_defense (ps_security st) \<and> \<not> is_trusted (pe_net (ca_env c)) (ps_defense st) (ca_ip c) \<longrightarrow>
      trapped_as (ca_env c) (ca_request c) (ca_ip c) (ca_tls c) = None"
    using v(1) n by (auto simp: verdict_possible_def split: if_splits)
  ultimately show ?thesis
    using validate_ok [OF assms(3)] route_sent_as [OF assms(3,4)] by (auto simp: cleared_def)
qed

lemma plain_visit_sent:
  "po_sent (handle_proxy_request_with_tls plain_env (plain_request None) (V4 198 51 100 7) None
     (on_governor register_connection plain_daemon)) \<noteq> []"
  by code_simp

theorem upstream_clean_in_every_run_witness:
  "\<exists>s c res sent a r. run_of (server_step True cidr_lib list_quarantine) (listening plain_daemon)
       (visit (V4 198 51 100 7) None plain_env (plain_request None)) s \<and>
     sr_tasks s 0 = Some (c, Finished res sent) \<and> (a, r) \<in> set sent \<and> sent_as c plain_daemon a r"
proof -
  let ?out = "handle_proxy_request_with_tls plain_env (plain_request None) (V4 198 51 100 7) None
     (on_governor register_connection plain_daemon)"
  let ?c = "\<lparr>ca_conn = 0, ca_env = plain_env, ca_request = plain_request None, ca_ip = V4 198 51 100 7, ca_tls = None\<rparr>"
  obtain s where s: "run_of (server_step True cidr_lib list_quarantine) (listening plain_daemon)
       (visit (V4 198 51 100 7) None plain_env (plain_request None)) s"
    "sr_tasks s 0 = Some (?c, Finished (po_result ?out) (po_sent ?out))"
    using run_visit [OF peek_nothing refl] by blast
  obtain a r where "(a, r) \<in> set (po_sent ?out)"
    using plain_visit_sent list.set_intros(1) by (metis list.exhaust surj_pair)
  moreover have "http_laws (pe_http (ca_env ?c))" "\<not> pe_hedging (ca_env ?c)"
    by (simp_all add: assoc_http_laws) (simp add: plain_env_def)
  ultimately have "sent_as ?c plain_daemon a r"
    using upstream_clean_in_every_run [OF s] by blast
  with s \<open>(a, r) \<in> set (po_sent ?out)\<close> show ?thesis by blast
qed

end
