(* ===== verification/Server_Boot.thy ===== *)
theory Server_Boot
  imports Server_Bans Startup_Props
begin

text \<open>
  The HTTPS server from its start: \<open>run_https_proxy_server\<close> (\<open>src/proxy/mod.rs\<close>) with what \<open>run_serve\<close>
  (\<open>src/cli.rs\<close>) gives it, on the database that the last run has left.
\<close>

section \<open>The start\<close>

text \<open>The shared state is built once, before the first connection is accepted.\<close>

definition run_https_proxy_listener ::
    "('s, 'c) phylax_lib \<Rightarrow> 'n ipnet_lib \<Rightarrow> ('s, 'q, 'n) boot_env \<Rightarrow> propylea_config \<Rightarrow> resource_governor \<Rightarrow>
     telemetry_ring \<Rightarrow> ('h, 's, 'c, 'n, 'q) server" where
  "run_https_proxy_listener P N B config governor telemetry =
     listening (initial_proxy_state P N B config governor telemetry)"

text \<open>The bind, whose error ends the server.\<close>

definition run_https_proxy_server ::
    "(socket_addr \<Rightarrow> string + unit) \<Rightarrow> ('s, 'c) phylax_lib \<Rightarrow> 'n ipnet_lib \<Rightarrow> ('s, 'q, 'n) boot_env \<Rightarrow>
     socket_addr \<Rightarrow> propylea_config \<Rightarrow> resource_governor \<Rightarrow> telemetry_ring \<Rightarrow>
     string + ('h, 's, 'c, 'n, 'q) server" where
  "run_https_proxy_server bind_port P N B bind_addr config governor telemetry =
     (case bind_port bind_addr of
        Inl e \<Rightarrow> Inl e
      | Inr _ \<Rightarrow> Inr (run_https_proxy_listener P N B config governor telemetry))"

text \<open>The server as the daemon spawns it.\<close>

definition https_service ::
    "(socket_addr \<Rightarrow> string + unit) \<Rightarrow> ('s, 'c) phylax_lib \<Rightarrow> 'n ipnet_lib \<Rightarrow> ('s, 'q, 'n) boot_env \<Rightarrow>
     ('r, 'k) serving \<Rightarrow> string + ('h, 's, 'c, 'n, 'q) server" where
  "https_service bind_port P N B d =
     run_https_proxy_server bind_port P N B (pr_bind (sv_proxy d)) (pr_config (sv_proxy d)) (sv_governor d) (sv_telemetry d)"

lemma https_service_starts:
  "https_service bind_port P N B d = Inr s \<longleftrightarrow>
     (\<exists>u. bind_port (pr_bind (sv_proxy d)) = Inr u) \<and> s = listening (serving_state P N B d)"
  by (auto simp: https_service_def run_https_proxy_server_def run_https_proxy_listener_def serving_state_def
      split: sum.splits)

lemma boot_known:
  assumes "persist_quarantine (cfg_security (pr_config (sv_proxy d)))"
    and "boot_open B (resolved_quarantine_db (be_env B) (cfg_security (pr_config (sv_proxy d)))) = Inr db"
  shows "\<exists>qm. manager_of (serving_state P N B d) = Some qm \<and> daemon_db qm = db \<and> channel qm = [] \<and> receiver_alive qm"
  using boot_manager [OF assms, of P N]
  by (auto simp: manager_of_def serving_state_def initial_proxy_state_def rehydrate_with_timestamp_def new_manager_def
      split: sum.split)

lemma boot_well_formed:
  assumes "run_serve read toml T now p = Inr d"
    and "persist_quarantine (cfg_security (pr_config (sv_proxy d)))"
    and "boot_open B (resolved_quarantine_db (be_env B) (cfg_security (pr_config (sv_proxy d)))) = Inr db" "store_inv db"
  shows "well_formed (serving_state P N B d)"
proof -
  have "ring_records (sv_telemetry d) = []"
    using assms(1) by (auto simp: run_serve_def new_ring_def split: sum.splits)
  then have "ring_records (ps_telemetry (serving_state P N B d)) = []"
    by (simp add: serving_state_def initial_proxy_state_def)
  with boot_known [OF assms(2,3), of P N] assms(4) show ?thesis by (auto simp: well_formed_def)
qed

section \<open>The bans of the last run and the bans of this one\<close>

interpretation stays: trace_invariant "server_step checks N A" lifts_no_ban
    "\<lambda>s. server_ok s \<and> (\<exists>qm. manager_of (sr_state s) = Some qm \<and> K \<subseteq> active_set (daemon_db qm))"
    "\<lambda>_ _ s. server_ok s \<and> (\<exists>qm. manager_of (sr_state s) = Some qm \<and> K \<subseteq> active_set (daemon_db qm))"
  for checks N A K
proof unfold_locales
  fix s e s'
  assume s: "server_step checks N A s e s'" "lifts_no_ban e"
    "server_ok s \<and> (\<exists>qm. manager_of (sr_state s) = Some qm \<and> K \<subseteq> active_set (daemon_db qm))"
  then obtain qm where q: "manager_of (sr_state s) = Some qm" "K \<subseteq> active_set (daemon_db qm)" by blast
  from server_step_active [OF s(1,2) conjunct1 [OF s(3)] q(1)] q server_step_ok [OF s(1) lifts_no_ban_ok [OF s(2)]] s(3)
  show "server_ok s' \<and> (\<exists>qm. manager_of (sr_state s') = Some qm \<and> K \<subseteq> active_set (daemon_db qm))" by blast
qed simp_all

text \<open>
  C2: a daemon that starts protects what it serves. It starts from its configuration on the database of
  the last run; then in every run of its HTTPS server in which no operator lifts bans, in every state:
  the networks banned at the start are banned in the store, whether the writes of the worker succeed or
  fail; a request that tripped a trap and is answered was denied and never reached an upstream; and the
  network of its client is stored as banned, waits for the worker, or is one whose write has failed in
  this run, which the worker logs and drops. If every write succeeds there is none of the last kind.
  The clock is of this era and a query of the engine yields every row once (\<open>server_event_ok\<close>).
\<close>

theorem started_daemon_bans:
  assumes "run_serve read toml T now p = Inr d" "https_service bind_port P N B d = Inr s0"
    and "persist_quarantine (cfg_security (pr_config (sv_proxy d)))"
    and "boot_open B (resolved_quarantine_db (be_env B) (cfg_security (pr_config (sv_proxy d)))) = Inr db" "store_inv db"
    and "run_of (server_step checks N A) s0 es s" "list_all server_event_ok es" "\<not> list_ex lifting_event es"
  shows "\<exists>qm. manager_of (sr_state s) = Some qm \<and> active_set db \<subseteq> active_set (daemon_db qm) \<and>
    (\<forall>rid c res sent reason cidr. sr_tasks s rid = Some (c, Finished res sent) \<and> tripped (sr_state s0) c reason \<and>
         px_derive_cidr (pe_phylax (ca_env c)) (show_ip (ca_ip c)) = Some cidr \<longrightarrow>
       (\<exists>r. res = Inr r \<and> rs_status r \<in> {403, 404}) \<and> sent = [] \<and>
       cidr \<in> active_set (daemon_db qm) \<union> qr_cidr ` set (channel qm) \<union> writes_failed checks N A s0 es) \<and>
    (list_all worker_stores es \<longrightarrow> writes_failed checks N A s0 es = {})"
proof -
  have s0: "s0 = listening (serving_state P N B d)" using assms(2) by (simp add: https_service_starts)
  obtain qm0 where q0: "manager_of (serving_state P N B d) = Some qm0" "daemon_db qm0 = db" "receiver_alive qm0"
    using boot_known [OF assms(3,4)] by blast
  note wf = boot_well_formed [OF assms(1,3-5), of P N]
  have es: "list_all lifts_no_ban es" using assms(7,8) by (simp add: lifts_no_ban_list)
  have "server_ok s0 \<and> (\<exists>qm. manager_of (sr_state s0) = Some qm \<and> active_set db \<subseteq> active_set (daemon_db qm))"
    using wf q0 by (auto simp: s0)
  from stays.inv_run [OF assms(6) this es] obtain qm where
    q: "manager_of (sr_state s) = Some qm" "active_set db \<subseteq> active_set (daemon_db qm)" by blast
  have "(\<exists>r. res = Inr r \<and> rs_status r \<in> {403, 404}) \<and> sent = [] \<and>
      cidr \<in> active_set (daemon_db qm) \<union> qr_cidr ` set (channel qm) \<union> writes_failed checks N A s0 es"
    if "sr_tasks s rid = Some (c, Finished res sent)" "tripped (sr_state s0) c reason"
      "px_derive_cidr (pe_phylax (ca_env c)) (show_ip (ca_ip c)) = Some cidr" for rid c res sent reason cidr
    using finished_tripped [OF assms(6) [unfolded s0] es wf q0(1,3) that(1) _ that(3)] that(2) q(1)
    by (auto simp: s0 known_def)
  moreover have "list_all worker_stores es \<longrightarrow> writes_failed checks N A s0 es = {}"
    using none_failed [OF es _, of s0] wf s0 by simp
  ultimately show ?thesis using q by (intro exI [of _ qm]) blast
qed

lemma plain_service:
  assumes "d = \<lparr>sv_governor = g, sv_telemetry = ring, sv_redirect = rd,
      sv_proxy = \<lparr>pr_bind = a, pr_acceptor = acc, pr_config = default_config\<lparr>cfg_routes := rs\<rparr>\<rparr>\<rparr>"
  shows "tripped (serving_state word_guard cidr_lib (plain_boot db) d)
    \<lparr>ca_conn = 0, ca_env = plain_env, ca_request = plain_request (Some ''q=UNION''),
     ca_ip = V4 198 51 100 7, ca_tls = None\<rparr> ''sqli''"
proof -
  have "trusted_cidrs (cfg_security (default_config\<lparr>cfg_routes := rs\<rparr>)) = []"
    by (simp add: default_config_def default_security_def)
  then have "ed_trusted_subnets (fst (build_edge_defense word_guard cidr_lib (plain_boot db) (default_config\<lparr>cfg_routes := rs\<rparr>))) = []"
    by (auto simp: build_edge_defense_def Let_def new_edge_defense_def with_quarantine_manager_def trusted_subnets_def
        List.map_filter_def split: sum.split)
  then show ?thesis
    using plain_env_simps plain_request_accepted plain_trap(1) plain_daemon_simps(5)
    by (simp add: tripped_def assms serving_state_def initial_proxy_state_def is_trusted_def default_config_def)
qed

theorem started_daemon_bans_witness:
  "\<exists>d s0 s qm. run_serve (\<lambda>_. Inr []) (\<lambda>_. Inr (default_config\<lparr>cfg_routes := two_routes\<rparr>)) map_tls 0 ''propylea.toml'' = Inr d \<and>
     https_service (\<lambda>_. Inr ()) word_guard cidr_lib (plain_boot empty_db) d = Inr s0 \<and>
     run_of (server_step True cidr_lib list_quarantine) s0
       (visit (V4 198 51 100 7) None plain_env (plain_request (Some ''q=UNION''))) s \<and>
     manager_of (sr_state s) = Some qm \<and> ''198.51.100.0/24'' \<in> active_set (daemon_db qm) \<union> qr_cidr ` set (channel qm)"
proof -
  obtain d where d: "run_serve (\<lambda>_. Inr []) (\<lambda>_. Inr (default_config\<lparr>cfg_routes := two_routes\<rparr>)) map_tls 0 ''propylea.toml'' = Inr d"
    using two_routes_serve by blast
  then obtain g ring rd a acc where d': "d = \<lparr>sv_governor = g, sv_telemetry = ring, sv_redirect = rd,
      sv_proxy = \<lparr>pr_bind = a, pr_acceptor = acc, pr_config = default_config\<lparr>cfg_routes := two_routes\<rparr>\<rparr>\<rparr>"
    by (auto simp: run_serve_def two_routes_load split: sum.splits)
  let ?st = "serving_state word_guard cidr_lib (plain_boot empty_db) d"
  have s0: "https_service (\<lambda>_. Inr ()) word_guard cidr_lib (plain_boot empty_db) d = Inr (listening ?st)"
    by (simp add: https_service_starts)
  have p: "persist_quarantine (cfg_security (pr_config (sv_proxy d)))"
    by (simp add: d' default_config_def default_security_def)
  have b: "boot_open (plain_boot empty_db) x = Inr empty_db" for x
    by (simp add: plain_boot_def boot_open_def open_store_def init_schema_def)
  obtain s res sent where r: "run_of (server_step True cidr_lib list_quarantine) (listening ?st)
       (visit (V4 198 51 100 7) None plain_env (plain_request (Some ''q=UNION''))) s"
    "sr_tasks s 0 = Some (\<lparr>ca_conn = 0, ca_env = plain_env, ca_request = plain_request (Some ''q=UNION''),
       ca_ip = V4 198 51 100 7, ca_tls = None\<rparr>, Finished res sent)"
    using run_visit [OF peek_nothing refl] by blast
  have l: "list_all server_event_ok (visit (V4 198 51 100 7) None plain_env (plain_request (Some ''q=UNION'')))"
    "\<not> list_ex lifting_event (visit (V4 198 51 100 7) None plain_env (plain_request (Some ''q=UNION'')))"
    using visit_lifts by (simp_all add: lifts_no_ban_list [symmetric] visit_ok plain_env_simps) (simp add: visit_def list_ex_iff)
  have v: "list_all worker_stores (visit (V4 198 51 100 7) None plain_env (plain_request (Some ''q=UNION'')))" by simp
  have c: "px_derive_cidr (pe_phylax plain_env) (show_ip (V4 198 51 100 7)) = Some ''198.51.100.0/24''"
    using plain_trap(2) by (simp add: plain_env_simps)
  obtain qm where q: "manager_of (sr_state s) = Some qm"
    and bans: "\<forall>rid c res sent reason cidr. sr_tasks s rid = Some (c, Finished res sent) \<and>
         tripped (sr_state (listening ?st)) c reason \<and>
         px_derive_cidr (pe_phylax (ca_env c)) (show_ip (ca_ip c)) = Some cidr \<longrightarrow>
       (\<exists>r. res = Inr r \<and> rs_status r \<in> {403, 404}) \<and> sent = [] \<and>
       cidr \<in> active_set (daemon_db qm) \<union> qr_cidr ` set (channel qm) \<union>
         writes_failed True cidr_lib list_quarantine (listening ?st) (visit (V4 198 51 100 7) None plain_env (plain_request (Some ''q=UNION'')))"
    and none: "writes_failed True cidr_lib list_quarantine (listening ?st)
         (visit (V4 198 51 100 7) None plain_env (plain_request (Some ''q=UNION''))) = {}"
    using started_daemon_bans [OF d s0 p b store_inv_empty r(1) l] by (elim exE conjE) (simp add: v)
  have "tripped (sr_state (listening ?st)) \<lparr>ca_conn = 0, ca_env = plain_env, ca_request = plain_request (Some ''q=UNION''),
     ca_ip = V4 198 51 100 7, ca_tls = None\<rparr> ''sqli''" using plain_service [OF d'] by simp
  with bans [rule_format, of 0 _ res sent "''sqli''" "''198.51.100.0/24''"] r(2) c none
  have "''198.51.100.0/24'' \<in> active_set (daemon_db qm) \<union> qr_cidr ` set (channel qm)" by simp
  with d s0 r(1) q show ?thesis by blast
qed

end
