(* ===== verification/Hello_Cut.thy ===== *)
theory Hello_Cut
  imports Server
begin

text \<open>
  The peek reads the hello once, what has arrived of it and at most 1024 bytes, and the parser takes what
  it gets (\<open>src/tls_fingerprint.rs\<close>: ``Buffer may be partial, but we check what we have''). What the profile
  of a cut hello has to do with the profile of the whole.
\<close>

definition profile_le :: "client_tls_profile \<Rightarrow> client_tls_profile \<Rightarrow> bool" where
  "profile_le p q \<longleftrightarrow>
     cipher_count p = cipher_count q \<and> primary_ciphers p = primary_ciphers q \<and>
     (has_grease p \<longrightarrow> has_grease q) \<and> (offers_h2 p \<longrightarrow> offers_h2 q) \<and> (has_sni p \<longrightarrow> has_sni q)"

section \<open>The parser on a prefix\<close>

lemma buf_at_take: "buf_at (take n buf) i = Some b \<Longrightarrow> buf_at buf i = Some b"
  by (simp add: buf_at_def split: if_splits)

lemma read_u16_take: "read_u16 (take n buf) i = Some w \<Longrightarrow> read_u16 buf i = Some w"
  by (auto simp: read_u16_def bind_eq_Some_conv dest: buf_at_take)

lemma take_drop_take: "i + m \<le> n \<Longrightarrow> take m (drop i (take n buf)) = take m (drop i buf)"
  by (simp add: drop_take min_def)

text \<open>The flags of the loop over the extensions are only ever set.\<close>

lemma ext_loop_grows:
  assumes "ext_loop buf e idx (g, h, s) = Some (g', h', s')" "e \<le> length buf"
  shows "(g \<longrightarrow> g') \<and> (h \<longrightarrow> h') \<and> (s \<longrightarrow> s')"
  using assms
proof (induction buf e idx "(g, h, s)" arbitrary: g h s rule: ext_loop.induct)
  case (1 buf e idx g h s)
  show ?case
  proof (cases "idx + 4 \<le> e")
    case False
    with 1(2) show ?thesis by (subst (asm) ext_loop.simps) simp
  next
    case True
    then obtain ty w where r: "read_u16 buf idx = Some ty" "read_u16 buf (idx + 2) = Some w"
      using 1(3) read_u16_total [of idx buf] read_u16_total [of "idx + 2" buf] by auto
    note b = ext_body_eq [OF r 1(3), of g h s]
    have "ext_loop buf e (idx + 4 + unat w) (is_grease_u16 ty \<or> g,
        h \<or> (ty = 0x0010 \<and> idx + 4 + unat w \<le> e \<and> window_h2 (take (unat w) (drop (idx + 4) buf))), s \<or> ty = 0) =
        Some (g', h', s')"
      using 1(2) True b by (subst (asm) ext_loop.simps) simp
    from 1(1) [OF True b refl this 1(3)] show ?thesis by blast
  qed
qed

lemma ext_loop_prefix:
  assumes "ext_loop (take n buf) e idx (g, h, s) = Some (g1, h1, s1)" "ext_loop buf e' idx (g', h', s') = Some (g2, h2, s2)"
    and "e \<le> length (take n buf)" "e \<le> e'" "e' \<le> length buf"
    and "g \<longrightarrow> g'" "h \<longrightarrow> h'" "s \<longrightarrow> s'"
  shows "(g1 \<longrightarrow> g2) \<and> (h1 \<longrightarrow> h2) \<and> (s1 \<longrightarrow> s2)"
  using assms
proof (induction "take n buf" e idx "(g, h, s)" arbitrary: g h s g' h' s' rule: ext_loop.induct)
  case (1 e idx g h s)
  show ?case
  proof (cases "idx + 4 \<le> e")
    case False
    with 1(2) have "(g1, h1, s1) = (g, h, s)" by (subst (asm) ext_loop.simps) simp
    with ext_loop_grows [OF 1(3,6)] 1(7-9) show ?thesis by blast
  next
    case True
    then obtain ty w where r: "read_u16 (take n buf) idx = Some ty" "read_u16 (take n buf) (idx + 2) = Some w"
      using 1(4) read_u16_total [of idx "take n buf"] read_u16_total [of "idx + 2" "take n buf"] by auto
    let ?h = "h \<or> (ty = 0x0010 \<and> idx + 4 + unat w \<le> e \<and> window_h2 (take (unat w) (drop (idx + 4) (take n buf))))"
    let ?h' = "h' \<or> (ty = 0x0010 \<and> idx + 4 + unat w \<le> e' \<and> window_h2 (take (unat w) (drop (idx + 4) buf)))"
    note b = ext_body_eq [OF r 1(4), of g h s]
    note b' = ext_body_eq [OF read_u16_take [OF r(1)] read_u16_take [OF r(2)] 1(6), of g' h' s']
    have l: "ext_loop (take n buf) e (idx + 4 + unat w) (is_grease_u16 ty \<or> g, ?h, s \<or> ty = 0) = Some (g1, h1, s1)"
      using 1(2) True b by (subst (asm) ext_loop.simps) simp
    have l': "ext_loop buf e' (idx + 4 + unat w) (is_grease_u16 ty \<or> g', ?h', s' \<or> ty = 0) = Some (g2, h2, s2)"
      using 1(3) True 1(5) b' by (subst (asm) ext_loop.simps) simp
    have "?h \<longrightarrow> ?h'"
      using 1(4,5,8) take_drop_take [of "idx + 4" "unat w" n buf] by auto
    with 1(1) [OF True b refl l l' 1(4-6)] 1(7-9) show ?thesis by blast
  qed
qed

lemma parse_tail_flags:
  assumes "parse_tail buf idx m g ps = Some (Some p)"
  shows "idx < length buf"
    and "read_u16 buf (idx + (1 + unat (buf ! idx))) = Some xl \<Longrightarrow> idx + (1 + unat (buf ! idx)) + 2 \<le> length buf \<Longrightarrow>
      ext_loop buf (min (idx + (1 + unat (buf ! idx)) + 2 + unat xl) (length buf)) (idx + (1 + unat (buf ! idx)) + 2)
        (g, False, False) = Some (has_grease p, offers_h2 p, has_sni p)"
    and "\<not> idx + (1 + unat (buf ! idx)) + 2 \<le> length buf \<Longrightarrow> has_grease p = g \<and> \<not> offers_h2 p \<and> \<not> has_sni p"
proof -
  show l: "idx < length buf" using assms by (auto simp: parse_tail_def split: if_splits)
  show "read_u16 buf (idx + (1 + unat (buf ! idx))) = Some xl \<Longrightarrow> idx + (1 + unat (buf ! idx)) + 2 \<le> length buf \<Longrightarrow>
      ext_loop buf (min (idx + (1 + unat (buf ! idx)) + 2 + unat xl) (length buf)) (idx + (1 + unat (buf ! idx)) + 2)
        (g, False, False) = Some (has_grease p, offers_h2 p, has_sni p)"
    using assms l by (auto simp: parse_tail_def Let_def bind_eq_Some_conv)
  show "\<not> idx + (1 + unat (buf ! idx)) + 2 \<le> length buf \<Longrightarrow> has_grease p = g \<and> \<not> offers_h2 p \<and> \<not> has_sni p"
    using assms l by (auto simp: parse_tail_def Let_def)
qed

lemma parse_tail_prefix:
  assumes "parse_tail (take n buf) idx m g ps = Some (Some p)" "parse_tail buf idx m g ps = Some (Some q)"
  shows "profile_le p q \<and> (g \<longrightarrow> has_grease p)"
proof -
  let ?buf = "take n buf" and ?i = "idx + (1 + unat (buf ! idx))"
  note p = parse_tail_flags [OF assms(1)] and q = parse_tail_flags [OF assms(2)]
  have same: "?buf ! idx = buf ! idx" using p(1) by simp
  have nums: "cipher_count p = cipher_count q" "primary_ciphers p = primary_ciphers q"
    using parse_tail_primary assms by metis+
  have gq: "g \<longrightarrow> has_grease q"
  proof (cases "?i + 2 \<le> length buf")
    case True
    then obtain xl where "read_u16 buf ?i = Some xl" using read_u16_total [of ?i buf] by auto
    from ext_loop_grows [OF q(2) [OF this True]] show ?thesis by simp
  qed (use q(3) in simp)
  show ?thesis
  proof (cases "?i + 2 \<le> length ?buf")
    case False
    with p(3) [unfolded same] gq nums show ?thesis by (simp add: profile_le_def)
  next
    case True
    then have big: "?i + 2 \<le> length buf" by simp
    obtain xl where x: "read_u16 ?buf ?i = Some xl" using True read_u16_total [of ?i ?buf] by auto
    note e1 = p(2) [unfolded same, OF x True] and e2 = q(2) [OF read_u16_take [OF x] big]
    have "min (?i + 2 + unat xl) (length ?buf) \<le> min (?i + 2 + unat xl) (length buf)" by simp
    from ext_loop_prefix [OF e1 e2 min.cobounded2 this min.cobounded2] ext_loop_grows [OF e1 min.cobounded2] nums show ?thesis by (simp add: profile_le_def)
  qed
qed

lemma parse_suites_parts:
  assumes "parse_suites buf idx = Some (Some p)"
  obtains cl g ps where "read_u16 buf idx = Some cl" "idx + 2 + unat cl \<le> length buf"
    "cipher_loop (take (unat cl) (drop (idx + 2) buf)) False [] = (g, ps)"
    "parse_tail buf (idx + 2 + unat cl) (unat cl) g ps = Some (Some p)"
proof -
  have l: "idx + 2 \<le> length buf" using assms by (auto simp: parse_suites_def split: if_splits)
  then obtain cl where cl: "read_u16 buf idx = Some cl" using read_u16_total [of idx buf] by auto
  obtain g ps where "cipher_loop (take (unat cl) (drop (idx + 2) buf)) False [] = (g, ps)" by fastforce
  with that [OF cl] assms show thesis by (auto simp: parse_suites_eq [OF cl l] not_less split: if_splits)
qed

lemma parse_suites_prefix:
  assumes "parse_suites (take n buf) idx = Some (Some p)" "parse_suites buf idx = Some (Some q)"
  shows "profile_le p q \<and>
    (\<forall>cl. read_u16 buf idx = Some cl \<longrightarrow> fst (cipher_loop (take (unat cl) (drop (idx + 2) buf)) False []) \<longrightarrow> has_grease p)"
proof -
  obtain cl g ps where p: "read_u16 (take n buf) idx = Some cl" "idx + 2 + unat cl \<le> length (take n buf)"
    "cipher_loop (take (unat cl) (drop (idx + 2) (take n buf))) False [] = (g, ps)"
    "parse_tail (take n buf) (idx + 2 + unat cl) (unat cl) g ps = Some (Some p)"
    using parse_suites_parts [OF assms(1)] .
  obtain cl' g' ps' where q: "read_u16 buf idx = Some cl'"
    "cipher_loop (take (unat cl') (drop (idx + 2) buf)) False [] = (g', ps')"
    "parse_tail buf (idx + 2 + unat cl') (unat cl') g' ps' = Some (Some q)"
    using parse_suites_parts [OF assms(2)] .
  have cl: "cl' = cl" using read_u16_take [OF p(1)] q(1) by simp
  have "take (unat cl) (drop (idx + 2) (take n buf)) = take (unat cl) (drop (idx + 2) buf)"
    using p(2) by (intro take_drop_take) simp
  with p(3) q(2) cl have "(g', ps') = (g, ps)" by simp
  with parse_tail_prefix [OF p(4), of q] q cl show ?thesis by simp
qed

lemma parse_at_suites:
  assumes "parse_client_hello buf = Some (Some p)"
  shows "44 \<le> length buf" "parse_suites buf (44 + unat (buf ! 43)) = Some (Some p)"
  using assms by (auto simp: parse_client_hello_eq split: if_splits)

lemma nth_take_43: "parse_client_hello (take n buf) = Some (Some p) \<Longrightarrow> take n buf ! 43 = buf ! 43"
  using parse_at_suites(1) [of "take n buf" p] by simp

lemma parse_prefix:
  assumes "parse_client_hello (take n buf) = Some (Some p)" "parse_client_hello buf = Some (Some q)"
  shows "profile_le p q"
  using parse_suites_prefix [OF parse_at_suites(2) [OF assms(1), simplified nth_take_43 [OF assms(1)]]
      parse_at_suites(2) [OF assms(2)]] by blast

section \<open>The verdict on a cut hello\<close>

lemma peek_take:
  "peek_profile (Some (take n buf)) = Some (Some p) \<Longrightarrow> parse_client_hello (take (min 1024 n) buf) = Some (Some p)"
  by (simp add: peek_profile_def Let_def split: if_splits)

lemma cut_profile:
  assumes "wf_hello c" "parse_client_hello (take n (encode_hello c @ rest)) = Some (Some p)"
  shows "profile_le p (profile_of c) \<and> (list_ex is_grease_u16 (ch_ciphers c) \<longrightarrow> has_grease p)"
proof -
  let ?buf = "encode_hello c @ rest"
  have q: "parse_client_hello ?buf = Some (Some (profile_of c))" by (rule parse_encoded [OF assms(1)])
  obtain pre :: "u8 list" where i: "length pre = 44 + unat (?buf ! 43)"
    and r: "read_u16 ?buf (length pre) = Some (of_nat (2 * length (ch_ciphers c)))"
    and t: "take (2 * length (ch_ciphers c)) (drop (length pre + 2) ?buf) = concat (map u16_bytes (ch_ciphers c))"
    using suites_encoded [OF assms(1), of rest] by metis
  have w: "2 * length (ch_ciphers c) < 65536" using assms(1) by (simp add: wf_hello_def)
  have "parse_suites (take n ?buf) (length pre) = Some (Some p)"
    using parse_at_suites(2) [OF assms(2)] nth_take_43 [OF assms(2)] i by simp
  moreover have "parse_suites ?buf (length pre) = Some (Some (profile_of c))"
    using parse_at_suites(2) [OF q] i by simp
  ultimately have "profile_le p (profile_of c) \<and>
      (fst (cipher_loop (take (unat (of_nat (2 * length (ch_ciphers c)) :: u16)) (drop (length pre + 2) ?buf)) False []) \<longrightarrow>
       has_grease p)"
    using parse_suites_prefix r by blast
  then show ?thesis unfolding unat_len [OF w] t cipher_loop_encoded by simp
qed

lemma spoofed_mono:
  "profile_le p q \<Longrightarrow> verify_user_agent_coherence q ua \<noteq> Coherent \<Longrightarrow> verify_user_agent_coherence p ua \<noteq> Coherent"
  by (cases ua) (auto simp: profile_le_def coherent_iff verify_user_agent_coherence_def [of _ None])



text \<open>A browser whose only GREASE value is an extension, and a cut before it.\<close>

definition sparse_hello :: client_hello where
  "sparse_hello = \<lparr>ch_version = [3, 3], ch_random = replicate 32 7, ch_session = [], ch_ciphers = [0x1301, 0x1302],
     ch_compression = [0], ch_extensions = [(0x0a0a, []), (0x0010, [0, 3, 2, 0x68, 0x32])]\<rparr>"

lemma cut_accuses_browser:
  "(case peek_profile (Some (encode_hello sparse_hello)) of
      Some (Some p) \<Rightarrow> verify_user_agent_coherence p (Some ''Chrome/120'') = Coherent | _ \<Rightarrow> False) \<and>
   (case peek_profile (Some (take 54 (encode_hello sparse_hello))) of
      Some (Some p) \<Rightarrow> verify_user_agent_coherence p (Some ''Chrome/120'') \<noteq> Coherent | _ \<Rightarrow> False)"
  by code_simp

text \<open>A client that holds back all but a few bytes until the peek is over has no profile, and no check.\<close>

lemma slow_hello_unchecked: "n \<le> 43 \<Longrightarrow> peek_profile (Some (take n bytes)) = Some None"
  by (auto simp: peek_profile_def parse_client_hello_eq Let_def min_def)

end
