(* ===== verification/Listeners.thy ===== *)
theory Listeners
  imports Server Crucible
begin

text \<open>
  The other accept loops: the control socket (\<open>IpcServer::run_loop\<close> in \<open>src/quarantine/ipc.rs\<close>), the plain
  port (\<open>run_http_redirect_listener\<close> in \<open>src/http_redirect.rs\<close>) and the crucible gate (\<open>run_crucible_gate\<close> in
  \<open>src/crucible.rs\<close>), each as a step relation over its connections. A failed accept changes nothing; a
  connection ends when its client or the system wants it, or its time is up.
\<close>

section \<open>The control socket\<close>

text \<open>A connection carries one line; a handler that panics ends its task alone.\<close>

datatype control_event =
    ControlAcceptError
  | ControlConnection "nat \<Rightarrow> sql_engine" "string + string" "string option" u64

inductive control_step ::
    "ipc_codec \<Rightarrow> bool \<Rightarrow> 'n ipnet_lib \<Rightarrow> ('q, 'n) phylax_quarantine \<Rightarrow> 'q daemon \<Rightarrow> control_event \<Rightarrow> 'q daemon \<Rightarrow> bool"
  for C checks N A where
  control_accept_error: "control_step C checks N A d ControlAcceptError d"
| control_connection: "handle_connection C checks E N A first_line write_error now d = Some (r, bytes, d') \<Longrightarrow>
     control_step C checks N A d (ControlConnection E first_line write_error now) d'"
| control_panics: "handle_connection C checks E N A first_line write_error now d = None \<Longrightarrow>
     control_step C checks N A d (ControlConnection E first_line write_error now) d"

lemma handle_connection_dispatches:
  assumes "handle_connection C checks E N A first_line write_error now d = Some (r, bytes, d')"
  shows "d' = d \<or> (\<exists>req res. dispatch checks E N A req now d = Some (res, d'))"
  using assms
  by (cases "dispatch checks E N A (projr (dec_request C (projr first_line))) now d")
    (fastforce simp: handle_connection_def split: sum.splits if_splits option.splits)+

lemma set_manager_same: "manager_of st = Some d \<Longrightarrow> set_manager d st = st"
  by (simp add: set_manager_def manager_of_def)

lemma control_extends:
  fixes es :: "('h, 's, 'c, 'n) daemon_event list"
  assumes "control_step C checks N A d e d'" "run_of (daemon_step checks N A) st es (set_manager d st)" "list_all background es"
  shows "\<exists>es' :: ('h, 's, 'c, 'n) daemon_event list.
    run_of (daemon_step checks N A) st es' (set_manager d' st) \<and> list_all background es'"
  using assms(1)
proof cases
  case (control_connection E first_line write_error now r bytes)
  have twice: "set_manager d' (set_manager d st) = set_manager d' st" by (simp add: set_manager_def)
  from handle_connection_dispatches [OF control_connection(2)] show ?thesis
  proof (elim disjE exE)
    fix req res
    assume "dispatch checks E N A req now d = Some (res, d')"
    from run_of.run_snoc [OF assms(2) daemon_step.control [OF set_manager_simps(1) this]] assms(3) show ?thesis
      unfolding twice by (intro exI [of _ "es @ [ControlCall E req now]"]) simp
  qed (use assms(2,3) in auto)
qed (use assms(2,3) in auto)

interpretation ctl: trace_invariant "control_step C checks N A" "\<lambda>_. True" "\<lambda>_. True"
    "\<lambda>d _ d'. \<forall>st. manager_of st = Some d \<longrightarrow>
       (\<exists>es' :: ('h, 's, 'c, 'n) daemon_event list.
          run_of (daemon_step checks N A) st es' (set_manager d' st) \<and> list_all background es')"
  for C checks N A
  by unfold_locales (auto simp: set_manager_same intro: run_of.run_Nil exI [of _ "[]"], blast intro: control_extends)

text \<open>
  The control socket does what \<open>Daemon\<close> lets it do. Whatever connections its loop accepts, with
  whatever lines on them, legible or not, and whether their answers can be written or not, and though
  some handlers panic: a run of the loop is a sequence of calls of the control plane on the state that
  the requests and the worker share, so that the theorems about the daemon and the listener cover it.
\<close>

lemma control_loop_refines_daemon:
  assumes "run_of (control_step C checks N A) d es d'" "manager_of st = Some d"
  shows "\<exists>es' :: ('h, 's, 'c, 'n) daemon_event list.
    run_of (daemon_step checks N A) st es' (set_manager d' st) \<and> list_all background es'"
  using ctl.inv_run [OF assms(1), where 'h = 'h and 's = 's and 'c = 'c] assms(2) by (simp add: list_all_iff)

section \<open>The plain port\<close>

record 'h redirect_listener =
  rl_conns :: "nat set"
  rl_accepted :: nat
  rl_answers :: "('h request \<times> 'h response) list"

datatype 'h redirect_event =
    RedirectAcceptError
  | RedirectAccept
  | RedirectRequest nat acme_fs "'h request"
  | RedirectEnds nat

inductive redirect_step ::
    "'h http_lib \<Rightarrow> security_config \<Rightarrow> string option \<Rightarrow> 'h redirect_listener \<Rightarrow> 'h redirect_event \<Rightarrow>
     'h redirect_listener \<Rightarrow> bool" for L sec webroot where
  redirect_accept_error: "redirect_step L sec webroot s RedirectAcceptError s"
| redirect_accept: "redirect_step L sec webroot s RedirectAccept
     (s\<lparr>rl_conns := insert (rl_accepted s) (rl_conns s), rl_accepted := rl_accepted s + 1\<rparr>)"
| redirect_request: "cid \<in> rl_conns s \<Longrightarrow> redirect_step L sec webroot s (RedirectRequest cid fs req)
     (s\<lparr>rl_answers := rl_answers s @ [(req, redirect_handler L fs sec webroot req)]\<rparr>)"
| redirect_ends: "cid \<in> rl_conns s \<Longrightarrow> redirect_step L sec webroot s (RedirectEnds cid)
     (s\<lparr>rl_conns := rl_conns s - {cid}\<rparr>)"

text \<open>The bind, whose error ends the server.\<close>

definition run_http_redirect_server :: "(socket_addr \<Rightarrow> string + unit) \<Rightarrow> socket_addr \<Rightarrow> string + 'h redirect_listener" where
  "run_http_redirect_server bind_port bind_addr =
     (case bind_port bind_addr of
        Inl e \<Rightarrow> Inl e
      | Inr _ \<Rightarrow> Inr \<lparr>rl_conns = {}, rl_accepted = 0, rl_answers = []\<rparr>)"

interpretation plain: trace_invariant "redirect_step L sec webroot" "\<lambda>_. True" "\<lambda>s. rl_answers s = []"
    "\<lambda>_ _ s. \<forall>(req, res) \<in> set (rl_answers s). \<exists>fs. res = redirect_handler L fs sec webroot req"
  for L sec webroot
  by unfold_locales (auto elim!: redirect_step.cases)

lemma redirect_status: "rs_status (redirect_handler L fs sec webroot req) =
    (case try_serve_acme_challenge L fs (rq_path req) webroot of Some r \<Rightarrow> rs_status r | None \<Rightarrow> 301)"
  by (simp add: redirect_handler_def inject_response_security_headers_def Let_def split: option.split)

text \<open>The plain port never serves: outside the challenge prefix every answer of a run is the redirect.\<close>

lemma plain_port_redirects:
  assumes "run_http_redirect_server bind_port addr = Inr s0" "run_of (redirect_step L sec webroot) s0 es s"
    and "(req, res) \<in> set (rl_answers s)" "\<not> starts_with (rq_path req) acme_challenge_prefix"
  shows "rs_status res = 301"
proof -
  have "rl_answers s0 = []" using assms(1) by (auto simp: run_http_redirect_server_def split: sum.splits)
  from plain.inv_run [OF assms(2) this] assms(3) obtain fs where "res = redirect_handler L fs sec webroot req"
    by (auto simp: list_all_iff)
  with assms(4) show ?thesis by (simp add: redirect_status try_serve_acme_challenge_def)
qed

section \<open>The crucible gate\<close>

record 'q gate =
  gt_ctx :: "'q gate_context"
  gt_conns :: "nat \<rightharpoonup> ip_addr"
  gt_accepted :: nat

datatype 'h gate_event =
    GateAcceptError
  | GateAccept ip_addr
  | GateRequest nat "'h request" sql_engine u64
  | GateEnds nat

text \<open>The connection ends when it is served or after its thirty seconds; the handler of a request does not wait.\<close>

inductive gate_step ::
    "'h http_lib \<Rightarrow> ('q, 'c) crucible_lib \<Rightarrow> 'q gate \<Rightarrow> 'h gate_event \<Rightarrow> 'q gate \<Rightarrow> bool" for L K where
  gate_accept_error: "gate_step L K s GateAcceptError s"
| gate_accept: "gate_step L K s (GateAccept ip)
     (s\<lparr>gt_conns := (gt_conns s)(gt_accepted s \<mapsto> ip), gt_accepted := gt_accepted s + 1\<rparr>)"
| gate_request: "gt_conns s cid = Some ip \<Longrightarrow> gate_step L K s (GateRequest cid req E now)
     (s\<lparr>gt_ctx := snd (handle_crucible_request L K E now ip req (gt_ctx s))\<rparr>)"
| gate_ends: "gt_conns s cid = Some ip \<Longrightarrow> gate_step L K s (GateEnds cid) (s\<lparr>gt_conns := (gt_conns s)(cid := None)\<rparr>)"

definition gate_listening :: "'q gate_context \<Rightarrow> 'q gate" where
  "gate_listening ctx = \<lparr>gt_ctx = ctx, gt_conns = Map.empty, gt_accepted = 0\<rparr>"

text \<open>Every ban of the store has expired at a time.\<close>

definition expired_by :: "u64 \<Rightarrow> quarantine_db \<Rightarrow> bool" where
  "expired_by t db \<longleftrightarrow> (\<forall>r \<in> set (db_subnets db). row_expires_at r \<le> uint t)"

lemma record_ban_expired:
  assumes "expired_by t db" "qr_expires_at rec \<le> t"
  shows "expired_by t (snd (record_ban E rec db))"
proof (cases rule: record_ban_cases [of E rec db])
  case (ok row)
  have "row_expires_at row \<le> uint t"
    using bind_record_fields [OF ok(1)] assms(2) by (simp add: word_le_def)
  with ok assms(1) show ?thesis
    by (auto simp: expired_by_def banned_db_def append_audit_subnets upsert_row_def merge_row_def)
qed (use assms(1) in simp)

lemma gate_request_expired:
  assumes "expired_by t (gc_store ctx)" "3604 * 1000 \<le> unat now" "now \<le> t"
  shows "expired_by t (gc_store (snd (handle_crucible_request L K E now ip req ctx)))"
proof -
  obtain quarantined q where k: "ck_is_quarantined K (gc_quarantine ctx) (show_ip ip) now = (quarantined, q)" by fastforce
  have "qr_expires_at (gate_record K ip reason ua (now div 1000)) \<le> t" for reason ua
    using seconds_are_past [OF assms(2)] assms(3) by simp
  then have b: "expired_by t (gc_store (gate_ban K E ip reason ua now (ctx\<lparr>gc_quarantine := q\<rparr>)))" for reason ua
    using record_ban_expired [OF assms(1)] by (simp add: gate_ban_def Let_def)
  show ?thesis
    using assms(1) b
    by (auto simp: handle_crucible_request_def k Let_def split: sum.split bot_verdict.split)
qed

fun gate_clock :: "u64 \<Rightarrow> 'h gate_event \<Rightarrow> bool" where
  "gate_clock t (GateRequest cid req E now) = (3604 * 1000 \<le> unat now \<and> now \<le> t)"
| "gate_clock t _ = True"

interpretation gate_loop: trace_invariant "gate_step L K" "gate_clock t" "\<lambda>s. expired_by t (gc_store (gt_ctx s))"
    "\<lambda>_ _ s. expired_by t (gc_store (gt_ctx s))"
  for L K t
  by unfold_locales (auto elim!: gate_step.cases simp: gate_request_expired)

text \<open>
  C27: the gate bans nobody. It runs on a store without a ban in force, a fresh one for example; whatever
  clients attack it, in whatever order, with statements failing or not: at the time of the last request
  and at any later one the query for active bans on its store yields no ban at all, since the gate writes
  seconds where the store counts milliseconds.
\<close>

theorem gate_store_never_active:
  assumes "run_of (gate_step L K) (gate_listening ctx) es s" "expired_by t (gc_store ctx)"
    and "list_all (gate_clock t) es"
    and "engine_laws E" "get_active_bans E t (gc_store (gt_ctx s)) = Inr recs"
  shows "recs = []"
proof -
  have "expired_by t (gc_store (gt_ctx s))"
    by (rule gate_loop.inv_run [OF assms(1) _ assms(3)]) (simp add: gate_listening_def assms(2))
  then have "set recs = {}"
    unfolding active_bans_set [OF assms(4,5)] by (fastforce simp: expired_by_def)
  then show ?thesis by simp
qed

lemma gate_Cons:
  "gate_step L K s e s' \<Longrightarrow> run_of (gate_step L K) s' es s'' \<Longrightarrow> run_of (gate_step L K) s (e # es) s''"
  by (rule run_Cons)

theorem gate_store_never_active_witness:
  "\<exists>s recs. run_of (gate_step assoc_http decoy_lib) (gate_listening \<lparr>gc_quarantine = [], gc_store = empty_db\<rparr>)
       [GateAccept (V4 198 51 100 7), GateRequest 0 decoy_request plain_engine 1700000000000] s \<and>
     active_set (gc_store (gt_ctx s)) = {gate_cidr decoy_lib (V4 198 51 100 7)} \<and>
     get_active_bans plain_engine 1700000000000 (gc_store (gt_ctx s)) = Inr recs \<and> recs = []"
proof -
  let ?s0 = "gate_listening \<lparr>gc_quarantine = [], gc_store = empty_db\<rparr> :: string list gate"
  let ?s1 = "?s0\<lparr>gt_conns := (gt_conns ?s0)(gt_accepted ?s0 \<mapsto> V4 198 51 100 7), gt_accepted := gt_accepted ?s0 + 1\<rparr>"
  let ?h = "handle_crucible_request assoc_http decoy_lib plain_engine 1700000000000 (V4 198 51 100 7) decoy_request"
  let ?s2 = "?s1\<lparr>gt_ctx := snd (?h (gt_ctx ?s1))\<rparr>"
  have "gate_step assoc_http decoy_lib ?s1 (GateRequest 0 decoy_request plain_engine 1700000000000) ?s2"
    by (rule gate_step.gate_request) (simp add: gate_listening_def)
  then have "run_of (gate_step assoc_http decoy_lib) ?s1 [GateRequest 0 decoy_request plain_engine 1700000000000] ?s2"
    by (rule gate_Cons [OF _ run_of.run_Nil])
  then have r: "run_of (gate_step assoc_http decoy_lib) ?s0
       [GateAccept (V4 198 51 100 7), GateRequest 0 decoy_request plain_engine 1700000000000] ?s2"
    by (rule gate_Cons [OF gate_step.gate_accept])
  obtain recs where g: "get_active_bans plain_engine 1700000000000 (gc_store (gt_ctx ?s2)) = Inr recs"
    using get_active_bans_works [of plain_engine 1700000000000 "gc_store (gt_ctx ?s2)"] by auto
  obtain reason ua where "snd (?h \<lparr>gc_quarantine = [], gc_store = empty_db\<rparr>) =
      gate_ban decoy_lib plain_engine (V4 198 51 100 7) reason ua 1700000000000 \<lparr>gc_quarantine = [], gc_store = empty_db\<rparr>"
    using handle_crucible_cases(3) [of decoy_lib "\<lparr>gc_quarantine = [], gc_store = empty_db\<rparr>" "V4 198 51 100 7"
        1700000000000 False "[]" assoc_http decoy_request "''honeypot_decoy_breach''" plain_engine] decoy_attack
    by auto
  then have "active_set (gc_store (gt_ctx ?s2)) = {gate_cidr decoy_lib (V4 198 51 100 7)}"
    using gate_ban_store(2) [of plain_engine "\<lparr>gc_quarantine = [], gc_store = empty_db\<rparr>" decoy_lib "V4 198 51 100 7" reason ua
        1700000000000] by (simp add: gate_listening_def store_inv_empty)
  moreover have "recs = []"
    by (rule gate_store_never_active [OF r _ _ _ g]) (simp_all add: expired_by_def empty_db_def)
  ultimately show ?thesis using r g by blast
qed

end
