(* ===== verification/Server_Log.thy ===== *)
theory Server_Log
  imports Server_Hello
begin

text \<open>
  What the telemetry of the listener tells: in every interleaving each of its records is that of a request
  which arrived, from the peer its connection was accepted from, with the secrets of its query blinded.
\<close>

section \<open>The records a task makes\<close>

text \<open>The record of a request: its method, its address and its path with the logged form of the query.\<close>

definition tells_of :: "('h, 's, 'c, 'n) call \<Rightarrow> telemetry_record \<Rightarrow> bool" where
  "tells_of c rec \<longleftrightarrow>
     tr_client_ip rec = show_ip (ca_ip c) \<and> tr_method rec = rq_method (ca_request c) \<and>
     tr_path rec = full_path_of (ca_request c)"

lemma ring_record_subset: "set (ring_records (ring_record b x)) \<subseteq> insert x (set (ring_records b))"
  by (auto simp: ring_record_def Let_def dest: list.set_sel(2) split: if_splits)
    (metis list.set_sel(2) tl_Nil empty_iff empty_set)+

lemma log_records:
  "set (ring_records (ps_telemetry (log_request (ca_env c) (fields_of (pe_http (ca_env c)) (ca_ip c) (ca_request c)) n u t st)))
     \<subseteq> set (ring_records (ps_telemetry st)) \<union> Collect (tells_of c)"
  using ring_record_subset by (fastforce simp: log_request_def tells_of_def)

lemma task_records:
  "set (ring_records (ps_telemetry (snd (task_step c ph st))))
     \<subseteq> set (ring_records (ps_telemetry st)) \<union> Collect (tells_of c)"
  using log_records [of c _ _ _ st]
  by (cases "(c, ph, st)" rule: task_step.cases)
    (auto simp: Let_def case_prod_unfold split: sum.split option.split bot_verdict.split)

lemma background_telemetry:
  "daemon_step checks N A st e st' \<Longrightarrow> background e \<Longrightarrow> ps_telemetry st' = ps_telemetry st"
  by (erule daemon_stepE) auto

section \<open>In every interleaving\<close>

definition log_ok ::
    "telemetry_record set \<Rightarrow> ('h, 's, 'c, 'n) server_event list \<Rightarrow> ('h, 's, 'c, 'n, 'q) server \<Rightarrow> bool" where
  "log_ok R es s \<longleftrightarrow>
     (\<forall>rec \<in> set (ring_records (ps_telemetry (sr_state s))) - R. \<exists>rid c. task_history es rid c \<and> tells_of c rec)"

lemma log_ok_step:
  assumes "history_ok es s" "log_ok R es s" "server_step checks N A s e s'"
  shows "log_ok R (es @ [e]) s'"
proof -
  note h = task_history_snoc [OF _ assms(1,3)]
  have old: "\<exists>rid c. task_history (es @ [e]) rid c \<and> tells_of c rec"
    if "rec \<in> set (ring_records (ps_telemetry (sr_state s))) - R" for rec
    using assms(2) that h unfolding log_ok_def by blast
  have "set (ring_records (ps_telemetry (sr_state s'))) \<subseteq> set (ring_records (ps_telemetry (sr_state s))) \<or>
    (\<exists>rid c ph. sr_tasks s rid = Some (c, ph) \<and>
       set (ring_records (ps_telemetry (sr_state s'))) \<subseteq> set (ring_records (ps_telemetry (sr_state s))) \<union> Collect (tells_of c))"
    using assms(3)
  proof cases
    case (task rid c ph)
    with task_records [of c ph "sr_state s"] show ?thesis by auto
  next
    case (beside e st)
    with background_telemetry [OF beside(4,3)] show ?thesis by simp
  qed simp_all
  then show ?thesis
  proof (elim disjE exE conjE)
    fix rid c ph
    assume c: "sr_tasks s rid = Some (c, ph)"
      "set (ring_records (ps_telemetry (sr_state s'))) \<subseteq> set (ring_records (ps_telemetry (sr_state s))) \<union> Collect (tells_of c)"
    with old h [OF history_task [OF assms(1) c(1)]] show ?thesis unfolding log_ok_def by blast
  qed (use old in \<open>auto simp: log_ok_def\<close>)
qed

interpretation logged: trace_invariant "server_step checks N A" "\<lambda>_. True"
    "\<lambda>s. \<exists>st. s = listening st \<and> R = set (ring_records (ps_telemetry st))" "\<lambda>_ es s. history_ok es s \<and> log_ok R es s"
  for checks N A R
  by unfold_locales (auto simp: history_step log_ok_step, auto simp: history_ok_def log_ok_def)

lemma full_path_blinded:
  assumes "list_all wf_param ps" "query_of ps = (case rq_query req of Some q \<Rightarrow> q | None \<Rightarrow> [])"
  shows "full_path_of req =
    rq_path req @ (if query_of (map blinded ps) = [] then [] else ''?'' @ query_of (map blinded ps))"
  using sanitize_query_of [OF assms(1)] assms(2) by (simp add: full_path_of_def Let_def)

text \<open>
  C17: the log of the listener keeps no secret of a query and misattributes no request. In every
  interleaving a record that was not there at the start is that of a request which arrived: with its method,
  with the address that its connection was accepted from, and with its path, followed by its query in which
  every parameter whose key contains one of the words of \<open>names_secret\<close> has the marker for its value.
\<close>

theorem log_blinds_queries:
  assumes "run_of (server_step checks N A) (listening st) es s"
    and "rec \<in> set (ring_records (ps_telemetry (sr_state s))) - set (ring_records (ps_telemetry st))"
  shows "\<exists>cid rid X req ps. RequestArrives cid rid X req \<in> set es \<and>
    cid < length (accepted_from es) \<and> tr_client_ip rec = show_ip (accepted_from es ! cid) \<and>
    tr_method rec = rq_method req \<and>
    list_all wf_param ps \<and> query_of ps = (case rq_query req of Some q \<Rightarrow> q | None \<Rightarrow> []) \<and>
    tr_path rec = rq_path req @ (if query_of (map blinded ps) = [] then [] else ''?'' @ query_of (map blinded ps))"
proof -
  let ?R = "set (ring_records (ps_telemetry st))"
  have "history_ok es s \<and> log_ok ?R es s"
    by (rule logged.inv_run [OF assms(1)]) (auto simp: list_all_iff)
  with assms(2) obtain rid c where c: "task_history es rid c" "tells_of c rec" unfolding log_ok_def by blast
  obtain ps where ps: "list_all wf_param ps" "query_of ps = (case rq_query (ca_request c) of Some q \<Rightarrow> q | None \<Rightarrow> [])"
    using query_parses by blast
  from c full_path_blinded [OF ps] ps show ?thesis
    unfolding task_history_def tells_of_def by metis
qed

lemma secret_logged:
  "map tr_path (ring_records (ps_telemetry (snd (((\<lambda>(ph, st). task_step \<lparr>ca_conn = 0, ca_env = plain_env,
      ca_request = plain_request (Some ''API_KEY=s''), ca_ip = V4 198 51 100 7, ca_tls = None\<rparr> ph st) ^^ 9)
      (Arrived, on_governor register_connection plain_daemon))))) = [''/?API_KEY=[REDACTED]'']"
  by code_simp

theorem log_blinds_queries_witness:
  "\<exists>s rec. run_of (server_step True cidr_lib list_quarantine) (listening plain_daemon)
       (visit (V4 198 51 100 7) None plain_env (plain_request (Some ''API_KEY=s''))) s \<and>
     rec \<in> set (ring_records (ps_telemetry (sr_state s))) \<and> tr_path rec = ''/?API_KEY=[REDACTED]'' \<and>
     tr_client_ip rec = show_ip (V4 198 51 100 7)"
proof -
  let ?c = "\<lparr>ca_conn = 0, ca_env = plain_env, ca_request = plain_request (Some ''API_KEY=s''), ca_ip = V4 198 51 100 7,
    ca_tls = None\<rparr>"
  let ?visit = "visit (V4 198 51 100 7) None plain_env (plain_request (Some ''API_KEY=s''))"
  obtain s ph where r: "run_of (server_step True cidr_lib list_quarantine) (listening plain_daemon)
      (arrival (V4 198 51 100 7) None plain_env (plain_request (Some ''API_KEY=s'')) @ replicate 9 (TaskRuns 0)) s"
    "(ph, sr_state s) = ((\<lambda>(ph, st). task_step ?c ph st) ^^ 9) (Arrived, on_governor register_connection plain_daemon)"
    using run_arrival [OF peek_nothing refl] by blast
  have v: "run_of (server_step True cidr_lib list_quarantine) (listening plain_daemon) ?visit s"
    using r(1) by (simp only: visit_def arrival_def)
  have "map tr_path (ring_records (ps_telemetry (sr_state s))) = [''/?API_KEY=[REDACTED]'']"
    using secret_logged arg_cong [OF r(2), of snd] by simp
  then obtain rec where rec: "rec \<in> set (ring_records (ps_telemetry (sr_state s)))" "tr_path rec = ''/?API_KEY=[REDACTED]''"
    by (auto simp: map_eq_Cons_conv)
  have "ring_records (ps_telemetry plain_daemon) = []"
    by (simp add: plain_daemon_def plain_proxy_def new_ring_def)
  then have "rec \<in> set (ring_records (ps_telemetry (sr_state s))) - set (ring_records (ps_telemetry plain_daemon))"
    using rec(1) by simp
  from log_blinds_queries [OF v this] have "tr_client_ip rec = show_ip (V4 198 51 100 7)"
    by (auto simp: accepted_visit)
  with v rec show ?thesis by blast
qed

end
