(* ===== verification/Server_Causes.thy ===== *)
theory Server_Causes
  imports Server_Hello
begin

text \<open>
  The converse of \<open>Server_Bans\<close>: every ban has a cause. A network gets into the store or the queue by a
  request of a client in it that trips a trap, or by the order of an operator; a client that does
  neither cannot get another banned by the way its requests interleave with others.
\<close>

section \<open>What adds bans to a store\<close>

lemma record_ban_adds:
  "qr_active rec \<Longrightarrow> active_set (snd (record_ban E rec db)) \<subseteq> insert (qr_cidr rec) (active_set db)"
  by (cases rule: record_ban_cases [of E rec db]) (auto simp: active_banned)

lemma unban_adds: "active_set (snd (unban E N target details now db)) \<subseteq> active_set db"
  by (cases rule: unban_cases [of E N target details now db]) (auto simp: active_unbanned)

lemma unban_all_adds: "active_set (snd (unban_all E details now db)) \<subseteq> active_set db"
  by (cases rule: unban_all_cases [of E details now db]) (auto simp: active_inactive active_set_iff)

text \<open>The networks an operator asks to ban.\<close>

fun ordered :: "'n ipnet_lib \<Rightarrow> ('q, 'n) phylax_quarantine \<Rightarrow> ipc_request \<Rightarrow> string set" where
  "ordered N A (Ban ts reason dur exact) =
     {net_show N (fst nt) | nt. \<exists>t \<in> set ts. ban_target N A exact (trim t) = Some nt}"
| "ordered N A _ = {}"

lemma ban_targets_adds:
  "active_set (daemon_db (snd (ban_targets E N A why now e exact ts d))) \<subseteq>
     active_set (daemon_db d) \<union> {net_show N (fst nt) | nt. \<exists>t \<in> set ts. ban_target N A exact (trim t) = Some nt}"
proof (induction ts arbitrary: E d)
  case (Cons t ts)
  show ?case
  proof (cases "if trim t = [] then None else ban_target N A exact (trim t)")
    case None
    then have "active_set (daemon_db (snd (ban_targets E N A why now e exact (t # ts) d))) =
        active_set (daemon_db (snd (ban_targets (\<lambda>i. E (Suc i)) N A why now e exact ts d)))"
      by (simp add: Let_def)
    with Cons [of "\<lambda>i. E (Suc i)" d] show ?thesis unfolding list.set by blast
  next
    case (Some nt)
    then have t: "ban_target N A exact (trim t) = Some nt" by (simp split: if_splits)
    let ?rec = "operator_record N why now e nt"
    let ?d = "d\<lparr>in_memory := aq_add_ban A (in_memory d) (fst nt) e, daemon_db := snd (record_ban (E 0) ?rec (daemon_db d))\<rparr>"
    have "active_set (daemon_db ?d) \<subseteq> insert (net_show N (fst nt)) (active_set (daemon_db d))"
      using record_ban_adds [of ?rec "E 0" "daemon_db d"] by (simp add: operator_record_def)
    moreover have "active_set (daemon_db (snd (ban_targets E N A why now e exact (t # ts) d))) =
        active_set (daemon_db (snd (ban_targets (\<lambda>i. E (Suc i)) N A why now e exact ts ?d)))"
      using Some by (simp add: Let_def case_prod_unfold)
    ultimately show ?thesis using Cons [of "\<lambda>i. E (Suc i)" ?d] t unfolding list.set by blast
  qed
qed simp

lemma unban_each_adds: "active_set (daemon_db (snd (unban_each E N A now ts d))) \<subseteq> active_set (daemon_db d)"
proof (induction ts arbitrary: E d)
  case (Cons t ts)
  let ?d = "d\<lparr>in_memory := snd (aq_unban A (in_memory d) t),
    daemon_db := snd (unban (E 0) N t ''Live IPC command'' now (daemon_db d))\<rparr>"
  from Cons [of "\<lambda>i. E (Suc i)" ?d] unban_adds [of "E 0" N t "''Live IPC command''" now "daemon_db d"]
  show ?case by (auto simp: case_prod_unfold Let_def)
qed simp

lemma dispatch_adds:
  assumes "dispatch checks E N A req now d = Some (res, d')"
  shows "known d' \<subseteq> known d \<union> ordered N A req"
proof -
  have "active_set (daemon_db d') \<subseteq> active_set (daemon_db d) \<union> ordered N A req"
  proof (cases req)
    case (Ban ts reason dur exact)
    then have "exec_ban checks E N A ts reason dur exact now d = Some (res, d')"
      using assms by (simp add: dispatch_def)
    then obtain why e where "d' = snd (ban_targets E N A why now e exact ts d)" using exec_ban_shape by blast
    with Ban ban_targets_adds [of E N A why now e exact ts d] show ?thesis by simp
  qed (use assms in \<open>auto simp: dispatch_def exec_unban_def case_prod_unfold Let_def
      dest!: subsetD [OF unban_each_adds] subsetD [OF unban_all_adds]\<close>)
  with dispatch_channel [OF assms] show ?thesis by (auto simp: known_def)
qed

lemma worker_adds:
  assumes "list_all persistable (channel qm)"
  shows "known (worker_step E qm) \<subseteq> known qm"
proof (cases "channel qm")
  case (Cons rec rest)
  with record_ban_adds [of rec E "daemon_db qm"] assms show ?thesis
    by (auto simp: known_def worker_step_def persistable_def)
qed (simp add: worker_step_def)

section \<open>What a task queues\<close>

text \<open>A task is in a phase only after the checks before it; one that will notify the manager has tripped a trap.\<close>

fun justified :: "('s, 'n, 'q) proxy_state \<Rightarrow> ('h, 's, 'c, 'n) call \<Rightarrow> 'h phase \<Rightarrow> bool" where
  "justified st c Challenged =
     (validate_headers (pe_http (ca_env c)) (ps_framing_guard st) (rq_headers (ca_request c)) (rq_method (ca_request c)) = Inr ())"
| "justified st c Judged =
     (validate_headers (pe_http (ca_env c)) (ps_framing_guard st) (rq_headers (ca_request c)) (rq_method (ca_request c)) = Inr () \<and>
      try_serve_acme_challenge (pe_http (ca_env c)) (pe_fs (ca_env c)) (rq_path (ca_request c)) (ps_acme_webroot st) = None \<and>
      enable_defense (ps_security st))"
| "justified st c (Trapping as res) = (\<forall>reason. NotifyManager reason \<in> set as \<longrightarrow> tripped st c reason)"
| "justified st c ph = True"

lemma justified_settings:
  assumes "settings_of st' = settings_of st"
  shows "justified st' c ph = justified st c ph"
proof -
  have "ps_framing_guard st' = ps_framing_guard st" "ps_acme_webroot st' = ps_acme_webroot st"
    "ps_security st' = ps_security st"
    using assms by (simp_all add: settings_of_def)
  then show ?thesis using tripped_settings [OF assms, of c] by (cases ph) simp_all
qed

lemma judge_justified:
  assumes "judge X ip p q ua tls ed = Trapping as res" "NotifyManager reason \<in> set as"
  shows "\<not> is_trusted (pe_net X) ed ip \<and> trap_of (pe_phylax X) p q ua tls = Some reason"
  using assms
  by (auto simp: judge_def trap_of_def Let_def split: sum.splits option.splits if_splits)

lemma judge_phases [simp]: "judge X ip p q ua tls ed \<noteq> Challenged" "judge X ip p q ua tls ed \<noteq> Judged"
  by (auto simp: judge_def Let_def split: sum.splits option.splits)

lemma task_justified:
  assumes "justified st c ph"
  shows "justified st c (fst (task_step c ph st))"
proof (cases "(c, ph, st)" rule: task_step.cases)
  case (3 c st)
  let ?ph = "fst (task_step c Judged st)"
  show ?thesis
  proof (cases ?ph)
    case (Trapping as res)
    with 3 assms show ?thesis
      by (auto simp: tripped_def trapped_as_def Let_def fields_of_def dest!: judge_justified)
  qed (use 3 in \<open>auto simp: Let_def\<close>)
qed (use assms in \<open>auto simp: Let_def case_prod_unfold split: sum.split option.split bot_verdict.split\<close>)

lemma task_adds:
  assumes "manager_of st = Some qm" "justified st c ph"
  shows "\<exists>qm'. manager_of (snd (task_step c ph st)) = Some qm' \<and>
    known qm' \<subseteq> known qm \<union>
      {cidr. px_derive_cidr (pe_phylax (ca_env c)) (show_ip (ca_ip c)) = Some cidr \<and> (\<exists>reason. tripped st c reason)}"
proof (cases "(c, ph, st)" rule: task_step.cases)
  case (5 c a as res st)
  then show ?thesis
    using assms
    by (cases a) (auto simp: manager_of_def Let_def notify_manager trap_record_def split: option.split)
next
  case (13 c rp st)
  then show ?thesis using assms by (auto simp: manager_of_def split: option.split)
qed (use assms in \<open>auto simp: manager_of_def Let_def case_prod_unfold split: sum.split option.split bot_verdict.split\<close>)

section \<open>In every interleaving\<close>

text \<open>The networks that a history gives a cause to ban: a request that trips a trap, or an order.\<close>

definition caused ::
    "'n ipnet_lib \<Rightarrow> ('q, 'n) phylax_quarantine \<Rightarrow> ('s, 'n, 'q) proxy_state \<Rightarrow>
     ('h, 's, 'c, 'n) server_event list \<Rightarrow> string set" where
  "caused N A st es =
     {cidr. \<exists>rid c reason. task_history es rid c \<and> tripped st c reason \<and>
        px_derive_cidr (pe_phylax (ca_env c)) (show_ip (ca_ip c)) = Some cidr} \<union>
     (\<Union>req \<in> {req. \<exists>E now. Background (ControlCall E req now) \<in> set es}. ordered N A req)"

definition justified_bans ::
    "'n ipnet_lib \<Rightarrow> ('q, 'n) phylax_quarantine \<Rightarrow> ('s, 'n, 'q) proxy_state \<Rightarrow> 'q daemon \<Rightarrow>
     ('h, 's, 'c, 'n) server_event list \<Rightarrow> ('h, 's, 'c, 'n, 'q) server \<Rightarrow> bool" where
  "justified_bans N A st qm es s \<longleftrightarrow>
     server_ok s \<and> history_ok es s \<and> settings_of (sr_state s) = settings_of st \<and>
     (\<forall>rid c ph. sr_tasks s rid = Some (c, ph) \<longrightarrow> justified st c ph) \<and>
     (\<exists>qm'. manager_of (sr_state s) = Some qm' \<and> known qm' \<subseteq> known qm \<union> caused N A st es)"

lemma caused_snoc:
  assumes "history_ok es s" "server_step checks N A s e s'"
  shows "caused N A st es \<subseteq> caused N A st (es @ [e])"
  using task_history_snoc [OF _ assms] by (fastforce simp: caused_def)

lemma server_step_adds:
  assumes "server_step checks N A s e s'" "server_ok s" "manager_of (sr_state s) = Some qm"
    and "\<forall>rid c ph. sr_tasks s rid = Some (c, ph) \<longrightarrow> justified (sr_state s) c ph"
  shows "\<exists>qm'. manager_of (sr_state s') = Some qm' \<and>
    (known qm' \<subseteq> known qm \<or>
     (\<exists>E req now. e = Background (ControlCall E req now) \<and> known qm' \<subseteq> known qm \<union> ordered N A req) \<or>
     (\<exists>rid c ph. sr_tasks s rid = Some (c, ph) \<and>
        known qm' \<subseteq> known qm \<union>
          {cidr. px_derive_cidr (pe_phylax (ca_env c)) (show_ip (ca_ip c)) = Some cidr \<and>
             (\<exists>reason. tripped (sr_state s) c reason)}))"
  using assms(1)
proof cases
  case (task rid c ph)
  with task_adds [OF assms(3) assms(4) [rule_format, OF task(3)]] show ?thesis by auto
next
  case (beside e st)
  have p: "list_all persistable (channel qm)" using assms(2,3) by (auto simp: server_ok_def well_formed_def)
  from beside(4) show ?thesis
  proof cases
    case (worker qm1 E)
    with assms(3) worker_adds [OF p, of E] beside show ?thesis by auto
  next
    case (control qm1 E req now res qm')
    with assms(3) dispatch_adds [OF control(4)] beside show ?thesis by auto
  qed (use assms(3) beside in auto)
qed (use assms(3) in auto)

lemma justified_bans_step:
  assumes "justified_bans N A st qm es s" "server_step checks N A s e s'" "server_event_ok e"
  shows "justified_bans N A st qm (es @ [e]) s'"
proof -
  have ok: "server_ok s" and h: "history_ok es s" and set: "settings_of (sr_state s) = settings_of st"
    and j: "\<And>rid c ph. sr_tasks s rid = Some (c, ph) \<Longrightarrow> justified st c ph"
    using assms(1) unfolding justified_bans_def by blast+
  obtain qm1 where q: "manager_of (sr_state s) = Some qm1" "known qm1 \<subseteq> known qm \<union> caused N A st es"
    using assms(1) unfolding justified_bans_def by blast
  have j': "\<forall>rid c ph. sr_tasks s rid = Some (c, ph) \<longrightarrow> justified (sr_state s) c ph"
    using j by (simp add: justified_settings [OF set])
  have ok': "server_ok s'" "settings_of (sr_state s') = settings_of st"
    using server_step_ok [OF assms(2,3) ok] set by (simp_all add: same_frame_def)
  have h': "history_ok (es @ [e]) s'" by (rule history_step [OF h assms(2)])
  note mono = caused_snoc [OF h assms(2), of st]
  have t: "justified st c ph'" if "sr_tasks s' rid = Some (c, ph')" for rid c ph'
    using task_origin [OF assms(2) that]
  proof (elim disjE exE conjE)
    fix ph
    assume o: "sr_tasks s rid = Some (c, ph)" "ph' = fst (task_step c ph (sr_state s))"
    from task_justified [OF j' [rule_format, OF o(1)]] justified_settings [OF set, of c ph'] o(2) show ?thesis by simp
  qed (use j in auto)
  obtain qm' where q': "manager_of (sr_state s') = Some qm'" and step:
    "known qm' \<subseteq> known qm1 \<or>
     (\<exists>E req now. e = Background (ControlCall E req now) \<and> known qm' \<subseteq> known qm1 \<union> ordered N A req) \<or>
     (\<exists>rid c ph. sr_tasks s rid = Some (c, ph) \<and>
        known qm' \<subseteq> known qm1 \<union>
          {cidr. px_derive_cidr (pe_phylax (ca_env c)) (show_ip (ca_ip c)) = Some cidr \<and>
             (\<exists>reason. tripped (sr_state s) c reason)})"
    using server_step_adds [OF assms(2) ok q(1) j'] by blast
  from step have "known qm' \<subseteq> known qm \<union> caused N A st (es @ [e])"
  proof (elim disjE exE conjE)
    fix E req now
    assume "e = Background (ControlCall E req now)" and k: "known qm' \<subseteq> known qm1 \<union> ordered N A req"
    then have "Background (ControlCall E req now) \<in> set (es @ [e])" by simp
    then have "ordered N A req \<subseteq> caused N A st (es @ [e])" unfolding caused_def by blast
    with k q(2) mono show ?thesis by blast
  next
    fix rid c ph
    assume c: "sr_tasks s rid = Some (c, ph)" and k: "known qm' \<subseteq> known qm1 \<union>
          {cidr. px_derive_cidr (pe_phylax (ca_env c)) (show_ip (ca_ip c)) = Some cidr \<and>
             (\<exists>reason. tripped (sr_state s) c reason)}"
    have "task_history (es @ [e]) rid c" by (rule task_history_snoc [OF history_task [OF h c] h assms(2)])
    then have "{cidr. px_derive_cidr (pe_phylax (ca_env c)) (show_ip (ca_ip c)) = Some cidr \<and>
             (\<exists>reason. tripped (sr_state s) c reason)} \<subseteq> caused N A st (es @ [e])"
      unfolding caused_def tripped_settings [OF set] by blast
    with k q(2) mono show ?thesis by blast
  qed (use q(2) mono in blast)
  with ok' h' t q' show ?thesis unfolding justified_bans_def by blast
qed

interpretation causes: trace_invariant "server_step checks N A" server_event_ok
    "\<lambda>s. s = listening st \<and> well_formed st \<and> manager_of st = Some qm" "\<lambda>_. justified_bans N A st qm"
  for checks N A st qm
  by unfold_locales (auto simp: justified_bans_step, auto simp: justified_bans_def history_ok_def)

text \<open>
  C6: no one is banned without a cause. Whatever happens on the listener, in whatever order: a network
  that is stored as banned or waits to be, and was not at the beginning, is the network of a client whose
  request, made on a connection of this run from that very address and judged by its own hello, passed
  the guard and tripped a trap; or an operator has named it, or an address in it, in an order to ban.
\<close>

theorem bans_have_causes:
  assumes "run_of (server_step checks N A) (listening st) es s" "list_all server_event_ok es"
    and "well_formed st" "manager_of st = Some qm"
  shows "\<exists>qm'. manager_of (sr_state s) = Some qm' \<and>
    (\<forall>cidr \<in> active_set (daemon_db qm') \<union> qr_cidr ` set (channel qm') - (active_set (daemon_db qm) \<union> qr_cidr ` set (channel qm)).
       (\<exists>rid c reason.
          RequestArrives (ca_conn c) rid (ca_env c) (ca_request c) \<in> set es \<and> accepted_from es ! ca_conn c = ca_ip c \<and>
          peeked_as (ca_conn c) es (ca_tls c) \<and> tripped st c reason \<and>
          px_derive_cidr (pe_phylax (ca_env c)) (show_ip (ca_ip c)) = Some cidr) \<or>
       (\<exists>E req now. Background (ControlCall E req now) \<in> set es \<and> cidr \<in> ordered N A req))"
proof -
  have "justified_bans N A st qm es s"
    by (rule causes.inv_run [OF assms(1) _ assms(2)]) (simp add: assms(3,4))
  then obtain qm' where q: "manager_of (sr_state s) = Some qm'" "known qm' \<subseteq> known qm \<union> caused N A st es"
    unfolding justified_bans_def by blast
  show ?thesis
  proof (intro exI conjI ballI)
    fix cidr
    assume "cidr \<in> active_set (daemon_db qm') \<union> qr_cidr ` set (channel qm') - (active_set (daemon_db qm) \<union> qr_cidr ` set (channel qm))"
    with q(2) have "cidr \<in> caused N A st es" unfolding known_def by blast
    then show "(\<exists>rid c reason.
          RequestArrives (ca_conn c) rid (ca_env c) (ca_request c) \<in> set es \<and> accepted_from es ! ca_conn c = ca_ip c \<and>
          peeked_as (ca_conn c) es (ca_tls c) \<and> tripped st c reason \<and>
          px_derive_cidr (pe_phylax (ca_env c)) (show_ip (ca_ip c)) = Some cidr) \<or>
       (\<exists>E req now. Background (ControlCall E req now) \<in> set es \<and> cidr \<in> ordered N A req)"
      unfolding caused_def task_history_def by (elim UnE CollectE exE conjE UN_E) metis+
  qed (rule q(1))
qed

theorem bans_have_causes_witness:
  "\<exists>s qm' rid c reason. run_of (server_step True cidr_lib list_quarantine) (listening plain_daemon)
       (visit (V4 198 51 100 7) None plain_env (plain_request (Some ''q=UNION''))) s \<and>
     manager_of (sr_state s) = Some qm' \<and> ''198.51.100.0/24'' \<in> active_set (daemon_db qm') \<union> qr_cidr ` set (channel qm') \<and>
     RequestArrives 0 rid (ca_env c) (ca_request c) \<in>
       set (visit (V4 198 51 100 7) None plain_env (plain_request (Some ''q=UNION''))) \<and>
     tripped plain_daemon c reason \<and> ca_ip c = V4 198 51 100 7"
proof -
  let ?q0 = "new_manager [] empty_db [] :: (cidr \<times> u64) list daemon"
  let ?visit = "visit (V4 198 51 100 7) None plain_env (plain_request (Some ''q=UNION''))"
  obtain s res sent where r: "run_of (server_step True cidr_lib list_quarantine) (listening plain_daemon) ?visit s"
    "sr_tasks s 0 = Some (\<lparr>ca_conn = 0, ca_env = plain_env, ca_request = plain_request (Some ''q=UNION''),
       ca_ip = V4 198 51 100 7, ca_tls = None\<rparr>, Finished res sent)"
    using run_visit [OF peek_nothing refl] by blast
  have "list_all lifts_no_ban ?visit" by (simp add: visit_lifts plain_env_simps)
  from finished_tripped_known [OF r(1) this visit_stores plain_daemon_well_formed plain_daemon_simps(4,6) r(2) plain_tripped, of "''198.51.100.0/24''"]
  obtain qm1 where q: "manager_of (sr_state s) = Some qm1" "''198.51.100.0/24'' \<in> known qm1"
    using plain_trap(2) by (auto simp: plain_env_simps)
  have none: "Background e \<notin> set ?visit" for e by (auto simp: visit_def)
  have ok: "list_all server_event_ok ?visit" by (simp add: visit_ok plain_env_simps)
  have new: "''198.51.100.0/24'' \<in> active_set (daemon_db qm1) \<union> qr_cidr ` set (channel qm1) -
      (active_set (daemon_db ?q0) \<union> qr_cidr ` set (channel ?q0))"
    using q(2) by (simp add: known_def new_manager_def)
  obtain qm' where "manager_of (sr_state s) = Some qm'" and c: "\<forall>cidr \<in> active_set (daemon_db qm') \<union> qr_cidr ` set (channel qm') -
      (active_set (daemon_db ?q0) \<union> qr_cidr ` set (channel ?q0)).
       (\<exists>rid c reason.
          RequestArrives (ca_conn c) rid (ca_env c) (ca_request c) \<in> set ?visit \<and> accepted_from ?visit ! ca_conn c = ca_ip c \<and>
          peeked_as (ca_conn c) ?visit (ca_tls c) \<and> tripped plain_daemon c reason \<and>
          px_derive_cidr (pe_phylax (ca_env c)) (show_ip (ca_ip c)) = Some cidr) \<or>
       (\<exists>E req now. Background (ControlCall E req now) \<in> set ?visit \<and> cidr \<in> ordered cidr_lib list_quarantine req)"
    using bans_have_causes [OF r(1) ok plain_daemon_well_formed plain_daemon_simps(4)] by (elim exE conjE) (rule that)
  then have "qm' = qm1" using q(1) by simp
  with bspec [OF c, of "''198.51.100.0/24''"] new none
  obtain rid c reason where c: "RequestArrives (ca_conn c) rid (ca_env c) (ca_request c) \<in> set ?visit"
    "accepted_from ?visit ! ca_conn c = ca_ip c" "tripped plain_daemon c reason"
    by blast
  have "ca_conn c = 0" using c(1) by (auto simp: visit_def)
  with c have "RequestArrives 0 rid (ca_env c) (ca_request c) \<in> set ?visit" "ca_ip c = V4 198 51 100 7"
    by (simp_all add: accepted_visit)
  with r(1) q c(3) show ?thesis unfolding known_def by blast
qed

end
