(* ===== verification/Fairness.thy ===== *)
theory Fairness
  imports Prelude
begin

text \<open>
  Endless runs of a step relation, and progress under a fair schedule: what a step that is taken again
  and again brings closer is reached.
\<close>

definition endless :: "('s \<Rightarrow> 'e \<Rightarrow> 's \<Rightarrow> bool) \<Rightarrow> (nat \<Rightarrow> 's) \<Rightarrow> (nat \<Rightarrow> 'e) \<Rightarrow> bool" where
  "endless step ss es \<longleftrightarrow> (\<forall>i. step (ss i) (es i) (ss (Suc i)))"

definition recurs :: "(nat \<Rightarrow> bool) \<Rightarrow> bool" where
  "recurs P \<longleftrightarrow> (\<forall>n. \<exists>k \<ge> n. P k)"

lemma endless_step: "endless step ss es \<Longrightarrow> step (ss i) (es i) (ss (Suc i))"
  by (simp add: endless_def)

lemma endless_prefix: "endless step ss es \<Longrightarrow> run_of step (ss 0) (map es [0..<n]) (ss n)"
proof (induction n)
  case (Suc n)
  from run_of.run_snoc [OF Suc.IH [OF Suc.prems] endless_step [OF Suc.prems]] show ?case by simp
qed (simp add: run_of.run_Nil)

text \<open>
  Progress: an invariant, a rank that no step raises before the goal is reached, and steps that lower it.
  A stable goal lasts.
\<close>

locale fair_progress =
  fixes step :: "'s \<Rightarrow> 'e \<Rightarrow> 's \<Rightarrow> bool" and ok :: "'e \<Rightarrow> bool" and inv goal :: "'s \<Rightarrow> bool"
    and helpful :: "'e \<Rightarrow> bool" and rank :: "'s \<Rightarrow> nat"
  assumes inv_step: "inv s \<Longrightarrow> ok e \<Longrightarrow> step s e s' \<Longrightarrow> inv s'"
    and goal_step: "inv s \<Longrightarrow> goal s \<Longrightarrow> ok e \<Longrightarrow> step s e s' \<Longrightarrow> goal s'"
    and rank_step: "inv s \<Longrightarrow> \<not> goal s \<Longrightarrow> ok e \<Longrightarrow> step s e s' \<Longrightarrow> \<not> goal s' \<Longrightarrow>
      rank s' \<le> rank s \<and> (helpful e \<longrightarrow> rank s' < rank s)"
begin

lemma inv_lasts:
  assumes "endless step ss es" "\<forall>k \<ge> i. ok (es k)" "inv (ss i)" "i \<le> k"
  shows "inv (ss k)"
  using assms(4) by (induction k rule: dec_induct) (use assms inv_step endless_step in blast)+

lemma goal_lasts:
  assumes "endless step ss es" "\<forall>k \<ge> i. ok (es k)" "inv (ss i)" "goal (ss i)" "i \<le> k"
  shows "goal (ss k)"
  using assms(5)
proof (induction k rule: dec_induct)
  case (step k)
  from goal_step [OF inv_lasts [OF assms(1-3) step.hyps(1)] step.IH _ endless_step [OF assms(1)]] step.hyps assms(2)
  show ?case by simp
qed (rule assms(4))

lemma rank_at_most:
  assumes "endless step ss es" "\<forall>k \<ge> i. ok (es k)" "inv (ss i)" "i \<le> k" "\<forall>j \<le> k. i \<le> j \<longrightarrow> \<not> goal (ss j)"
  shows "rank (ss k) \<le> rank (ss i)"
  using assms(4,5)
proof (induction k rule: dec_induct)
  case (step k)
  from rank_step [OF inv_lasts [OF assms(1-3) step.hyps(1)] _ _ endless_step [OF assms(1)]] step assms(2)
  have "rank (ss (Suc k)) \<le> rank (ss k)" by auto
  with step show ?case by fastforce
qed simp

theorem reaches:
  assumes "endless step ss es" "\<forall>k \<ge> i. ok (es k)" "inv (ss i)" "recurs (\<lambda>k. helpful (es k))"
  shows "\<exists>j \<ge> i. \<forall>k \<ge> j. goal (ss k)"
  using assms(2,3)
proof (induction "rank (ss i)" arbitrary: i rule: less_induct)
  case less
  obtain k where k: "i \<le> k" "helpful (es k)" using assms(4) unfolding recurs_def by blast
  show ?case
  proof (cases "\<exists>j \<ge> i. j \<le> Suc k \<and> goal (ss j)")
    case True
    then obtain j where j: "i \<le> j" "goal (ss j)" by blast
    with less.prems(1) have "\<forall>k \<ge> j. ok (es k)" by simp
    with goal_lasts [OF assms(1) _ inv_lasts [OF assms(1) less.prems j(1)] j(2)] j(1) show ?thesis by blast
  next
    case False
    have "rank (ss k) \<le> rank (ss i)" by (rule rank_at_most [OF assms(1) less.prems k(1)]) (use False in auto)
    moreover have "rank (ss (Suc k)) < rank (ss k)"
      using rank_step [OF inv_lasts [OF assms(1) less.prems k(1)] _ _ endless_step [OF assms(1)]] k less.prems(1) False by auto
    ultimately have "rank (ss (Suc k)) < rank (ss i)" by simp
    from less.hyps [OF this] less.prems k(1) inv_lasts [OF assms(1) less.prems, of "Suc k"] obtain j where
      "j \<ge> Suc k" "\<forall>k \<ge> j. goal (ss k)" by auto
    with k(1) show ?thesis by (intro exI [of _ j]) simp
  qed
qed

end

text \<open>A finite run goes on for ever with two steps that change nothing any more.\<close>

lemma run_states:
  "run_of step s es s' \<Longrightarrow>
     \<exists>ss. ss 0 = s \<and> ss (length es) = s' \<and> (\<forall>i < length es. step (ss i) (es ! i) (ss (Suc i)))"
proof (induction rule: run_of.induct)
  case run_Nil
  then show ?case by auto
next
  case (run_snoc es s1 e s2)
  then obtain ss where ss: "ss 0 = s" "ss (length es) = s1" "\<forall>i < length es. step (ss i) (es ! i) (ss (Suc i))"
    by blast
  with run_snoc.hyps(2) show ?case
    by (intro exI [of _ "ss(Suc (length es) := s2)"]) (auto simp: nth_append less_Suc_eq)
qed

lemma endless_from_run:
  assumes "run_of step s es s'" "step s' a s'" "step s' b s'"
  shows "\<exists>ss fs. endless step ss fs \<and> ss 0 = s \<and> (\<forall>i < length es. fs i = es ! i) \<and>
    (\<forall>i \<ge> length es. ss i = s' \<and> fs i = (if even i then a else b)) \<and> range fs \<subseteq> set es \<union> {a, b}"
proof -
  obtain ss where ss: "ss 0 = s" "ss (length es) = s'" "\<forall>i < length es. step (ss i) (es ! i) (ss (Suc i))"
    using run_states [OF assms(1)] by blast
  let ?ss = "\<lambda>i. if i < length es then ss i else s'"
  let ?fs = "\<lambda>i. if i < length es then es ! i else if even i then a else b"
  have "step (?ss i) (?fs i) (?ss (Suc i))" for i
  proof (cases "Suc i = length es")
    case True
    with ss(2,3) have "step (ss i) (es ! i) s'" by (metis lessI)
    with True show ?thesis by simp
  qed (use ss(3) assms(2,3) in auto)
  with ss(1,2) show ?thesis
    by (intro exI [of _ ?ss] exI [of _ ?fs]) (auto simp: endless_def)
qed

end
