(* ===== verification/Server_Fair.thy ===== *)
theory Server_Fair
  imports Server_Boot Fairness
begin

text \<open>
  The listener that runs for ever, under a schedule that is fair to a request and to the persistence
  worker: what is eventually true of a trapped client.
\<close>

section \<open>A request is answered\<close>

fun not_dropped :: "nat \<Rightarrow> ('h, 's, 'c, 'n) server_event \<Rightarrow> bool" where
  "not_dropped rid (RequestDropped r) = (r \<noteq> rid)"
| "not_dropped rid _ = True"

fun turn_of :: "nat \<Rightarrow> ('h, 's, 'c, 'n) server_event \<Rightarrow> bool" where
  "turn_of rid (TaskRuns r) = (r = rid)"
| "turn_of rid _ = False"

definition task_rank :: "nat \<Rightarrow> ('h, 's, 'c, 'n, 'q) server \<Rightarrow> nat" where
  "task_rank rid s = (case sr_tasks s rid of None \<Rightarrow> 0 | Some (c, ph) \<Rightarrow> steps_left ph)"

lemma task_rank_simp [simp]: "sr_tasks s rid = Some (c, ph) \<Longrightarrow> task_rank rid s = steps_left ph"
  by (simp add: task_rank_def)

text \<open>What a step does to a request that is not given up.\<close>

lemma task_moves:
  assumes "server_step checks N A s e s'" "sr_tasks s rid = Some (c, ph)" "not_dropped rid e"
  shows "sr_tasks s' rid = Some (c, if turn_of rid e then fst (task_step c ph (sr_state s)) else ph)"
  using assms(1) by cases (use assms(2,3) in auto)

interpretation answer: fair_progress "server_step checks N A" "not_dropped rid"
    "\<lambda>s. \<exists>ph. sr_tasks s rid = Some (c, ph)" "\<lambda>s. \<exists>res sent. sr_tasks s rid = Some (c, Finished res sent)"
    "turn_of rid" "task_rank rid"
  for checks N A rid c
proof unfold_locales
  fix s e s'
  assume s: "\<exists>ph. sr_tasks s rid = Some (c, ph)" "not_dropped rid e" "server_step checks N A s e s'"
  then obtain ph where ph: "sr_tasks s rid = Some (c, ph)" by blast
  note m = task_moves [OF s(3) ph s(2)]
  show "\<exists>ph. sr_tasks s' rid = Some (c, ph)" using m by blast
  show "\<exists>res sent. sr_tasks s' rid = Some (c, Finished res sent)"
    if "\<exists>res sent. sr_tasks s rid = Some (c, Finished res sent)"
    using that m ph by auto
  assume "\<not> (\<exists>res sent. sr_tasks s rid = Some (c, Finished res sent))"
  then have "steps_left ph \<noteq> 0" using ph by auto
  with task_step_decreases [OF this, of c "sr_state s"] m ph
  show "task_rank rid s' \<le> task_rank rid s \<and> (turn_of rid e \<longrightarrow> task_rank rid s' < task_rank rid s)" by simp
qed

section \<open>A record is stored\<close>

fun worker_turn :: "('h, 's, 'c, 'n) server_event \<Rightarrow> bool" where
  "worker_turn (Background (WorkerTurn E)) = True"
| "worker_turn _ = False"

text \<open>How far the first record of a network is from the head of the queue.\<close>

definition queue_rank :: "string \<Rightarrow> ('h, 's, 'c, 'n, 'q) server \<Rightarrow> nat" where
  "queue_rank cidr s =
     (case manager_of (sr_state s) of
        None \<Rightarrow> 0
      | Some qm \<Rightarrow> length (takeWhile (\<lambda>rec. qr_cidr rec \<noteq> cidr) (channel qm)))"

definition stored_ban :: "string \<Rightarrow> ('h, 's, 'c, 'n, 'q) server \<Rightarrow> bool" where
  "stored_ban cidr s \<longleftrightarrow> (\<exists>qm. manager_of (sr_state s) = Some qm \<and> cidr \<in> active_set (daemon_db qm))"

lemma task_store:
  assumes "manager_of st = Some qm"
  shows "\<exists>qm' recs. manager_of (snd (task_step c ph st)) = Some qm' \<and> daemon_db qm' = daemon_db qm \<and>
    channel qm' = channel qm @ recs"
  using task_manager [of c ph st] assms by (auto simp: queue_record_def)

text \<open>The queue grows at its end and the worker takes its head; the store loses no ban.\<close>

lemma server_step_store:
  assumes "server_step checks N A s e s'" "lifts_no_ban e \<and> worker_stores e" "server_ok s" "manager_of (sr_state s) = Some qm"
  shows "\<exists>qm'. manager_of (sr_state s') = Some qm' \<and> active_set (daemon_db qm) \<subseteq> active_set (daemon_db qm') \<and>
    (if worker_turn e then channel qm' = tl (channel qm) \<and> qr_cidr ` set (take 1 (channel qm)) \<subseteq> active_set (daemon_db qm')
     else \<exists>recs. channel qm' = channel qm @ recs)"
  using assms(1)
proof cases
  case (task rid c ph)
  with task_store [OF assms(4), of c ph] show ?thesis by auto
next
  case (beside e st)
  have inv: "store_inv (daemon_db qm)" "list_all persistable (channel qm)"
    using assms(3,4) by (auto simp: server_ok_def well_formed_def)
  from beside(4) show ?thesis
  proof cases
    case (worker qm1 E)
    show ?thesis
    proof (cases "channel qm")
      case (Cons rec rest)
      have w: "engine_works E" "qr_active rec" "persistable rec"
        using assms(2) worker beside inv(2) Cons by (simp_all add: persistable_def)
      with record_ban_mono [OF inv(1) w(2), of E] store.ban_bans [of "daemon_db qm" "(E, rec)"] inv(1) Cons worker beside assms(4)
      show ?thesis by (auto simp: worker_step_def persistable_def)
    qed (use worker beside assms(4) in \<open>simp add: worker_step_def\<close>)
  next
    case (control qm1 E req now res qm')
    with dispatch_active [of qm checks E N A req now res qm'] dispatch_channel [OF control(4)] assms(2,4) inv beside
    show ?thesis by (cases req) (auto simp: lifts_no_ban_def)
  qed (use assms(4) beside in auto)
qed (use assms(4) in auto)

lemma queue_rank_moves:
  assumes "rec \<in> set xs" "qr_cidr rec = cidr"
  shows "length (takeWhile (\<lambda>rec. qr_cidr rec \<noteq> cidr) (xs @ ys)) = length (takeWhile (\<lambda>rec. qr_cidr rec \<noteq> cidr) xs)"
  using assms takeWhile_append1 [of rec xs "\<lambda>rec. qr_cidr rec \<noteq> cidr" ys] by simp

definition keeps_known :: "string set \<Rightarrow> ('h, 's, 'c, 'n, 'q) server \<Rightarrow> bool" where
  "keeps_known K s \<longleftrightarrow> (\<exists>qm. manager_of (sr_state s) = Some qm \<and> K \<subseteq> known qm \<and> receiver_alive qm)"

interpretation kept: trace_invariant "server_step checks N A" "\<lambda>e. lifts_no_ban e \<and> worker_stores e"
    "\<lambda>s. server_ok s \<and> keeps_known K s" "\<lambda>_ _ s. server_ok s \<and> keeps_known K s"
  for checks N A K
proof unfold_locales
  fix s e s'
  assume s: "server_step checks N A s e s'" "lifts_no_ban e \<and> worker_stores e" "server_ok s \<and> keeps_known K s"
  then obtain qm where q: "manager_of (sr_state s) = Some qm" "K \<subseteq> known qm" "receiver_alive qm"
    unfolding keeps_known_def by blast
  from server_step_known [OF s(1) _ _ q(1)] no_write_fails [of s e] q
    server_step_ok [OF s(1) lifts_no_ban_ok [OF conjunct1 [OF s(2)]]] s(2,3)
  show "server_ok s' \<and> keeps_known K s'" unfolding keeps_known_def by fastforce
qed simp_all

interpretation storing: fair_progress "server_step checks N A" "\<lambda>e. lifts_no_ban e \<and> worker_stores e"
    "\<lambda>s. server_ok s \<and> keeps_known {cidr} s" "stored_ban cidr" worker_turn "queue_rank cidr"
  for checks N A cidr
proof unfold_locales
  fix s e s'
  assume s: "server_ok s \<and> keeps_known {cidr} s" "lifts_no_ban e \<and> worker_stores e" "server_step checks N A s e s'"
  then obtain qm where q: "manager_of (sr_state s) = Some qm" "cidr \<in> known qm" "receiver_alive qm"
    by (auto simp: keeps_known_def)
  show "server_ok s' \<and> keeps_known {cidr} s'" using kept.inv_step [OF s(1,2,3)] .
  obtain qm' where q': "manager_of (sr_state s') = Some qm'" "active_set (daemon_db qm) \<subseteq> active_set (daemon_db qm')"
    "if worker_turn e then channel qm' = tl (channel qm) \<and> qr_cidr ` set (take 1 (channel qm)) \<subseteq> active_set (daemon_db qm')
     else \<exists>recs. channel qm' = channel qm @ recs"
    using server_step_store [OF s(3,2) conjunct1 [OF s(1)] q(1)] by blast
  show "stored_ban cidr s'" if "stored_ban cidr s" using that q(1) q'(1,2) by (auto simp: stored_ban_def)
  assume n: "\<not> stored_ban cidr s" "\<not> stored_ban cidr s'"
  then obtain rec where r: "rec \<in> set (channel qm)" "qr_cidr rec = cidr"
    using q(1,2) by (auto simp: stored_ban_def known_def)
  show "queue_rank cidr s' \<le> queue_rank cidr s \<and> (worker_turn e \<longrightarrow> queue_rank cidr s' < queue_rank cidr s)"
  proof (cases "worker_turn e")
    case True
    obtain x xs where x: "channel qm = x # xs" using r by (cases "channel qm") auto
    with True q'(1,3) n(2) have "qr_cidr x \<noteq> cidr" by (auto simp: stored_ban_def)
    with x True q(1) q'(1,3) show ?thesis by (simp add: queue_rank_def)
  next
    case False
    with q'(3) obtain recs where "channel qm' = channel qm @ recs" by auto
    with False queue_rank_moves [OF r, of recs] q(1) q'(1) show ?thesis by (simp add: queue_rank_def)
  qed
qed

section \<open>A trapped client, under a fair schedule\<close>

text \<open>
  C5: a trapped client is stored as banned in the end. The listener runs for ever; a request that trips
  a trap is not given up by the client and gets its turns again and again, as the persistence worker
  does, with an engine that works, and no operator lifts bans: then there is a moment from which on the
  request is answered with a denial, nothing having been sent upstream, and the client's network is in
  the store as banned, whatever the other clients do.
\<close>

theorem trapped_client_eventually_stored:
  assumes "endless (server_step checks N A) ss es" "ss 0 = listening st" "\<forall>i. lifts_no_ban (es i)" "\<forall>i. worker_stores (es i)"
    and "well_formed st" "manager_of st = Some qm" "receiver_alive qm"
    and "sr_tasks (ss i) rid = Some (c, ph)" "tripped st c reason"
    and "px_derive_cidr (pe_phylax (ca_env c)) (show_ip (ca_ip c)) = Some cidr"
    and "\<forall>k \<ge> i. not_dropped rid (es k)" "recurs (\<lambda>k. turn_of rid (es k))" "recurs (\<lambda>k. worker_turn (es k))"
  shows "\<exists>j \<ge> i. \<forall>k \<ge> j.
    (\<exists>r. rs_status r \<in> {403, 404} \<and> sr_tasks (ss k) rid = Some (c, Finished (Inr r) [])) \<and> stored_ban cidr (ss k)"
proof -
  have ok: "list_all lifts_no_ban (map es [0..<n])" "list_all worker_stores (map es [0..<n])"
    "list_all (\<lambda>e. lifts_no_ban e \<and> worker_stores e) (map es [0..<n])" for n
    using assms(3,4) by (simp_all add: list_all_iff)
  have inv0: "server_ok (ss 0) \<and> keeps_known {} (ss 0)"
    using assms(5-7) by (simp add: assms(2) keeps_known_def)
  obtain j where j: "j \<ge> i" "\<forall>k \<ge> j. \<exists>res sent. sr_tasks (ss k) rid = Some (c, Finished res sent)"
    using answer.reaches [OF assms(1,11) exI assms(12), of c ph] assms(8) by blast
  have fin: "denying (Finished res sent) \<and> (\<exists>qm'. manager_of (sr_state (ss k)) = Some qm' \<and> cidr \<in> known qm')"
    if "sr_tasks (ss k) rid = Some (c, Finished res sent)" for k res sent
    by (rule finished_tripped_known [OF endless_prefix [OF assms(1), unfolded assms(2)] ok(1,2) assms(5-7) that assms(9,10)])
  have "server_ok (ss j) \<and> keeps_known {} (ss j)"
    by (rule kept.inv_run [OF endless_prefix [OF assms(1)] inv0 ok(3)])
  then obtain qm1 where q1: "server_ok (ss j)" "manager_of (sr_state (ss j)) = Some qm1" "receiver_alive qm1"
    unfolding keeps_known_def by blast
  obtain res sent where "sr_tasks (ss j) rid = Some (c, Finished res sent)" using j(2) by blast
  with fin [OF this] q1 have known: "server_ok (ss j) \<and> keeps_known {cidr} (ss j)"
    unfolding keeps_known_def by auto
  have "\<forall>k \<ge> j. lifts_no_ban (es k) \<and> worker_stores (es k)" using assms(3,4) by simp
  from storing.reaches [OF assms(1) this known assms(13)] obtain l where l: "l \<ge> j" "\<forall>k \<ge> l. stored_ban cidr (ss k)"
    by (elim exE conjE)
  have "\<exists>r. rs_status r \<in> {403, 404} \<and> sr_tasks (ss k) rid = Some (c, Finished (Inr r) [])" if "k \<ge> l" for k
  proof -
    have "j \<le> k" using l(1) that by simp
    with j(2) obtain res sent where "sr_tasks (ss k) rid = Some (c, Finished res sent)" by blast
    with fin [OF this] show ?thesis by auto
  qed
  with j(1) l show ?thesis by (intro exI [of _ l]) auto
qed

text \<open>The worker empties the queue, and then has nothing to do.\<close>

lemma server_worker:
  assumes "manager_of (sr_state s) = Some qm"
  shows "server_step checks N A s (Background (WorkerTurn E)) (s\<lparr>sr_state := set_manager (worker_step E qm) (sr_state s)\<rparr>)"
  by (rule server_step.beside [OF _ daemon_step.worker [OF assms]]) simp

lemma run_worker_turns:
  "manager_of (sr_state s) = Some qm \<Longrightarrow>
     \<exists>s' qm'. run_of (server_step checks N A) s (replicate (length (channel qm)) (Background (WorkerTurn E))) s' \<and>
       sr_tasks s' = sr_tasks s \<and> manager_of (sr_state s') = Some qm' \<and> channel qm' = [] \<and>
       ((\<forall>rec db. snd (record_ban E rec db) = db) \<longrightarrow> daemon_db qm' = daemon_db qm)"
proof (induction "channel qm" arbitrary: s qm)
  case Nil
  then show ?case by (auto intro: run_of.run_Nil)
next
  case (Cons rec rest)
  let ?s = "s\<lparr>sr_state := set_manager (worker_step E qm) (sr_state s)\<rparr>"
  have "manager_of (sr_state ?s) = Some (worker_step E qm)" "rest = channel (worker_step E qm)"
    "(\<forall>rec db. snd (record_ban E rec db) = db) \<longrightarrow> daemon_db (worker_step E qm) = daemon_db qm"
    using Cons.hyps(2) [symmetric] by (simp_all add: worker_step_def)
  from Cons.hyps(1) [OF this(2,1)] this(2,3) Cons.hyps(2) [symmetric] server_Cons [OF server_worker [OF Cons.prems]]
  show ?case by fastforce
qed

lemma idle_worker:
  assumes "manager_of (sr_state s) = Some qm" "channel qm = []"
  shows "server_step checks N A s (Background (WorkerTurn E)) s"
proof -
  have "s\<lparr>sr_state := set_manager (worker_step E qm) (sr_state s)\<rparr> = s"
    using assms by (simp add: worker_step_def set_manager_def manager_of_def)
  with server_worker [OF assms(1)] show ?thesis by metis
qed

lemma idle_task:
  assumes "sr_tasks s rid = Some (c, Finished res sent)"
  shows "server_step checks N A s (TaskRuns rid) s"
proof -
  have "advance_task rid c (Finished res sent) s = s"
    using assms by (simp add: advance_task_def fun_upd_idem)
  with server_step.task [OF assms] show ?thesis by metis
qed

text \<open>
  Nothing in \<open>src/proxy/forward.rs\<close> bounds the time of an upstream, so that the turns of a task that
  waits for one are not those of a fair schedule: a request may wait at an upstream that never answers, its
  connection open, for ever.
\<close>

fun forwarding :: "'h phase \<Rightarrow> bool" where
  "forwarding (Forwarding target) = True"
| "forwarding _ = False"

lemma plain_forwards:
  "forwarding (fst (((\<lambda>(ph, st). task_step \<lparr>ca_conn = 0, ca_env = plain_env, ca_request = plain_request None,
      ca_ip = V4 198 51 100 7, ca_tls = None\<rparr> ph st) ^^ 6) (Arrived, on_governor register_connection plain_daemon)))"
  by code_simp

lemma upstream_may_hang:
  "\<exists>ss (es :: nat \<Rightarrow> ((string \<times> string) list, unit, string, cidr) server_event) c ph.
     endless (server_step True cidr_lib list_quarantine) ss es \<and> ss 0 = listening plain_daemon \<and>
     forwarding ph \<and> (\<forall>k \<ge> 10. sr_tasks (ss k) 0 = Some (c, ph))"
proof -
  let ?c = "\<lparr>ca_conn = 0, ca_env = plain_env, ca_request = plain_request None, ca_ip = V4 198 51 100 7, ca_tls = None\<rparr>"
  let ?es = "arrival (V4 198 51 100 7) None plain_env (plain_request None) @ replicate 6 (TaskRuns 0)"
  obtain s ph where r: "run_of (server_step True cidr_lib list_quarantine) (listening plain_daemon) ?es s"
    "sr_tasks s 0 = Some (?c, ph)"
    "(ph, sr_state s) = ((\<lambda>(ph, st). task_step ?c ph st) ^^ 6) (Arrived, on_governor register_connection plain_daemon)"
    using run_arrival [OF peek_nothing refl] by blast
  have ph: "forwarding ph" using plain_forwards arg_cong [OF r(3), of fst] by simp
  obtain ss fs where e: "endless (server_step True cidr_lib list_quarantine) ss fs" "ss 0 = listening plain_daemon"
    "\<forall>i \<ge> length ?es. ss i = s \<and> fs i = (if even i then AcceptError else AcceptError)"
    using endless_from_run [OF r(1) server_step.accept_error server_step.accept_error] by blast
  have "length ?es = 10" by (simp add: arrival_def)
  then have "\<forall>k \<ge> 10. sr_tasks (ss k) 0 = Some (?c, ph)" using e(3) r(2) by simp
  with e(1,2) ph show ?thesis by blast
qed

lemma recurs_parity: "recurs (\<lambda>k. n \<le> k \<and> even k)" "recurs (\<lambda>k. n \<le> k \<and> odd k)"
proof -
  have "\<exists>k \<ge> m. n \<le> k \<and> even k" "\<exists>k \<ge> m. n \<le> k \<and> odd k" for m
    by (rule exI [of _ "2 * (m + n)"], simp) (rule exI [of _ "2 * (m + n) + 1"], simp)
  then show "recurs (\<lambda>k. n \<le> k \<and> even k)" "recurs (\<lambda>k. n \<le> k \<and> odd k)" by (simp_all add: recurs_def)
qed

lemma recurs_mono: "recurs P \<Longrightarrow> (\<And>k. P k \<Longrightarrow> Q k) \<Longrightarrow> recurs Q"
  unfolding recurs_def by blast

text \<open>A client that attacks, and a worker that stores its ban.\<close>

lemma visit_and_work:
  assumes "well_formed st" "manager_of st = Some qm" "receiver_alive qm"
    and "tripped st \<lparr>ca_conn = 0, ca_env = plain_env, ca_request = plain_request (Some ''q=UNION''),
      ca_ip = V4 198 51 100 7, ca_tls = None\<rparr> ''sqli''"
  shows "\<exists>es s qm' res sent. run_of (server_step True cidr_lib list_quarantine) (listening st) es s \<and>
    list_all lifts_no_ban es \<and> list_all worker_stores es \<and> 3 < length es \<and>
    es ! 3 = RequestArrives 0 0 plain_env (plain_request (Some ''q=UNION'')) \<and>
    sr_tasks s 0 = Some (\<lparr>ca_conn = 0, ca_env = plain_env, ca_request = plain_request (Some ''q=UNION''),
      ca_ip = V4 198 51 100 7, ca_tls = None\<rparr>, Finished res sent) \<and>
    manager_of (sr_state s) = Some qm' \<and> channel qm' = []"
proof -
  let ?c = "\<lparr>ca_conn = 0, ca_env = plain_env, ca_request = plain_request (Some ''q=UNION''),
     ca_ip = V4 198 51 100 7, ca_tls = None\<rparr>"
  let ?visit = "visit (V4 198 51 100 7) None plain_env (plain_request (Some ''q=UNION''))"
  let ?turn = "Background (WorkerTurn plain_engine)"
  obtain s1 res sent where r1: "run_of (server_step True cidr_lib list_quarantine) (listening st) ?visit s1"
    "sr_tasks s1 0 = Some (?c, Finished res sent)"
    using run_visit [OF peek_nothing refl] by blast
  have l: "list_all lifts_no_ban ?visit" "list_all worker_stores ?visit" by (simp_all add: visit_lifts plain_env_simps)
  obtain qm1 where "manager_of (sr_state s1) = Some qm1"
    using finished_tripped [OF r1(1) l(1) assms(1-3) r1(2) assms(4)] plain_trap(2) by (auto simp: plain_env_simps)
  from run_worker_turns [OF this, of True cidr_lib list_quarantine plain_engine] obtain n s2 qm2 where
    r2: "run_of (server_step True cidr_lib list_quarantine) s1 (replicate n ?turn) s2"
    "sr_tasks s2 = sr_tasks s1" "manager_of (sr_state s2) = Some qm2" "channel qm2 = []"
    by blast
  have "list_all lifts_no_ban (?visit @ replicate n ?turn)" "list_all worker_stores (?visit @ replicate n ?turn)"
    using l by (auto simp: list_all_iff lifts_no_ban_def)
  moreover have "3 < length (?visit @ replicate n ?turn)"
    "(?visit @ replicate n ?turn) ! 3 = RequestArrives 0 0 plain_env (plain_request (Some ''q=UNION''))"
    by (simp_all add: visit_def)
  moreover have "sr_tasks s2 0 = Some (?c, Finished res sent)" using r1(2) r2(2) by simp
  ultimately show ?thesis using run_append [OF r2(1) r1(1)] r2(3,4) by blast
qed

theorem trapped_client_eventually_stored_witness:
  "\<exists>ss es j. endless (server_step True cidr_lib list_quarantine) ss es \<and> ss 0 = listening plain_daemon \<and>
     es 3 = RequestArrives 0 0 plain_env (plain_request (Some ''q=UNION'')) \<and>
     (\<forall>k \<ge> j. (\<exists>r c. rs_status r \<in> {403, 404} \<and> sr_tasks (ss k) 0 = Some (c, Finished (Inr r) [])) \<and>
        stored_ban ''198.51.100.0/24'' (ss k))"
proof -
  let ?c = "\<lparr>ca_conn = 0, ca_env = plain_env, ca_request = plain_request (Some ''q=UNION''),
     ca_ip = V4 198 51 100 7, ca_tls = None\<rparr>"
  let ?turn = "Background (WorkerTurn plain_engine)"
  obtain fs s2 qm2 res sent where r: "run_of (server_step True cidr_lib list_quarantine) (listening plain_daemon) fs s2"
    and l: "list_all lifts_no_ban fs" "list_all worker_stores fs" and i3: "3 < length fs"
      "fs ! 3 = RequestArrives 0 0 plain_env (plain_request (Some ''q=UNION''))"
    and t2: "sr_tasks s2 0 = Some (?c, Finished res sent)" and q2: "manager_of (sr_state s2) = Some qm2" "channel qm2 = []"
    using visit_and_work [OF plain_daemon_well_formed plain_daemon_simps(4,6) plain_tripped] by blast
  obtain ss es where e: "endless (server_step True cidr_lib list_quarantine) ss es" "ss 0 = listening plain_daemon"
    "\<forall>i < length fs. es i = fs ! i"
    "\<forall>i \<ge> length fs. ss i = s2 \<and> es i = (if even i then TaskRuns 0 else ?turn)"
    "range es \<subseteq> set fs \<union> {TaskRuns 0, ?turn}"
    using endless_from_run [OF r idle_task [OF t2] idle_worker [OF q2]] by blast
  have "\<forall>e \<in> set fs \<union> {TaskRuns 0, ?turn}. lifts_no_ban e \<and> worker_stores e"
    using l by (auto simp: list_all_iff lifts_no_ban_def)
  then have ok: "\<forall>i. lifts_no_ban (es i)" "\<forall>i. worker_stores (es i)" using e(5) by blast+
  have nd: "\<forall>k \<ge> length fs. not_dropped 0 (es k)" using e(4) by simp
  have f: "recurs (\<lambda>k. turn_of 0 (es k))" "recurs (\<lambda>k. worker_turn (es k))"
    by (rule recurs_mono [OF recurs_parity(1) [of "length fs"]], use e(4) in simp)
      (rule recurs_mono [OF recurs_parity(2) [of "length fs"]], use e(4) in simp)
  have t: "sr_tasks (ss (length fs)) 0 = Some (?c, Finished res sent)" using e(4) t2 by simp
  have c: "px_derive_cidr (pe_phylax (ca_env ?c)) (show_ip (ca_ip ?c)) = Some ''198.51.100.0/24''"
    using plain_trap(2) by (simp add: plain_env_simps)
  from trapped_client_eventually_stored [OF e(1,2) ok plain_daemon_well_formed plain_daemon_simps(4,6) t plain_tripped c nd f]
  obtain j where "\<forall>k \<ge> j. (\<exists>r. rs_status r \<in> {403, 404} \<and> sr_tasks (ss k) 0 = Some (?c, Finished (Inr r) [])) \<and>
      stored_ban ''198.51.100.0/24'' (ss k)" by blast
  moreover have "es 3 = RequestArrives 0 0 plain_env (plain_request (Some ''q=UNION''))"
    using e(3) i3 by simp
  ultimately show ?thesis using e(1,2) by (intro exI [of _ ss] exI [of _ es] exI [of _ j]) blast
qed

end
