(* ===== verification/Lifetimes.thy ===== *)
theory Lifetimes
  imports Server_Fair Quarantine_Cli_Props
begin

text \<open>
  The database across the lives of the program: daemons that are started on what the last one left and
  stopped at any moment, and the commands that are given while none runs.
\<close>

section \<open>Histories of the store\<close>

text \<open>The tables change by operations of the store; the flag says whether some may lift bans.\<close>

fun bans_only :: "sql_engine \<times> store_op \<Rightarrow> bool" where
  "bans_only (E, OpBan rec) = True"
| "bans_only _ = False"

definition becomes :: "'n ipnet_lib \<Rightarrow> bool \<Rightarrow> quarantine_db \<Rightarrow> quarantine_db \<Rightarrow> bool" where
  "becomes N lifts db db' \<longleftrightarrow>
     (\<exists>ops. list_all op_ok ops \<and> (lifts \<or> list_all bans_only ops) \<and> db' = foldl (apply_op N) db ops)"

lemma becomes_refl [simp]: "becomes N lifts db db"
  unfolding becomes_def by (intro exI [of _ "[]"]) simp

lemma becomes_trans [trans]:
  assumes "becomes N lifts db db'" "becomes N lifts' db' db''" "lifts' \<longrightarrow> lifts"
  shows "becomes N lifts db db''"
proof -
  obtain ops ops' where "list_all op_ok ops" "lifts \<or> list_all bans_only ops" "db' = foldl (apply_op N) db ops"
    "list_all op_ok ops'" "lifts' \<or> list_all bans_only ops'" "db'' = foldl (apply_op N) db' ops'"
    using assms(1,2) unfolding becomes_def by blast
  with assms(3) show ?thesis unfolding becomes_def by (intro exI [of _ "ops @ ops'"]) auto
qed

lemma becomes_ban: "engine_laws E \<Longrightarrow> qr_active rec \<Longrightarrow> becomes N lifts db (snd (record_ban E rec db))"
  unfolding becomes_def by (intro exI [of _ "[(E, OpBan rec)]"]) simp

lemma becomes_unban: "engine_laws E \<Longrightarrow> becomes N True db (snd (unban E N target details now db))"
  unfolding becomes_def by (intro exI [of _ "[(E, OpUnban target details now)]"]) simp

lemma becomes_unban_all: "engine_laws E \<Longrightarrow> becomes N True db (snd (unban_all E details now db))"
  unfolding becomes_def by (intro exI [of _ "[(E, OpUnbanAll details now)]"]) simp

lemma becomes_inv: "becomes N lifts db db' \<Longrightarrow> store_inv db \<Longrightarrow> store_inv db'"
  unfolding becomes_def using store_inv_history by blast

lemma bans_only_active:
  "store_inv db \<Longrightarrow> list_all op_ok ops \<Longrightarrow> list_all bans_only ops \<Longrightarrow>
     active_set db \<subseteq> active_set (foldl (apply_op N) db ops)"
proof (induction ops arbitrary: db)
  case (Cons x ops)
  then obtain E rec where x: "x = (E, OpBan rec)" "qr_active rec" by (cases x rule: bans_only.cases) auto
  have "active_set db \<subseteq> active_set (apply_op N db x)" using record_ban_mono [OF Cons.prems(1) x(2)] by (simp add: x(1))
  with Cons.IH [OF store_inv_apply [OF Cons.prems(1)]] Cons.prems(2,3) show ?case by fastforce
qed simp

lemma becomes_active: "becomes N False db db' \<Longrightarrow> store_inv db \<Longrightarrow> active_set db \<subseteq> active_set db'"
  unfolding becomes_def using bans_only_active by blast

section \<open>What a daemon does to its tables\<close>

lemma ban_targets_becomes:
  "\<forall>i. engine_laws (E i) \<Longrightarrow>
     becomes N lifts (daemon_db d) (daemon_db (snd (ban_targets E N A reason now e exact ts d)))"
proof (induction ts arbitrary: E d)
  case (Cons t ts)
  show ?case
  proof (cases "if trim t = [] then None else ban_target N A exact (trim t)")
    case None
    with Cons show ?thesis by (simp add: Let_def)
  next
    case (Some nt)
    let ?d = "d\<lparr>in_memory := aq_add_ban A (in_memory d) (fst nt) e,
      daemon_db := snd (record_ban (E 0) (operator_record N reason now e nt) (daemon_db d))\<rparr>"
    have "becomes N lifts (daemon_db d) (daemon_db ?d)" using Cons.prems by (simp add: becomes_ban)
    from becomes_trans [OF this Cons.IH [of "\<lambda>i. E (Suc i)" ?d]] Cons.prems Some
    show ?thesis by (simp add: Let_def case_prod_unfold)
  qed
qed simp

lemma unban_each_becomes:
  "\<forall>i. engine_laws (E i) \<Longrightarrow> becomes N True (daemon_db d) (daemon_db (snd (unban_each E N A now ts d)))"
proof (induction ts arbitrary: E d)
  case (Cons t ts)
  let ?d = "d\<lparr>in_memory := snd (aq_unban A (in_memory d) t),
    daemon_db := snd (unban (E 0) N t ''Live IPC command'' now (daemon_db d))\<rparr>"
  have "becomes N True (daemon_db d) (daemon_db ?d)" using Cons.prems by (simp add: becomes_unban)
  from becomes_trans [OF this Cons.IH [of "\<lambda>i. E (Suc i)" ?d]] Cons.prems show ?case
    by (simp add: case_prod_unfold Let_def)
qed simp

lemma dispatch_becomes:
  assumes "\<forall>i. engine_laws (E i)" "dispatch checks E N A req now d = Some (res, d')"
  shows "becomes N (lifting req) (daemon_db d) (daemon_db d')"
proof (cases req)
  case (Ban ts reason dur exact)
  then have "exec_ban checks E N A ts reason dur exact now d = Some (res, d')"
    using assms(2) by (simp add: dispatch_def)
  then show ?thesis using exec_ban_shape ban_targets_becomes [OF assms(1)] by metis
qed (use assms unban_each_becomes [OF assms(1), of N d A now] becomes_unban_all [of "E 0" N "daemon_db d"]
  in \<open>auto simp: dispatch_def exec_unban_def case_prod_unfold Let_def\<close>)

lemma server_step_becomes:
  assumes "server_step checks N A s e s'" "server_event_ok e" "server_ok s" "manager_of (sr_state s) = Some qm"
  shows "\<exists>qm'. manager_of (sr_state s') = Some qm' \<and> becomes N (lifting_event e) (daemon_db qm) (daemon_db qm')"
  using assms(1)
proof cases
  case (task rid c ph)
  with task_manager [of c ph "sr_state s"] assms(4) show ?thesis by (auto simp: queue_record_def)
next
  case (beside e st)
  have p: "list_all persistable (channel qm)" using assms(3,4) by (auto simp: server_ok_def well_formed_def)
  from beside(4) show ?thesis
  proof cases
    case (worker qm1 E)
    with assms(2,4) beside p show ?thesis
      by (auto simp: worker_step_def persistable_def becomes_ban split: list.split)
  next
    case (control qm1 E req now res qm')
    with dispatch_becomes [OF _ control(4)] assms(2,4) beside show ?thesis by auto
  qed (use assms(4) beside in auto)
qed (use assms(4) in auto)

interpretation written: trace_invariant
    "server_step checks N A :: ('h, 's, 'c, 'n, 'q) server \<Rightarrow> ('h, 's, 'c, 'n) server_event \<Rightarrow> _" server_event_ok
    "\<lambda>s. server_ok s \<and> (\<exists>qm. manager_of (sr_state s) = Some qm \<and> daemon_db qm = db)"
    "\<lambda>_ es s. server_ok s \<and>
      (\<exists>qm. manager_of (sr_state s) = Some qm \<and> becomes N (list_ex lifting_event es) db (daemon_db qm))"
  for checks N A db
proof unfold_locales
  fix s s' s'' :: "('h, 's, 'c, 'n, 'q) server" and es and e :: "('h, 's, 'c, 'n) server_event"
  assume inv: "server_ok s' \<and>
      (\<exists>qm. manager_of (sr_state s') = Some qm \<and> becomes N (list_ex lifting_event (es :: ('h, 's, 'c, 'n) server_event list)) db (daemon_db qm))"
    and e: "server_event_ok e" "server_step checks N A s' e s''"
  then obtain qm where q: "manager_of (sr_state s') = Some qm" "becomes N (list_ex lifting_event es) db (daemon_db qm)"
    by blast
  obtain qm' where q': "manager_of (sr_state s'') = Some qm'" "becomes N (lifting_event e) (daemon_db qm) (daemon_db qm')"
    using server_step_becomes [OF e(2,1) conjunct1 [OF inv] q(1)] by blast
  have w: "becomes N True db db'" if "becomes N l db db'" for l db'
    using that by (auto simp: becomes_def)
  have "becomes N (list_ex lifting_event (es @ [e])) db (daemon_db qm')"
    using becomes_trans [OF q(2) q'(2)] becomes_trans [OF w [OF q(2)] q'(2)] by (cases "lifting_event e") auto
  with q' server_step_ok [OF e(2,1) conjunct1 [OF inv]]
  show "server_ok s'' \<and> (\<exists>qm. manager_of (sr_state s'') = Some qm \<and>
      becomes N (list_ex lifting_event (es @ [e])) db (daemon_db qm))" by blast
qed auto

section \<open>What a command does to the tables of a stopped daemon\<close>

fun lifting_command :: "quarantine_commands \<Rightarrow> bool" where
  "lifting_command (CmdUnban ts) = True"
| "lifting_command CmdClear = True"
| "lifting_command _ = False"

text \<open>No daemon runs, before and after, and the tables change by operations of the store.\<close>

definition file_becomes :: "'n ipnet_lib \<Rightarrow> bool \<Rightarrow> 'q world \<Rightarrow> 'q world \<Rightarrow> bool" where
  "file_becomes N lifts w w' \<longleftrightarrow> running w' = None \<and> becomes N lifts (stored w) (stored w')"

lemma file_becomes_refl [simp]: "file_becomes N lifts w w \<longleftrightarrow> running w = None"
  by (simp add: file_becomes_def)

lemma file_becomes_trans:
  "file_becomes N lifts w w' \<Longrightarrow> file_becomes N lifts w' w'' \<Longrightarrow> file_becomes N lifts w w''"
  unfolding file_becomes_def by (blast intro: becomes_trans)

lemma file_becomes_set [simp]:
  "running w = None \<Longrightarrow> file_becomes N lifts w (set_file db w) \<longleftrightarrow> becomes N lifts (stored w) db"
  by (simp add: file_becomes_def)

lemma open_file_stored: "open_file X w = Inr db \<Longrightarrow> db = stored w"
  by (auto simp: open_file_def open_store_def init_schema_def stored_def result_bind_def split: option.splits sum.splits)

lemma after_open_file: "running w = None \<Longrightarrow> file_becomes N lifts w (after_open X w)"
  by (auto simp: after_open_def dest: open_file_stored split: sum.split)

lemma offline_ban_becomes:
  "\<forall>i. engine_laws (E i) \<Longrightarrow> becomes N lifts db (snd (offline_ban E N A reason now e exact ts db))"
proof (induction ts arbitrary: E db)
  case (Cons t ts)
  show ?case
  proof (cases "resolve_target_cidr N A t exact")
    case None
    with Cons show ?thesis by simp
  next
    case (Some nt)
    obtain r db1 where r: "record_ban (E 0) (operator_record N reason now e nt) db = (r, db1)" by fastforce
    have b: "becomes N lifts db db1"
      using becomes_ban [of "E 0" "operator_record N reason now e nt" N lifts db] Cons.prems r by simp
    from becomes_trans [OF b Cons.IH [of "\<lambda>i. E (Suc i)" db1]] Cons.prems b Some r show ?thesis
      by (auto simp: Let_def split: sum.split prod.split)
  qed
qed simp

lemma offline_unban_becomes:
  "\<forall>i. engine_laws (E i) \<Longrightarrow> becomes N True db (snd (offline_unban E N now ts db))"
proof (induction ts arbitrary: E db)
  case (Cons t ts)
  obtain r db1 where r: "unban (E 0) N t ''Offline CLI unban'' now db = (r, db1)" by fastforce
  have b: "becomes N True db db1"
    using becomes_unban [of "E 0" N db t "''Offline CLI unban''" now] Cons.prems r by simp
  from becomes_trans [OF b Cons.IH [of "\<lambda>i. E (Suc i)" db1]] Cons.prems b r show ?case
    by (auto split: sum.split prod.split)
qed simp

lemma exec_cli_ban_file:
  assumes "exec_cli_ban X ts reason dur exact now w = Some (res, reports, w')" "running w = None"
    and "\<forall>i. engine_laws (env_engine X i)"
  shows "file_becomes (env_net X) lifts w w'"
proof -
  have "\<forall>i. engine_laws (later_engines X i)" using assms(3) by (simp add: later_engines_def)
  note b = offline_ban_becomes [OF this, of "env_net X" lifts]
  obtain v where v: "parse_duration_str (env_lower X) (env_checks X) dur = Some v"
    using assms(1) by (cases "parse_duration_str (env_lower X) (env_checks X) dur") (simp_all add: exec_cli_ban_def)
  show ?thesis
  proof (cases "\<exists>secs db. v = Inr secs \<and> open_file X w = Inr db")
    case True
    then obtain secs db where s: "v = Inr secs" "open_file X w = Inr db" by blast
    with assms(1,2) v obtain e where
      "(case fst (offline_ban (later_engines X) (env_net X) (env_quarantine X) reason now e exact ts db) of
          Inl m \<Rightarrow> (Inl (CliStore m), [], set_file (snd (offline_ban (later_engines X) (env_net X) (env_quarantine X) reason now e exact ts db)) w)
        | Inr cidrs \<Rightarrow> (Inr (), [ReportBanned False (length cidrs) cidrs], set_file (snd (offline_ban (later_engines X) (env_net X) (env_quarantine X) reason now e exact ts db)) w)) =
       (res, reports, w')"
      unfolding exec_cli_ban_def by (simp add: bind_eq_Some_conv case_prod_unfold Let_def) blast
    then have "w' = set_file (snd (offline_ban (later_engines X) (env_net X) (env_quarantine X) reason now e exact ts db)) w"
      by (simp split: sum.split_asm)
    with b open_file_stored [OF s(2)] assms(2) show ?thesis by simp
  next
    case False
    with assms(1,2) v show ?thesis by (cases v; cases "open_file X w") (auto simp: exec_cli_ban_def)
  qed
qed

lemma ban_chunks_file:
  assumes "\<forall>i. engine_laws (env_engine X i)"
  shows "ban_chunks X reason secs exact now cs w = Some (res, reports, w') \<Longrightarrow> running w = None \<Longrightarrow>
    file_becomes (env_net X) lifts w w'"
proof (induction cs arbitrary: w res reports)
  case (Cons c cs)
  then obtain res1 reports1 w1 where c: "exec_cli_ban X c reason (show_word secs) exact now w = Some (res1, reports1, w1)"
    by (auto simp: then_run_def bind_eq_Some_conv)
  note f = exec_cli_ban_file [OF c Cons.prems(2) assms, of lifts]
  then have "running w1 = None" by (simp add: file_becomes_def)
  with Cons.prems(1) Cons.IH c f file_becomes_trans [OF f] show ?case
    by (auto simp: then_run_def bind_eq_Some_conv split: sum.splits)
qed simp

lemma exec_cli_ingest_file:
  assumes "exec_cli_ingest X input reason dur exclude exact now w = Some (res, reports, w')" "running w = None"
    and "\<forall>i. engine_laws (env_engine X i)"
  shows "file_becomes (env_net X) lifts w w'"
proof -
  obtain v where v: "parse_duration_str (env_lower X) (env_checks X) dur = Some v"
    using assms(1) by (cases "parse_duration_str (env_lower X) (env_checks X) dur") (simp_all add: exec_cli_ingest_def)
  have "w' = w \<or> (\<exists>secs cs res reports. ban_chunks X reason secs exact now cs w = Some (res, reports, w'))"
  proof (cases v)
    case (Inr secs)
    show ?thesis
    proof (cases input)
      case input: (Inr lines)
      let ?ts = "env_set_order X (ingest_targets (env_net X) exclude (readable_lines lines))"
      show ?thesis
      proof (cases "?ts = []")
        case False
        with assms(1) v Inr input have "then_run (ban_chunks X reason secs exact now (chunks 500 ?ts) w)
            (\<lambda>w. Some (Inr (), [ReportIngested (length ?ts)], w)) \<noteq> None \<and>
          w' = snd (snd (the (then_run (ban_chunks X reason secs exact now (chunks 500 ?ts) w)
            (\<lambda>w. Some (Inr (), [ReportIngested (length ?ts)], w)))))"
          by (auto simp: exec_cli_ingest_def Let_def then_run_def [of "Some _"] bind_eq_Some_conv)
        then have "\<exists>res reports. ban_chunks X reason secs exact now (chunks 500 ?ts) w = Some (res, reports, w')"
          by (cases "ban_chunks X reason secs exact now (chunks 500 ?ts) w") (auto simp: then_run_def split: sum.split_asm)
        then show ?thesis by blast
      qed (use assms(1) v Inr input in \<open>simp add: exec_cli_ingest_def\<close>)
    qed (use assms(1) v Inr in \<open>simp add: exec_cli_ingest_def\<close>)
  qed (use assms(1) v in \<open>auto simp: exec_cli_ingest_def\<close>)
  with ban_chunks_file [OF assms(3) _ assms(2)] assms(2) show ?thesis by auto
qed

lemma exec_cli_list_world:
  assumes "exec_cli_list X format active_only most now w = Some (res, reports, w')"
  shows "w' = w \<or> w' = after_open X w"
proof -
  obtain out where "rendered_records X format active_only most now w = Some out"
    using assms by (cases "rendered_records X format active_only most now w") (simp_all add: exec_cli_list_def)
  with assms show ?thesis
    by (auto simp: exec_cli_list_def split: sum.split_asm cli_error.split_asm)
qed

lemma exec_cli_export_world:
  assumes "exec_cli_export X file format active_only now w = Some (res, reports, w')"
  shows "w' = w \<or> w' = after_open X w \<or> (\<exists>files. w' = (after_open X w)\<lparr>written := files\<rparr>)"
proof -
  obtain out where "rendered_records X format active_only 100000 now w = Some out"
    using assms by (cases "rendered_records X format active_only 100000 now w") (simp_all add: exec_cli_export_def)
  with assms show ?thesis
    by (auto simp: exec_cli_export_def split: sum.split_asm cli_error.split_asm option.split_asm)
qed

lemma command_file:
  assumes "handle_quarantine_command X read_input cmd now w = Some (res, reports, w')" "running w = None"
    and "\<forall>i. engine_laws (env_engine X i)"
  shows "file_becomes (env_net X) (lifting_command cmd) w w'"
proof -
  have l: "\<forall>i. engine_laws (later_engines X i)" "engine_laws (env_engine X 1)"
    using assms(3) by (simp_all add: later_engines_def)
  note a = after_open_file [OF assms(2)]
  have r: "file_becomes (env_net X) lifts w (w1\<lparr>written := u\<rparr>)" if "file_becomes (env_net X) lifts w w1" for lifts w1 u
    using that unfolding file_becomes_def by (auto simp: stored_def file_db_def)
  note defs = handle_quarantine_command_def exec_cli_unban_def exec_cli_clear_def exec_cli_status_def
  show ?thesis
  proof (cases cmd)
    case (CmdList f b u)
    then show ?thesis using assms(1,2) a exec_cli_list_world [of X f b u now w res reports w'] by (auto simp: defs)
  next
    case (CmdExport f g b)
    then show ?thesis using assms(1,2) a r exec_cli_export_world [of X f g b now w res reports w'] by (auto simp: defs)
  next
    case (CmdUnban ts)
    then show ?thesis using assms(1,2) offline_unban_becomes [OF l(1), of "env_net X"]
      by (auto simp: defs case_prod_unfold Let_def dest!: open_file_stored split: sum.splits)
  next
    case CmdClear
    then show ?thesis using assms(1,2) becomes_unban_all [OF l(2), of "env_net X"]
      by (auto simp: defs case_prod_unfold Let_def dest!: open_file_stored split: sum.splits)
  next
    case (CmdBan ts reason dur exact)
    then show ?thesis using assms exec_cli_ban_file by (simp add: defs)
  next
    case (CmdIngestLogs i reason dur ex exact)
    then show ?thesis using assms exec_cli_ingest_file by (simp add: defs)
  next
    case CmdStatus
    then show ?thesis using assms(1,2) a by (auto simp: defs)
  qed
qed

text \<open>
  A command that panics has changed no row. The panics of a single ban (a duration that overflows) come
  before its statements, and those of a list or an export have none to come; of the bans of an
  ingestion only the first can panic, since what panics does not depend on the targets.
\<close>

lemma later_bans_run:
  fixes secs :: u64
  assumes "exec_cli_ban X ts reason (show_word secs) exact now w = Some (Inr (), reports, w1)"
    and "running w = None" "running w' = None"
  shows "exec_cli_ban X ts' reason (show_word secs) exact now w' \<noteq> None"
proof -
  obtain db where "open_file X w = Inr db"
    using assms(1,2) by (cases "open_file X w") (auto simp: exec_cli_ban_def)
  with assms(1,2) obtain ms e where "mul_u64 (env_checks X) secs 1000 = Some ms" "add_u64 (env_checks X) now ms = Some e"
    by (auto simp: exec_cli_ban_def bind_eq_Some_conv)
  with assms(3) show ?thesis
    by (cases "open_file X w'") (simp_all add: exec_cli_ban_def case_prod_unfold Let_def)
qed

lemma ingestion_panics_first:
  assumes "ban_chunks X reason secs exact now (c # cs) w = None" "running w = None" "\<forall>i. engine_laws (env_engine X i)"
  shows "exec_cli_ban X c reason (show_word secs) exact now w = None"
proof (rule ccontr)
  assume "exec_cli_ban X c reason (show_word secs) exact now w \<noteq> None"
  then obtain res reports w1 where c: "exec_cli_ban X c reason (show_word secs) exact now w = Some (res, reports, w1)" by auto
  with assms(1) have res: "res = Inr ()" and n: "ban_chunks X reason secs exact now cs w1 = None"
    by (cases "ban_chunks X reason secs exact now cs w1"; auto simp: then_run_def split: sum.split_asm)+
  have run: "ban_chunks X reason secs exact now cs w' \<noteq> None" if "running w' = None" for w'
    using that
  proof (induction cs arbitrary: w')
    case (Cons d ds)
    obtain r where d: "exec_cli_ban X d reason (show_word secs) exact now w' = Some r"
      using later_bans_run [OF c [unfolded res] assms(2) Cons.prems] by blast
    then have "running (snd (snd r)) = None"
      using exec_cli_ban_file [of X d reason _ exact now w' "fst r" "fst (snd r)" "snd (snd r)"] Cons.prems assms(3)
      by (simp add: file_becomes_def)
    from Cons.IH [OF this] d show ?case by (auto simp: then_run_def case_prod_unfold split: sum.split)
  qed simp
  have "running w1 = None" using exec_cli_ban_file [OF c assms(2,3)] by (simp add: file_becomes_def)
  from run [OF this] n show False by simp
qed

section \<open>Lives\<close>

text \<open>
  A daemon is started as \<open>run_serve\<close> starts it, on the file that is there, and stopped in any state,
  by the signal or a crash; the records in the channel are lost with it. One that cannot open the file,
  or is not to persist, leaves it alone. A command runs while no daemon does; one that panics may have
  created the tables before.
\<close>

datatype ('h, 's, 'c, 'n, 'q) life =
    DaemonLife "('h, 's, 'c, 'n, 'q) server" "('h, 's, 'c, 'n) server_event list" "('h, 's, 'c, 'n, 'q) server"
  | OfflineCommand "('q, 'n) cli_env" quarantine_commands

definition tables :: "quarantine_db option \<Rightarrow> quarantine_db" where
  "tables file = (case file of Some db \<Rightarrow> db | None \<Rightarrow> empty_db)"

inductive life_step ::
    "bool \<Rightarrow> 'n ipnet_lib \<Rightarrow> ('q, 'n) phylax_quarantine \<Rightarrow> ('r, 'k) tls_lib \<Rightarrow> quarantine_db option \<Rightarrow>
     ('h, 's, 'c, 'n, 'q) life \<Rightarrow> quarantine_db option \<Rightarrow> bool" for checks N A T where
  daemon_life: "run_serve read toml T now p = Inr d \<Longrightarrow> https_service bind_port P N B d = Inr s0 \<Longrightarrow>
     be_file B (resolved_quarantine_db (be_env B) (cfg_security (pr_config (sv_proxy d)))) = file \<Longrightarrow>
     run_of (server_step checks N A) s0 es s \<Longrightarrow>
     life_step checks N A T file (DaemonLife s0 es s)
       (case manager_of (sr_state s) of Some qm \<Rightarrow> Some (daemon_db qm) | None \<Rightarrow> file)"
| offline_command: "running w = None \<Longrightarrow> disk w = file \<Longrightarrow> env_net X = N \<Longrightarrow>
     handle_quarantine_command X read_input cmd now w = Some (res, reports, w') \<Longrightarrow>
     life_step checks N A T file (OfflineCommand X cmd) (disk w')"
| panicking_command: "running w = None \<Longrightarrow> disk w = file \<Longrightarrow> env_net X = N \<Longrightarrow>
     handle_quarantine_command X read_input cmd now w = None \<Longrightarrow> w' = w \<or> w' = after_open X w \<Longrightarrow>
     life_step checks N A T file (OfflineCommand X cmd) (disk w')"

text \<open>Lives with an engine that lists every row, and those in which no operator lifts bans.\<close>

fun life_ok :: "('h, 's, 'c, 'n, 'q) life \<Rightarrow> bool" where
  "life_ok (DaemonLife s0 es s) = list_all server_event_ok es"
| "life_ok (OfflineCommand X cmd) = (\<forall>i. engine_laws (env_engine X i))"

fun lifts_nothing :: "('h, 's, 'c, 'n, 'q) life \<Rightarrow> bool" where
  "lifts_nothing (DaemonLife s0 es s) = list_all lifts_no_ban es"
| "lifts_nothing (OfflineCommand X cmd) = ((\<forall>i. engine_laws (env_engine X i)) \<and> \<not> lifting_command cmd)"

lemma lifts_nothing_ok: "lifts_nothing x \<Longrightarrow> life_ok x"
  by (cases x) (auto simp: list_all_iff lifts_no_ban_ok)

lemma boot_open_tables: "boot_open B p = Inr db \<Longrightarrow> db = tables (be_file B p)"
  by (auto simp: boot_open_def open_store_def init_schema_def tables_def result_bind_def split: option.splits sum.splits)

text \<open>A daemon without a manager has none in any later state.\<close>

lemma serving_manager:
  assumes "manager_of (serving_state P N B d) = Some qm"
  shows "persist_quarantine (cfg_security (pr_config (sv_proxy d))) \<and>
    (\<exists>db. boot_open B (resolved_quarantine_db (be_env B) (cfg_security (pr_config (sv_proxy d)))) = Inr db)"
  using assms
  by (auto simp: manager_of_def serving_state_def initial_proxy_state_def build_edge_defense_def new_edge_defense_def
      Let_def split: if_splits sum.splits)

lemma boot_ok:
  assumes "run_serve read toml T now p = Inr d"
    and "be_file B (resolved_quarantine_db (be_env B) (cfg_security (pr_config (sv_proxy d)))) = file"
    and "store_inv (tables file)"
  shows "well_formed (serving_state P N B d)"
    and "manager_of (serving_state P N B d) = Some qm \<Longrightarrow> daemon_db qm = tables file \<and> receiver_alive qm"
proof -
  have m: "daemon_db qm = tables file \<and> receiver_alive qm \<and> well_formed (serving_state P N B d)"
    if q: "manager_of (serving_state P N B d) = Some qm" for qm
  proof -
    obtain db where p: "persist_quarantine (cfg_security (pr_config (sv_proxy d)))"
      "boot_open B (resolved_quarantine_db (be_env B) (cfg_security (pr_config (sv_proxy d)))) = Inr db"
      using serving_manager [OF q] by blast
    have "db = tables file" using boot_open_tables [OF p(2)] assms(2) by simp
    with boot_known [OF p, of P N] boot_well_formed [OF assms(1) p, of P N] assms(3) q show ?thesis by simp
  qed
  then show "manager_of (serving_state P N B d) = Some qm \<Longrightarrow> daemon_db qm = tables file \<and> receiver_alive qm" by blast
  show "well_formed (serving_state P N B d)"
  proof (cases "manager_of (serving_state P N B d)")
    case None
    have "ring_records (sv_telemetry d) = []"
      using assms(1) by (auto simp: run_serve_def new_ring_def split: sum.splits)
    with None show ?thesis by (simp add: well_formed_def serving_state_def initial_proxy_state_def)
  qed (use m in blast)
qed

lemma life_step_becomes:
  assumes "life_step checks N A T file x file'" "life_ok x" "store_inv (tables file)"
  shows "becomes N (\<not> lifts_nothing x) (tables file) (tables file')"
  using assms(1)
proof cases
  case (daemon_life read toml now p d bind_port P B s0 es s)
  have s0: "s0 = listening (serving_state P N B d)" using daemon_life(4) by (simp add: https_service_starts)
  note wf = boot_ok(1) [OF daemon_life(3,5) assms(3), of P N]
  show ?thesis
  proof (cases "manager_of (serving_state P N B d)")
    case None
    have "manager_of (sr_state s) = None"
      using server_run_frame(2) [OF daemon_life(6) [unfolded s0] _ wf] assms(2) daemon_life(1) None by (simp add: same_frame_def)
    then show ?thesis by (simp add: daemon_life(2))
  next
    case (Some qm0)
    have start: "server_ok s0 \<and> (\<exists>qm. manager_of (sr_state s0) = Some qm \<and> daemon_db qm = tables file)"
      using wf Some boot_ok(2) [OF daemon_life(3,5) assms(3) Some] by (simp add: s0)
    have es: "list_all server_event_ok es" using assms(2) daemon_life(1) by simp
    obtain qm where q: "manager_of (sr_state s) = Some qm"
      "becomes N (list_ex lifting_event es) (tables file) (daemon_db qm)"
      using written.inv_run [OF daemon_life(6) start es] by blast
    have "lifts_nothing x \<longrightarrow> \<not> list_ex lifting_event es" by (simp add: daemon_life(1) lifts_no_ban_list)
    with q(2) have "becomes N (\<not> lifts_nothing x) (tables file) (daemon_db qm)" unfolding becomes_def by blast
    with q(1) show ?thesis by (simp add: daemon_life(2) tables_def [of "Some _"])
  qed
next
  case (offline_command w X read_input cmd now res reports w')
  have s: "stored w = tables file" "running w' = None \<Longrightarrow> stored w' = tables file'"
    using offline_command by (simp_all add: stored_def file_db_def tables_def)
  have "\<forall>i. engine_laws (env_engine X i)" using assms(2) offline_command(1) by simp
  with command_file [OF offline_command(6,3)] s offline_command(1,5) show ?thesis
    by (auto simp: file_becomes_def becomes_def)
next
  case (panicking_command w X read_input cmd now w')
  have "file_becomes N lifts w w'" for lifts
    using panicking_command(3,7) after_open_file [of w N lifts X] by auto
  then have "running w' = None" "becomes N (\<not> lifts_nothing x) (stored w) (stored w')"
    by (simp_all add: file_becomes_def)
  with panicking_command(2-4) show ?thesis by (simp add: stored_def file_db_def tables_def)
qed

interpretation kept_file: trace_invariant
    "life_step checks N A T :: _ \<Rightarrow> ('h, 's, 'c, 'n, 'q) life \<Rightarrow> _" life_ok "\<lambda>file. store_inv (tables file)"
    "\<lambda>file lives file'. store_inv (tables file') \<and> becomes N True (tables file) (tables file')"
  for checks N A T
proof unfold_locales
  fix f0 f' f'' :: "quarantine_db option" and lives :: "('h, 's, 'c, 'n, 'q) life list" and x :: "('h, 's, 'c, 'n, 'q) life"
  assume i: "store_inv (tables f') \<and> becomes N True (tables f0) (tables f')" "life_ok x" "life_step checks N A T f' x f''"
  note b = life_step_becomes [OF i(3,2) conjunct1 [OF i(1)]]
  from becomes_inv [OF b] becomes_trans [OF conjunct2 [OF i(1)] b] i(1)
  show "store_inv (tables f'') \<and> becomes N True (tables f0) (tables f'')" by simp
qed simp

text \<open>
  C8: the lives of the program refine the store. Whatever daemons are started on a database file and
  stopped or crash, with whatever clients, and whatever commands are given between, with statements that
  fail at any point: the tables of the file have become what a history of the store's operations makes
  of them, they are consistent, and the audit log has only grown.
\<close>

theorem lives_refine_store:
  assumes "run_of (life_step checks N A T) file lives file'" "list_all life_ok lives" "store_inv (tables file)"
  shows "\<exists>ops. list_all op_ok ops \<and> tables file' = foldl (apply_op N) (tables file) ops \<and>
    store_inv (tables file') \<and> prefix (db_audit (tables file)) (db_audit (tables file'))"
proof -
  have "becomes N True (tables file) (tables file')" "store_inv (tables file')"
    using kept_file.inv_run [OF assms(1,3,2)] by simp_all
  then show ?thesis unfolding becomes_def using history_append_only by metis
qed

section \<open>Bans outlive the daemon\<close>

text \<open>
  The networks of the clients that a life of a daemon has trapped and answered; those whose records were
  still queued when it stopped, and those whose write had failed.
\<close>

fun trapped_in :: "('h, 's, 'c, 'n, 'q) life \<Rightarrow> string \<Rightarrow> bool" where
  "trapped_in (DaemonLife s0 es s) cidr =
     (manager_of (sr_state s) \<noteq> None \<and>
       (\<exists>rid c res sent reason. sr_tasks s rid = Some (c, Finished res sent) \<and> tripped (sr_state s0) c reason \<and>
          px_derive_cidr (pe_phylax (ca_env c)) (show_ip (ca_ip c)) = Some cidr))"
| "trapped_in (OfflineCommand X cmd) cidr = False"

fun queued_at_end :: "('h, 's, 'c, 'n, 'q) life \<Rightarrow> string set" where
  "queued_at_end (DaemonLife s0 es s) =
     (case manager_of (sr_state s) of None \<Rightarrow> {} | Some qm \<Rightarrow> qr_cidr ` set (channel qm))"
| "queued_at_end (OfflineCommand X cmd) = {}"

fun failed_in ::
    "bool \<Rightarrow> 'n ipnet_lib \<Rightarrow> ('q, 'n) phylax_quarantine \<Rightarrow> ('h, 's, 'c, 'n, 'q) life \<Rightarrow> string set" where
  "failed_in checks N A (DaemonLife s0 es s) = writes_failed checks N A s0 es"
| "failed_in checks N A (OfflineCommand X cmd) = {}"

lemma life_step_bans:
  assumes "life_step checks N A T file x file'" "lifts_nothing x" "store_inv (tables file)" "trapped_in x cidr"
    and "cidr \<notin> queued_at_end x \<union> failed_in checks N A x"
  shows "cidr \<in> active_set (tables file')"
  using assms(1)
proof cases
  case (daemon_life read toml now p d bind_port P B s0 es s)
  have s0: "s0 = listening (serving_state P N B d)" using daemon_life(4) by (simp add: https_service_starts)
  note wf = boot_ok(1) [OF daemon_life(3,5) assms(3), of P N]
  have es: "list_all lifts_no_ban es" using assms(2) daemon_life(1) by simp
  obtain qm rid c res sent reason where b: "manager_of (sr_state s) = Some qm"
    "sr_tasks s rid = Some (c, Finished res sent)" "tripped (sr_state s0) c reason"
    "px_derive_cidr (pe_phylax (ca_env c)) (show_ip (ca_ip c)) = Some cidr"
    using assms(4) daemon_life(1) by auto
  have "list_all server_event_ok es" using es by (simp add: lifts_no_ban_list)
  from server_run_frame(2) [OF daemon_life(6) [unfolded s0] this wf] b(1)
  obtain qm0 where q0: "manager_of (serving_state P N B d) = Some qm0" by (auto simp: same_frame_def)
  have "receiver_alive qm0" using boot_ok(2) [OF daemon_life(3,5) assms(3) q0] by simp
  with finished_tripped [OF daemon_life(6) [unfolded s0] es wf q0 _ b(2) _ b(4)] b(1,3) s0 assms(5) daemon_life(1)
  have "cidr \<in> active_set (daemon_db qm)" by (auto simp: known_def)
  with b(1) show ?thesis by (simp add: daemon_life(2) tables_def)
qed (use assms(4) in auto)

interpretation outlived: trace_invariant
    "life_step checks N A T :: _ \<Rightarrow> ('h, 's, 'c, 'n, 'q) life \<Rightarrow> _" lifts_nothing "\<lambda>file. store_inv (tables file)"
    "\<lambda>file lives file'. store_inv (tables file') \<and>
       active_set (tables file) \<union> {cidr. \<exists>x \<in> set lives. trapped_in x cidr \<and> cidr \<notin> queued_at_end x \<union> failed_in checks N A x} \<subseteq> active_set (tables file')"
  for checks N A T
proof unfold_locales
  fix f0 f' f'' :: "quarantine_db option" and lives :: "('h, 's, 'c, 'n, 'q) life list" and x :: "('h, 's, 'c, 'n, 'q) life"
  assume i: "store_inv (tables f') \<and>
      active_set (tables f0) \<union> {cidr. \<exists>x \<in> set lives. trapped_in x cidr \<and> cidr \<notin> queued_at_end x \<union> failed_in checks N A x} \<subseteq> active_set (tables f')"
    and x: "lifts_nothing x" "life_step checks N A T f' x f''"
  note inv = conjunct1 [OF i]
  have b: "becomes N False (tables f') (tables f'')"
    using life_step_becomes [OF x(2) lifts_nothing_ok [OF x(1)] inv] x(1) by simp
  from becomes_inv [OF b inv] becomes_active [OF b inv] life_step_bans [OF x(2,1) inv] i
  show "store_inv (tables f'') \<and>
      active_set (tables f0) \<union> {cidr. \<exists>x \<in> set (lives @ [x]). trapped_in x cidr \<and> cidr \<notin> queued_at_end x \<union> failed_in checks N A x} \<subseteq> active_set (tables f'')"
    by auto
qed simp

text \<open>
  C7: bans outlive the daemon that made them. Over any sequence of daemons and commands in which no
  operator lifts bans, with statements of the store that fail at any point: the networks that were banned in
  the file at the beginning are banned in it at the end, and so is the network of every client that tripped
  a trap of one of the daemons and was answered, except a network whose record was still queued when that
  daemon stopped, or whose write failed in its run. Those exceptions are real: \<open>queued_ban_lost\<close>
  and \<open>failed_write_lost\<close>. The clock is of this era and a query of the engine yields every row once.
\<close>

theorem bans_outlive_daemons:
  assumes "run_of (life_step checks N A T) file lives file'" "list_all lifts_nothing lives" "store_inv (tables file)"
  shows "active_set (tables file) \<union> {cidr. \<exists>x \<in> set lives. trapped_in x cidr \<and> cidr \<notin> queued_at_end x \<union> failed_in checks N A x} \<subseteq> active_set (tables file')"
  using outlived.inv_run [OF assms(1,3,2)] by blast

text \<open>Two daemons, one after the other; a client attacks the first.\<close>

lemma example_lives:
  "\<exists>lives file. run_of (life_step True cidr_lib list_quarantine map_tls) (Some empty_db)
       (lives :: ((string \<times> string) list, unit, string, cidr, (cidr \<times> u64) list) life list) file \<and>
     list_all lifts_nothing lives \<and> length lives = 2 \<and> (\<exists>x \<in> set lives. trapped_in x ''198.51.100.0/24'' \<and>
       ''198.51.100.0/24'' \<notin> queued_at_end x \<union> failed_in True cidr_lib list_quarantine x)"
proof -
  let ?c = "\<lparr>ca_conn = 0, ca_env = plain_env, ca_request = plain_request (Some ''q=UNION''),
     ca_ip = V4 198 51 100 7, ca_tls = None\<rparr>"
  let ?serve = "run_serve (\<lambda>_. Inr []) (\<lambda>_. Inr (default_config\<lparr>cfg_routes := two_routes\<rparr>)) map_tls 0 ''propylea.toml''"
  obtain d where d: "?serve = Inr d" using two_routes_serve by blast
  then obtain g ring rd a acc where d': "d = \<lparr>sv_governor = g, sv_telemetry = ring, sv_redirect = rd,
      sv_proxy = \<lparr>pr_bind = a, pr_acceptor = acc, pr_config = default_config\<lparr>cfg_routes := two_routes\<rparr>\<rparr>\<rparr>"
    by (auto simp: run_serve_def two_routes_load split: sum.splits)
  let ?st = "\<lambda>db. serving_state word_guard cidr_lib (plain_boot db) d"
  have s: "https_service (\<lambda>_. Inr ()) word_guard cidr_lib (plain_boot db) d = Inr (listening (?st db))" for db
    by (simp add: https_service_starts)
  have f: "be_file (plain_boot db) x = Some db" for db x by (simp add: plain_boot_def)
  have p: "persist_quarantine (cfg_security (pr_config (sv_proxy d)))"
    by (simp add: d' default_config_def default_security_def)
  have b: "boot_open (plain_boot db) x = Inr db" for db x
    by (simp add: plain_boot_def boot_open_def open_store_def init_schema_def)
  obtain qm where q: "manager_of (?st empty_db) = Some qm" "receiver_alive qm"
    using boot_known [OF p b] by blast
  obtain es s1 qm1 res sent where r: "run_of (server_step True cidr_lib list_quarantine) (listening (?st empty_db)) es s1"
    "list_all lifts_no_ban es" "list_all worker_stores es" "sr_tasks s1 0 = Some (?c, Finished res sent)"
    "manager_of (sr_state s1) = Some qm1" "channel qm1 = []"
    using visit_and_work [OF boot_well_formed [OF d p b store_inv_empty] q plain_service [OF d']] by blast
  let ?x = "DaemonLife (listening (?st empty_db)) es s1"
  let ?y = "DaemonLife (listening (?st (daemon_db qm1))) [] (listening (?st (daemon_db qm1)))
    :: ((string \<times> string) list, unit, string, cidr, (cidr \<times> u64) list) life"
  have x: "life_step True cidr_lib list_quarantine map_tls (Some empty_db) ?x (Some (daemon_db qm1))"
    using life_step.daemon_life [OF d s f r(1)] r(5) by simp
  obtain f2 where y: "life_step True cidr_lib list_quarantine map_tls (Some (daemon_db qm1)) ?y f2"
    using life_step.daemon_life [OF d s f run_of.run_Nil, of True list_quarantine "daemon_db qm1"] by (rule that)
  have "run_of (life_step True cidr_lib list_quarantine map_tls) (Some empty_db) [?x, ?y] f2"
    by (rule run_Cons [of "life_step True cidr_lib list_quarantine map_tls", OF x
        run_Cons [of "life_step True cidr_lib list_quarantine map_tls", OF y run_of.run_Nil]])
  moreover have "trapped_in ?x ''198.51.100.0/24''"
    using r(4,5) plain_service [OF d'] plain_trap(2) by (fastforce simp: plain_env_simps)
  moreover have "''198.51.100.0/24'' \<notin> queued_at_end ?x \<union> failed_in True cidr_lib list_quarantine ?x"
  proof -
    have "server_ok (listening (?st empty_db))" by (simp add: boot_well_formed [OF d p b store_inv_empty])
    from none_failed [OF r(2,3) this, of True cidr_lib list_quarantine] r(5,6) show ?thesis by simp
  qed
  ultimately show ?thesis using r(2) by (intro exI [of _ "[?x, ?y]"] exI [of _ f2]) simp
qed

theorem bans_outlive_daemons_witness:
  "\<exists>lives file. run_of (life_step True cidr_lib list_quarantine map_tls) (Some empty_db)
       (lives :: ((string \<times> string) list, unit, string, cidr, (cidr \<times> u64) list) life list) file \<and>
     length lives = 2 \<and> ''198.51.100.0/24'' \<in> active_set (tables file)"
proof -
  obtain lives :: "((string \<times> string) list, unit, string, cidr, (cidr \<times> u64) list) life list" and f where l: "run_of (life_step True cidr_lib list_quarantine map_tls) (Some empty_db)
       lives f"
    "list_all lifts_nothing lives" "length lives = 2" "\<exists>x \<in> set lives. trapped_in x ''198.51.100.0/24'' \<and>
       ''198.51.100.0/24'' \<notin> queued_at_end x \<union> failed_in True cidr_lib list_quarantine x"
    using example_lives by blast
  from bans_outlive_daemons [OF l(1,2)] l(1,3,4) show ?thesis
    by (auto simp: tables_def [of "Some empty_db"] store_inv_empty)
qed

theorem lives_refine_store_witness:
  "\<exists>lives file ops. run_of (life_step True cidr_lib list_quarantine map_tls) (Some empty_db)
       (lives :: ((string \<times> string) list, unit, string, cidr, (cidr \<times> u64) list) life list) file \<and>
     length lives = 2 \<and> tables file = foldl (apply_op cidr_lib) empty_db ops \<and> store_inv (tables file)"
proof -
  obtain lives :: "((string \<times> string) list, unit, string, cidr, (cidr \<times> u64) list) life list" and f where l: "run_of (life_step True cidr_lib list_quarantine map_tls) (Some empty_db)
       lives f"
    "list_all lifts_nothing lives" "length lives = 2"
    using example_lives by blast
  have "list_all life_ok lives" using l(2) lifts_nothing_ok by (auto simp: list_all_iff)
  from lives_refine_store [OF l(1) this] l(1,3) show ?thesis
    by (auto simp: tables_def [of "Some empty_db"] store_inv_empty)
qed

section \<open>A ban that does not outlive its daemon\<close>

text \<open>Without the worker the store stays as it is: a daemon that is stopped before its turn loses the ban.\<close>

fun in_front :: "('h, 's, 'c, 'n) server_event \<Rightarrow> bool" where
  "in_front (Background e) = False"
| "in_front _ = True"

lemma front_keeps_store:
  assumes "run_of (server_step checks N A) s es s'" "list_all in_front es" "manager_of (sr_state s) = Some qm"
  shows "\<exists>qm'. manager_of (sr_state s') = Some qm' \<and> daemon_db qm' = daemon_db qm"
  using assms(1,2)
proof (induction rule: run_of.induct)
  case run_Nil
  then show ?case using assms(3) by blast
next
  case (run_snoc es s1 e s2)
  then obtain qm1 where q: "manager_of (sr_state s1) = Some qm1" "daemon_db qm1 = daemon_db qm" by auto
  from run_snoc.hyps(2) show ?case
  proof cases
    case (task rid c ph)
    with task_store [OF q(1), of c ph] q(2) show ?thesis by auto
  qed (use q run_snoc.prems in auto)
qed

lemma queued_ban_lost:
  "\<exists>s0 s es c r qm. life_step True cidr_lib list_quarantine map_tls (Some empty_db)
       (DaemonLife s0 es s :: ((string \<times> string) list, unit, string, cidr, (cidr \<times> u64) list) life) (Some empty_db) \<and>
     list_all lifts_no_ban es \<and> tripped (sr_state s0) c ''sqli'' \<and> sr_tasks s 0 = Some (c, Finished (Inr r) []) \<and>
     manager_of (sr_state s) = Some qm \<and> daemon_db qm = empty_db \<and>
     px_derive_cidr (pe_phylax (ca_env c)) (show_ip (ca_ip c)) = Some ''198.51.100.0/24''"
proof -
  let ?c = "\<lparr>ca_conn = 0, ca_env = plain_env, ca_request = plain_request (Some ''q=UNION''),
     ca_ip = V4 198 51 100 7, ca_tls = None\<rparr>"
  let ?es = "visit (V4 198 51 100 7) None plain_env (plain_request (Some ''q=UNION''))"
  obtain d where d: "run_serve (\<lambda>_. Inr []) (\<lambda>_. Inr (default_config\<lparr>cfg_routes := two_routes\<rparr>)) map_tls 0 ''propylea.toml'' = Inr d"
    using two_routes_serve by blast
  then obtain g ring rd a acc where d': "d = \<lparr>sv_governor = g, sv_telemetry = ring, sv_redirect = rd,
      sv_proxy = \<lparr>pr_bind = a, pr_acceptor = acc, pr_config = default_config\<lparr>cfg_routes := two_routes\<rparr>\<rparr>\<rparr>"
    by (auto simp: run_serve_def two_routes_load split: sum.splits)
  let ?st = "serving_state word_guard cidr_lib (plain_boot empty_db) d"
  have s: "https_service (\<lambda>_. Inr ()) word_guard cidr_lib (plain_boot empty_db) d = Inr (listening ?st)"
    by (simp add: https_service_starts)
  have f: "be_file (plain_boot empty_db) x = Some empty_db" for x by (simp add: plain_boot_def)
  have p: "persist_quarantine (cfg_security (pr_config (sv_proxy d)))"
    by (simp add: d' default_config_def default_security_def)
  have b: "boot_open (plain_boot empty_db) x = Inr empty_db" for x
    by (simp add: plain_boot_def boot_open_def open_store_def init_schema_def)
  obtain qm where q: "manager_of ?st = Some qm" "daemon_db qm = empty_db" "receiver_alive qm"
    using boot_known [OF p b] by blast
  obtain s1 res sent where r: "run_of (server_step True cidr_lib list_quarantine) (listening ?st) ?es s1"
    "sr_tasks s1 0 = Some (?c, Finished res sent)"
    using run_visit [OF peek_nothing refl] by blast
  have l: "list_all lifts_no_ban ?es" by (simp add: visit_lifts plain_env_simps)
  have "list_all in_front ?es" by (simp add: visit_def list_all_iff)
  from front_keeps_store [OF r(1) this] q(1,2) obtain qm1 where
    q1: "manager_of (sr_state s1) = Some qm1" "daemon_db qm1 = empty_db" by auto
  have "denying (Finished res sent)"
    using finished_tripped [OF r(1) l boot_well_formed [OF d p b store_inv_empty] q(1,3) r(2) plain_service [OF d']]
      plain_trap(2) by (simp add: plain_env_simps)
  then obtain x where x: "res = Inr x" "sent = []" by auto
  have y: "life_step True cidr_lib list_quarantine map_tls (Some empty_db) (DaemonLife (listening ?st) ?es s1) (Some empty_db)"
    using life_step.daemon_life [OF d s f r(1)] q1 by simp
  have "tripped (sr_state (listening ?st)) ?c ''sqli''" using plain_service [OF d'] by simp
  moreover have "px_derive_cidr (pe_phylax (ca_env ?c)) (show_ip (ca_ip ?c)) = Some ''198.51.100.0/24''"
    using plain_trap(2) by (simp add: plain_env_simps)
  ultimately show ?thesis using y l r(2) x q1 by blast
qed

text \<open>A life that goes on, and a worker whose writes all fail: it empties the queue, and the file stays as it was.\<close>

lemma life_goes_on:
  assumes "life_step checks N A T file (DaemonLife s0 es s) file1" "run_of (server_step checks N A) s es' s'"
  shows "life_step checks N A T file (DaemonLife s0 (es @ es') s')
    (case manager_of (sr_state s') of Some qm \<Rightarrow> Some (daemon_db qm) | None \<Rightarrow> file)"
  using assms(1)
proof cases
  case (daemon_life read toml now p d bind_port P B)
  from life_step.daemon_life [OF daemon_life(2-4) run_append [OF assms(2) daemon_life(5)]] show ?thesis .
qed

definition broken_engine :: sql_engine where
  "broken_engine = \<lparr>eng_scan = (\<lambda>rows. rows), eng_error = (\<lambda>_. Some ''disk I/O error'')\<rparr>"

lemma failed_write_lost:
  "\<exists>s0 s es c r qm. life_step True cidr_lib list_quarantine map_tls (Some empty_db)
       (DaemonLife s0 es s :: ((string \<times> string) list, unit, string, cidr, (cidr \<times> u64) list) life) (Some empty_db) \<and>
     list_all lifts_no_ban es \<and> tripped (sr_state s0) c ''sqli'' \<and> sr_tasks s 0 = Some (c, Finished (Inr r) []) \<and>
     manager_of (sr_state s) = Some qm \<and> channel qm = [] \<and>
     px_derive_cidr (pe_phylax (ca_env c)) (show_ip (ca_ip c)) = Some ''198.51.100.0/24''"
proof -
  obtain s0 s es c r qm where l: "life_step True cidr_lib list_quarantine map_tls (Some empty_db)
       (DaemonLife s0 es s :: ((string \<times> string) list, unit, string, cidr, (cidr \<times> u64) list) life) (Some empty_db)"
    "list_all lifts_no_ban es" "tripped (sr_state s0) c ''sqli''" "sr_tasks s 0 = Some (c, Finished (Inr r) [])"
    "manager_of (sr_state s) = Some qm" "daemon_db qm = empty_db"
    "px_derive_cidr (pe_phylax (ca_env c)) (show_ip (ca_ip c)) = Some ''198.51.100.0/24''"
    using queued_ban_lost by blast
  have fails: "snd (record_ban broken_engine rec db) = db" for rec db
    by (auto simp: record_ban_def transaction_def run_stmt_def broken_engine_def result_bind_def split: sum.splits)
  let ?ts = "replicate (length (channel qm)) (Background (WorkerTurn broken_engine))"
  obtain s' qm' where w: "run_of (server_step True cidr_lib list_quarantine) s ?ts s'" "sr_tasks s' = sr_tasks s"
    "manager_of (sr_state s') = Some qm'" "channel qm' = []" "daemon_db qm' = empty_db"
    using run_worker_turns [OF l(5), of True cidr_lib list_quarantine broken_engine] fails l(6) by auto
  have "life_step True cidr_lib list_quarantine map_tls (Some empty_db) (DaemonLife s0 (es @ ?ts) s') (Some empty_db)"
    using life_goes_on [OF l(1) w(1)] w(3,5) by simp
  moreover have "list_all lifts_no_ban (es @ ?ts)"
    using l(2) by (auto simp: list_all_iff lifts_no_ban_def engine_laws_def broken_engine_def)
  ultimately show ?thesis using l(3,4,7) w(2-4) by metis
qed

end
