(* ===== verification/Entry.thy ===== *)
theory Entry
  imports Startup_Props Listeners
begin

text \<open>
  The two programs: \<open>src/main.rs\<close> with \<open>execute_cli\<close>, and \<open>src/bin/crucible_gate.rs\<close> with \<open>run_crucible_gate\<close>,
  up to the status of their processes. Reading the arguments is clap, a parameter: it ends the process
  itself, for a usage error or a request for help, or yields the options.
\<close>

section \<open>The proxy\<close>

text \<open>
  An \<open>Err\<close> that \<open>main\<close> returns gives the status 1, a panic 101; a start that fails calls \<open>exit(1)\<close>. A
  daemon that runs ends by the signal, or at once when the system cannot deliver it.
\<close>

definition execution_status :: "string + unit \<Rightarrow> ('r, 'k, 'q) execution \<Rightarrow> nat" where
  "execution_status ctrl_c x =
     (case x of
        ServeExecution (Inl _) \<Rightarrow> 1
      | ServeExecution (Inr _) \<Rightarrow> (case ctrl_c of Inr _ \<Rightarrow> 0 | Inl _ \<Rightarrow> 1)
      | CheckExecution (_, Inl _) \<Rightarrow> 1
      | CheckExecution (_, Inr _) \<Rightarrow> 0
      | QuarantineExecution None \<Rightarrow> 101
      | QuarantineExecution (Some (Inl _, _)) \<Rightarrow> 1
      | QuarantineExecution (Some (Inr _, _)) \<Rightarrow> 0)"

definition propylea_main ::
    "(string list \<Rightarrow> nat + cli) \<Rightarrow> (string \<Rightarrow> string + string) \<Rightarrow> (string \<Rightarrow> string + propylea_config) \<Rightarrow>
     ('r, 'k) tls_lib \<Rightarrow> nat \<Rightarrow> ('q, 'n) cli_system \<Rightarrow> string + unit \<Rightarrow> string list \<Rightarrow> nat" where
  "propylea_main parse read toml T now S ctrl_c args =
     (case parse args of
        Inl status \<Rightarrow> status
      | Inr cli \<Rightarrow> execution_status ctrl_c (execute_cli read toml T now S cli))"

lemma status_serve [simp]:
  "execution_status ctrl_c (ServeExecution r) = 0 \<longleftrightarrow> (\<exists>d u. r = Inr d \<and> ctrl_c = Inr u)"
  by (cases r; cases ctrl_c) (simp_all add: execution_status_def)

lemma status_check [simp]: "execution_status ctrl_c (CheckExecution r) = 0 \<longleftrightarrow> snd r = Inr ()"
  by (cases r; cases "snd r") (auto simp: execution_status_def)

lemma status_quarantine [simp]:
  "execution_status ctrl_c (QuarantineExecution r) = 0 \<longleftrightarrow> (\<exists>out. r = Some (Inr (), out))"
  by (cases r) (auto simp: execution_status_def split: sum.splits)

text \<open>
  The status of \<open>check\<close> in a script before \<open>serve\<close>: for a configuration whose keys can sign and whose
  domains the certificate resolver accepts, it is zero exactly when the daemon would run until its signal.
\<close>

lemma check_status_tells_serve:
  assumes "parse checking = Inr \<lparr>cli_command = Some (Check p False), cli_config = c\<rparr>"
    and "parse serving = Inr \<lparr>cli_command = Some (Serve p), cli_config = c'\<rparr>" "registration_law T"
    and "\<forall>c. load_from_file read toml p = Inr c \<longrightarrow>
      (\<forall>route \<in> set (cfg_routes c). key_signs T route \<and> domains_accepted T route)"
  shows "propylea_main parse read toml T now S ctrl_c checking = 0 \<longleftrightarrow>
    propylea_main parse read toml T now' S (Inr ()) serving = 0"
  using assms serve_iff [OF assms(3), of read toml now' p]
  by (auto simp: propylea_main_def execute_cli_def run_check_ok)

text \<open>Without a subcommand the program serves the configuration of the global option.\<close>

lemma no_command_serves:
  assumes "parse plain = Inr \<lparr>cli_command = None, cli_config = p\<rparr>"
    and "parse serving = Inr \<lparr>cli_command = Some (Serve p), cli_config = c\<rparr>"
  shows "propylea_main parse read toml T now S ctrl_c plain = propylea_main parse read toml T now S ctrl_c serving"
  by (simp add: propylea_main_def execute_cli_def assms)

section \<open>The gate\<close>

text \<open>The status of a gate that does not start, or the gate that listens.\<close>

definition gate_main ::
    "(string list \<Rightarrow> nat + crucible_opts) \<Rightarrow> ('q, 'c) crucible_lib \<Rightarrow> sql_engine \<Rightarrow> (string \<Rightarrow> string option) \<Rightarrow>
     (string \<Rightarrow> quarantine_db option) \<Rightarrow> (socket_addr \<Rightarrow> string + unit) \<Rightarrow> string list \<Rightarrow> nat + 'q gate" where
  "gate_main parse K E dir_error file bind_port args =
     (case parse args of
        Inl status \<Rightarrow> Inl status
      | Inr opts \<Rightarrow>
          (case start_gate K E dir_error file opts of
             Inl _ \<Rightarrow> Inl 1
           | Inr (addr, ctx) \<Rightarrow> (case bind_port addr of Inl _ \<Rightarrow> Inl 1 | Inr _ \<Rightarrow> Inr (gate_listening ctx))))"

text \<open>With its default options the gate has a good address: only the store or the port can stop it.\<close>

lemma default_gate_listens:
  assumes "parse args = Inr default_crucible_opts" "bind_port \<lparr>sa_ip = V4 127 0 0 1, sa_port = 8999\<rparr> = Inr ()"
    and "open_store E (dir_error (co_db default_crucible_opts)) (file (co_db default_crucible_opts)) = Inr db"
  shows "gate_main parse K E dir_error file bind_port args =
    Inr (gate_listening \<lparr>gc_quarantine = ck_quarantine_new K 1 (3600 * 1000), gc_store = db\<rparr>)"
proof -
  have "parse_socket_addr (co_bind default_crucible_opts) = Some \<lparr>sa_ip = V4 127 0 0 1, sa_port = 8999\<rparr>" by code_simp
  with assms show ?thesis by (simp add: gate_main_def start_gate_def)
qed

end
