(* ===== verification/Unit_Tests.thy ===== *)
theory Unit_Tests
  imports Framing_Guard Headers Router Sanitize Telemetry Governor Tls_Fingerprint Acme Redirect Config Tls
    Startup_Props Defense_Props
begin

text \<open>
  The unit tests of the repository, run on the model: \<open>framing_guard/tests.rs\<close> and the test modules at
  the end of the source files. Each test is a boolean with its assertions in their order, and a lemma
  evaluates it. The HTTP library is \<open>assoc_http\<close>, on which the header map a test builds is written out;
  temporary files are a file system with one file; what a test sends over a socket is handed to the
  handler behind it. \<open>test_edge_defense_suite\<close> tests the detectors of phylax and is left out.
\<close>

section \<open>\<open>framing_guard/tests.rs\<close>\<close>

definition test_rejects_conflicting_content_length_and_transfer_encoding :: bool where
  "test_rejects_conflicting_content_length_and_transfer_encoding \<longleftrightarrow>
     validate_headers assoc_http default_guard [(''content-length'', ''42''), (''transfer-encoding'', ''chunked'')] ''POST''
       = Inl ConflictingFraming"

lemma passes_conflicting [simp]: "test_rejects_conflicting_content_length_and_transfer_encoding"
  by code_simp

definition test_rejects_multiple_differing_content_lengths :: bool where
  "test_rejects_multiple_differing_content_lengths \<longleftrightarrow>
     validate_headers assoc_http default_guard [(''content-length'', ''42''), (''content-length'', ''99'')] ''POST''
       = Inl MultipleContentLengths"

lemma passes_differing [simp]: "test_rejects_multiple_differing_content_lengths"
  by code_simp

definition test_allows_multiple_identical_content_lengths :: bool where
  "test_allows_multiple_identical_content_lengths \<longleftrightarrow>
     validate_headers assoc_http default_guard [(''content-length'', ''42''), (''content-length'', ''42'')] ''POST''
       = Inr ()"

lemma passes_identical [simp]: "test_allows_multiple_identical_content_lengths"
  by code_simp

definition test_rejects_comma_separated_differing_content_lengths :: bool where
  "test_rejects_comma_separated_differing_content_lengths \<longleftrightarrow>
     validate_headers assoc_http default_guard [(''content-length'', ''42, 99'')] ''POST''
       = Inl MultipleContentLengths"

lemma passes_comma_separated [simp]: "test_rejects_comma_separated_differing_content_lengths"
  by code_simp

definition test_rejects_illegal_control_char_and_ansi_esc_in_header :: bool where
  "test_rejects_illegal_control_char_and_ansi_esc_in_header \<longleftrightarrow>
     check_header_value_bytes ''X-Malicious'' (''admin'' @ [CHR 0x00] @ ''spoof'')
       = Inl (IllegalHeaderCharacter ''X-Malicious'') \<and>
     check_header_value_bytes ''X-Malicious'' (''admin'' @ [CHR 0x7F] @ ''spoof'')
       = Inl (IllegalHeaderCharacter ''X-Malicious'') \<and>
     check_header_value_bytes ''User-Agent'' (''Bot'' @ [CHR 0x1B] @ ''[31mRed'')
       = Inl (IllegalHeaderCharacter ''User-Agent'') \<and>
     check_header_value_bytes ''X-Clean'' ''admin-standard-token_123'' = Inr ()"

lemma passes_control_chars [simp]: "test_rejects_illegal_control_char_and_ansi_esc_in_header"
  by code_simp

definition test_rejects_payload_exceeding_max_limit :: bool where
  "test_rejects_payload_exceeding_max_limit \<longleftrightarrow>
     validate_headers assoc_http (new_guard 1024) [(''content-length'', ''2048'')] ''POST''
       = Inl (PayloadTooLarge 1024 2048)"

lemma passes_too_large [simp]: "test_rejects_payload_exceeding_max_limit"
  by code_simp

definition test_rejects_unsupported_transfer_encoding :: bool where
  "test_rejects_unsupported_transfer_encoding \<longleftrightarrow>
     (case validate_headers assoc_http default_guard [(''transfer-encoding'', ''gzip'')] ''POST'' of
        Inl (UnsupportedTransferEncoding _) \<Rightarrow> True | _ \<Rightarrow> False)"

lemma passes_encoding [simp]: "test_rejects_unsupported_transfer_encoding"
  by code_simp

definition test_rejects_get_with_positive_content_length :: bool where
  "test_rejects_get_with_positive_content_length \<longleftrightarrow>
     (case validate_headers assoc_http default_guard [(''content-length'', ''50'')] ''GET'' of
        Inl (MalformedContentLength _) \<Rightarrow> True | _ \<Rightarrow> False)"

lemma passes_get_length [simp]: "test_rejects_get_with_positive_content_length"
  by code_simp

definition test_sanitizes_untrusted_ingress_headers :: bool where
  "test_sanitizes_untrusted_ingress_headers \<longleftrightarrow>
     (let client_ip = the (parse_ip ''198.51.100.99'');
          headers = sanitize_ingress_headers assoc_http
            [(''x-forwarded-for'', ''1.2.3.4''), (''x-real-ip'', ''5.6.7.8'')] client_ip;
          get = (\<lambda>n. Option.bind (hm_get assoc_http headers n) (hv_to_str assoc_http))
      in get ''X-Forwarded-For'' = Some ''198.51.100.99'' \<and>
         get ''X-Real-IP'' = Some ''198.51.100.99'' \<and>
         get ''X-Forwarded-Proto'' = Some ''https'')"

lemma passes_ingress [simp]: "test_sanitizes_untrusted_ingress_headers"
  by code_simp

section \<open>\<open>headers.rs\<close>, \<open>router.rs\<close>, \<open>sanitize.rs\<close>\<close>

definition test_upstream_headers_preparation :: bool where
  "test_upstream_headers_preparation \<longleftrightarrow>
     (let headers = prepare_upstream_headers assoc_http [] (V4 198 51 100 42);
          get = hm_get assoc_http headers
      in get ''x-forwarded-for'' = Some ''198.51.100.42'' \<and> get ''x-real-ip'' = Some ''198.51.100.42'' \<and>
         get ''x-forwarded-proto'' = Some ''https'' \<and> get ''via'' = Some ''1.1 Propylea-Boundary'')"

lemma passes_upstream_headers [simp]: "test_upstream_headers_preparation"
  by code_simp

definition test_downstream_security_hardening :: bool where
  "test_downstream_security_hardening \<longleftrightarrow>
     (let security = default_security\<lparr>server_banner := ''Custom-Banner/1.0'', hsts := True, frame_options := ''DENY''\<rparr>;
          res = inject_response_security_headers assoc_http (new_response assoc_http []) security;
          get = hm_get assoc_http (rs_headers res)
      in get ''server'' = Some ''Custom-Banner/1.0'' \<and>
         hm_contains_key assoc_http (rs_headers res) ''strict-transport-security'' \<and>
         get ''x-frame-options'' = Some ''DENY'' \<and> get ''x-content-type-options'' = Some ''nosniff'')"

lemma passes_hardening [simp]: "test_downstream_security_hardening"
  by code_simp

definition test_router_resolution :: bool where
  "test_router_resolution \<longleftrightarrow>
     (let route = (\<lambda>domains upstream websocket. \<lparr>rc_domains = domains, rc_upstream = parse_socket_addr upstream,
            rc_upstreams = None, rc_cert = [], rc_key = [], rc_websocket = websocket, rc_hedged_racing = None\<rparr>);
          router = new_router
            [route [''example.com'', ''www.example.com''] ''127.0.0.1:8081'' True,
             route [''api.example.com''] ''127.0.0.1:8082'' False];
          resolve = (\<lambda>host. map_option (\<lambda>t. (sa_port (ut_addr t), ut_websocket_allowed t)) (resolve router host))
      in resolve ''api.example.com:443'' = Some (8082, False) \<and> resolve ''www.example.com'' = Some (8081, True) \<and>
         map_option fst (resolve ''EXAMPLE.COM'') = Some 8081 \<and>
         map_option fst (resolve ''unknown.org'') = Some 8081)"

lemma passes_router [simp]: "test_router_resolution"
  by code_simp

definition test_scrubs_ansi_csi_and_osc_sequences :: bool where
  "test_scrubs_ansi_csi_and_osc_sequences \<longleftrightarrow>
     (let poisoned = ''Mozilla/5.0 '' @ [CHR 0x1B] @ ''[31mRED_ALERT'' @ [CHR 0x1B] @ ''[0m '' @ [CHR 0x1B] @
            '']0;PwnedTitle'' @ [CHR 0x07, CHR 0x00, CHR 0x0D, CHR 0x0A] @ ''NextLine'';
          clean = scrub_ansi_and_control poisoned 1024
      in clean = ''Mozilla/5.0 RED_ALERT NextLine'' \<and> CHR 0x1B \<notin> set clean \<and> CHR 0x00 \<notin> set clean)"

lemma passes_scrub [simp]: "test_scrubs_ansi_csi_and_osc_sequences"
  by code_simp

definition test_sanitize_host_banner_strips_port_and_control_bytes :: bool where
  "test_sanitize_host_banner_strips_port_and_control_bytes \<longleftrightarrow>
     sanitize_host_banner (''  ExAmPlE.cOm:8443'' @ [CHR 0x1B] @ ''[2J'' @ [CHR 0x0D, CHR 0x0A] @ ''Injected: true  '')
       = ''example.com''"

lemma passes_banner [simp]: "test_sanitize_host_banner_strips_port_and_control_bytes"
  by code_simp

definition test_neutralize_formula_vectors :: bool where
  "test_neutralize_formula_vectors \<longleftrightarrow>
     neutralize_formula (''=cmd|'' @ [CHR 0x27] @ ''/C calc'' @ [CHR 0x27] @ ''!A0'')
       = [CHR 0x27] @ ''=cmd|'' @ [CHR 0x27] @ ''/C calc'' @ [CHR 0x27] @ ''!A0'' \<and>
     neutralize_formula (CHR 0x09 # ''=2+5'') = CHR 0x27 # '' =2+5'' \<and>
     neutralize_formula (CHR 0x0D # ''+100'') = CHR 0x27 # ''+100'' \<and>
     neutralize_formula ''normal'' = ''normal''"

lemma passes_formula [simp]: "test_neutralize_formula_vectors"
  by code_simp

section \<open>\<open>maintenance.rs\<close>, \<open>telemetry.rs\<close>\<close>

definition test_resource_governor_connection_tracking :: bool where
  "test_resource_governor_connection_tracking \<longleftrightarrow>
     (let governor = new_governor default_maintenance_config 0;
          counts = (\<lambda>g. (current_active_connections (gov_metrics g), total_connections_served (gov_metrics g)));
          registered = register_connection governor
      in counts governor = (0, 0) \<and> counts registered = (1, 1) \<and>
         counts (deregister_connection registered) = (0, 1))"

lemma passes_tracking [simp]: "test_resource_governor_connection_tracking"
  by code_simp

definition test_hygiene_pass_increments_count :: bool where
  "test_hygiene_pass_increments_count \<longleftrightarrow>
     total_hygiene_passes (gov_metrics (run_hygiene_pass (new_governor default_maintenance_config 0))) = 1"

lemma passes_hygiene [simp]: "test_hygiene_pass_increments_count"
  by code_simp

text \<open>\<open>TelemetryFilter::default()\<close>.\<close>

definition default_filter :: telemetry_filter where
  "default_filter = \<lparr>tf_client_ip = None, tf_status = None, tf_threats_only = False, tf_path_contains = None, tf_limit = 0\<rparr>"

text \<open>The record of a turn of the loop.\<close>

definition record_of :: "u64 \<Rightarrow> telemetry_record" where
  "record_of i =
     \<lparr>tr_timestamp_ms = i, tr_client_ip = ''198.51.100.'' @ show_word i, tr_method = ''GET'',
      tr_path = ''/path/'' @ show_word i, tr_status = 200, tr_duration_us = 100, tr_upstream_target = None,
      tr_threat_trapped = False, tr_threat_category = None, tr_user_agent = None\<rparr>"

definition test_telemetry_ring_buffer_bounded :: bool where
  "test_telemetry_ring_buffer_bounded \<longleftrightarrow>
     (let buffer = foldl ring_record (new_ring 5) (map record_of [0, 1, 2, 3, 4, 5, 6, 7, 8, 9]);
          records = ring_query buffer (default_filter\<lparr>tf_limit := 10\<rparr>)
      in total_records buffer = 5 \<and> length records = 5 \<and> tr_path (records ! 0) = ''/path/9'')"

lemma passes_bounded [simp]: "test_telemetry_ring_buffer_bounded"
proof -
  have records: "foldl ring_record (new_ring 5) (map record_of [0, 1, 2, 3, 4, 5, 6, 7, 8, 9]) =
      \<lparr>max_capacity = 5, ring_records = map record_of [5, 6, 7, 8, 9]\<rparr>" (is "_ = ?buffer")
    by (simp add: ring_record_def new_ring_def)
  have accepted: "filter_accepts (default_filter\<lparr>tf_limit := 10\<rparr>) = (\<lambda>_. True)"
    by (rule ext) (simp add: filter_accepts_def default_filter_def)
  have query: "ring_query ?buffer (default_filter\<lparr>tf_limit := 10\<rparr>) = map record_of [9, 8, 7, 6, 5]"
    unfolding ring_query_def accepted Let_def telemetry_filter.simps telemetry_ring.simps by simp
  have total: "total_records ?buffer = 5" by (simp add: total_records_def)
  have newest: "length (map record_of [9, 8, 7, 6, 5]) = 5" "map record_of [9, 8, 7, 6, 5] ! 0 = record_of 9"
    by simp_all
  have path: "tr_path (record_of 9) = ''/path/9''" by code_simp
  show ?thesis
    unfolding test_telemetry_ring_buffer_bounded_def Let_def records query newest total path by (intro conjI refl)
qed

definition test_filter_threats_only :: bool where
  "test_filter_threats_only \<longleftrightarrow>
     (let harmless = \<lparr>tr_timestamp_ms = 1, tr_client_ip = ''198.51.100.1'', tr_method = ''GET'', tr_path = ''/'',
            tr_status = 200, tr_duration_us = 50, tr_upstream_target = None, tr_threat_trapped = False,
            tr_threat_category = None, tr_user_agent = None\<rparr>;
          probe = \<lparr>tr_timestamp_ms = 2, tr_client_ip = ''198.51.100.2'', tr_method = ''GET'', tr_path = ''/.env'',
            tr_status = 404, tr_duration_us = 15, tr_upstream_target = None, tr_threat_trapped = True,
            tr_threat_category = Some ''Environment Probe'', tr_user_agent = None\<rparr>;
          buffer = ring_record (ring_record (new_ring 10) harmless) probe;
          threats = ring_query buffer (default_filter\<lparr>tf_threats_only := True\<rparr>)
      in length threats = 1 \<and> tr_path (threats ! 0) = ''/.env'')"

lemma passes_threats_only [simp]: "test_filter_threats_only"
  by code_simp

definition test_sensitive_query_redaction :: bool where
  "test_sensitive_query_redaction \<longleftrightarrow>
     sanitize_query_string ''user=rick&token=secret123&action=view&api_key=sk_test_456''
       = ''user=rick&token=[REDACTED]&action=view&api_key=[REDACTED]''"

lemma passes_redaction [simp]: "test_sensitive_query_redaction"
proof -
  let ?pairs = "[''user=rick'', ''token=secret123'', ''action=view'', ''api_key=sk_test_456'']"
  have pairs: "split_on CHR ''&'' ''user=rick&token=secret123&action=view&api_key=sk_test_456'' = ?pairs"
    using split_on_join [of ?pairs "CHR ''&''"] by simp
  have redacted: "redact_pair ''user=rick'' = ''user=rick''" "redact_pair ''token=secret123'' = ''token=[REDACTED]''"
    "redact_pair ''action=view'' = ''action=view''" "redact_pair ''api_key=sk_test_456'' = ''api_key=[REDACTED]''"
    by code_simp+
  show ?thesis
    by (simp add: test_sensitive_query_redaction_def sanitize_query_string_def pairs redacted)
qed

section \<open>\<open>tls_fingerprint.rs\<close>\<close>

definition test_grease_detection :: bool where
  "test_grease_detection \<longleftrightarrow>
     list_all is_grease_u16 [0x0a0a, 0x1a1a, 0x2a2a, 0xfafa] \<and>
     \<not> is_grease_u16 0x0a1a \<and> \<not> is_grease_u16 0x1301 \<and> \<not> is_grease_u16 0xc02f"

lemma passes_grease [simp]: "test_grease_detection"
  by code_simp

definition test_detects_python_impersonating_chrome :: bool where
  "test_detects_python_impersonating_chrome \<longleftrightarrow>
     (let python_profile = \<lparr>has_grease = False, cipher_count = 17, offers_h2 = False, has_sni = True,
            primary_ciphers = [0x1301, 0x1302, 0x1303]\<rparr>;
          spoofed_ua = ''Mozilla/5.0 (Windows NT 10.0; Win64; x64) AppleWebKit/537.36 (KHTML, like Gecko) Chrome/128.0.0.0 Safari/537.36''
      in (case verify_user_agent_coherence python_profile (Some spoofed_ua) of Spoofed _ \<Rightarrow> True | _ \<Rightarrow> False))"

lemma passes_python [simp]: "test_detects_python_impersonating_chrome"
  by code_simp

definition test_allows_genuine_chrome_profile :: bool where
  "test_allows_genuine_chrome_profile \<longleftrightarrow>
     (let chrome_profile = \<lparr>has_grease = True, cipher_count = 16, offers_h2 = True, has_sni = True,
            primary_ciphers = [0x1301, 0x1302, 0x1303]\<rparr>;
          real_chrome_ua = ''Mozilla/5.0 (Macintosh; Intel Mac OS X 10_15_7) AppleWebKit/537.36 (KHTML, like Gecko) Chrome/128.0.0.0 Safari/537.36''
      in verify_user_agent_coherence chrome_profile (Some real_chrome_ua) = Coherent)"

lemma passes_chrome [simp]: "test_allows_genuine_chrome_profile"
  by code_simp

definition test_allows_legitimate_googlebot_without_grease :: bool where
  "test_allows_legitimate_googlebot_without_grease \<longleftrightarrow>
     (let bot_profile = \<lparr>has_grease = False, cipher_count = 15, offers_h2 = True, has_sni = True,
            primary_ciphers = [0x1301, 0x1302]\<rparr>
      in verify_user_agent_coherence bot_profile
           (Some ''Mozilla/5.0 (compatible; Googlebot/2.1; +http://www.google.com/bot.html)'') = Coherent)"

lemma passes_googlebot [simp]: "test_allows_legitimate_googlebot_without_grease"
  by code_simp

definition test_allows_unspecified_cli_or_missing_ua :: bool where
  "test_allows_unspecified_cli_or_missing_ua \<longleftrightarrow>
     (let cli_profile = \<lparr>has_grease = False, cipher_count = 10, offers_h2 = False, has_sni = False, primary_ciphers = []\<rparr>
      in verify_user_agent_coherence cli_profile None = Coherent \<and>
         verify_user_agent_coherence cli_profile (Some ''curl/8.5.0'') = Coherent)"

lemma passes_cli [simp]: "test_allows_unspecified_cli_or_missing_ua"
  by code_simp

section \<open>\<open>acme.rs\<close>, \<open>http_redirect.rs\<close>\<close>

text \<open>A temporary directory, with one file in it or none.\<close>

definition tempdir :: string where
  "tempdir = ''/tmp/webroot''"

definition one_file :: "string \<Rightarrow> string \<Rightarrow> acme_fs" where
  "one_file path content =
     \<lparr>fs_is_file = (\<lambda>p. p = path), fs_metadata = (\<lambda>p. if p = path then Some (True, length content) else None),
      fs_read = (\<lambda>p. if p = path then Some content else None)\<rparr>"

definition no_files :: acme_fs where
  "no_files = \<lparr>fs_is_file = (\<lambda>_. False), fs_metadata = (\<lambda>_. None), fs_read = (\<lambda>_. None)\<rparr>"

definition challenge_file :: "string \<Rightarrow> string" where
  "challenge_file token = path_join (path_join (path_join tempdir ''.well-known'') ''acme-challenge'') token"

definition test_acme_serving_nested_directory :: bool where
  "test_acme_serving_nested_directory \<longleftrightarrow>
     (let token = ''test-token-abc-123_XYZ'';
          fs = one_file (challenge_file token) ''test-token-abc-123_XYZ.dummy_thumbprint''
      in case try_serve_acme_challenge assoc_http fs (acme_challenge_prefix @ token) (Some tempdir) of
           Some res \<Rightarrow> rs_status res = 200 \<and>
             hm_get assoc_http (rs_headers res) ''content-type'' = Some ''text/plain; charset=utf-8''
         | None \<Rightarrow> False)"

lemma passes_nested [simp]: "test_acme_serving_nested_directory"
  by code_simp

definition test_acme_token_rejection_traversal :: bool where
  "test_acme_token_rejection_traversal \<longleftrightarrow>
     (let status = (\<lambda>path. map_option rs_status (try_serve_acme_challenge assoc_http no_files path (Some tempdir)))
      in status ''/.well-known/acme-challenge/../../etc/passwd'' = Some 400 \<and>
         status ''/.well-known/acme-challenge/sub/token'' = Some 400 \<and>
         status ''/.well-known/acme-challenge/'' = Some 400 \<and>
         status (''/.well-known/acme-challenge/'' @ replicate 129 CHR ''a'') = Some 400)"

lemma passes_traversal [simp]: "test_acme_token_rejection_traversal"
  by code_simp

definition test_acme_unrelated_path_ignored :: bool where
  "test_acme_unrelated_path_ignored \<longleftrightarrow>
     try_serve_acme_challenge assoc_http no_files ''/index.html'' (Some tempdir) = None \<and>
     try_serve_acme_challenge assoc_http no_files ''/api/v1/checkout'' (Some tempdir) = None"

lemma passes_unrelated [simp]: "test_acme_unrelated_path_ignored"
  by code_simp

definition plain_get :: "string \<Rightarrow> string option \<Rightarrow> string \<Rightarrow> assoc_headers request" where
  "plain_get path query host =
     \<lparr>rq_method = ''GET'', rq_uri_host = None, rq_path = path, rq_query = query, rq_headers = [(''host'', host)]\<rparr>"

definition test_redirect_generation :: bool where
  "test_redirect_generation \<longleftrightarrow>
     (let res = redirect_handler assoc_http no_files default_security None
            (plain_get ''/dashboard'' (Some ''tab=logs'') ''mytest.example.com'')
      in rs_status res = 301 \<and>
         Option.bind (hm_get assoc_http (rs_headers res) ''location'') (hv_to_str assoc_http)
           = Some ''https://mytest.example.com/dashboard?tab=logs'')"

lemma passes_redirect [simp]: "test_redirect_generation"
  by code_simp

definition test_port_80_acme_challenge_passthrough :: bool where
  "test_port_80_acme_challenge_passthrough \<longleftrightarrow>
     (let token_name = ''integration-test-token-7788'';
          fs = one_file (challenge_file token_name) ''integration-test-token-7788.thumbprint12345'';
          serve = (\<lambda>path. redirect_handler assoc_http fs default_security (Some tempdir) (plain_get path None ''rmediatech.com''));
          res = serve (''/.well-known/acme-challenge/'' @ token_name);
          res_redir = serve ''/about''
      in rs_status res = 200 \<and>
         hm_get assoc_http (rs_headers res) ''content-type'' = Some ''text/plain; charset=utf-8'' \<and>
         rs_body res = ''integration-test-token-7788.thumbprint12345'' \<and>
         rs_status res_redir = 301 \<and>
         Option.bind (hm_get assoc_http (rs_headers res_redir) ''location'') (hv_to_str assoc_http)
           = Some ''https://rmediatech.com/about'')"

lemma passes_passthrough [simp]: "test_port_80_acme_challenge_passthrough"
  by code_simp

section \<open>\<open>config/route.rs\<close>, \<open>tls.rs\<close>, \<open>defense.rs\<close>\<close>

text \<open>
  The deserialiser is handed over with what it makes of the text of the test: the settings that the
  text gives, the defaults for the others.
\<close>

definition test_valid_config_parsing :: bool where
  "test_valid_config_parsing \<longleftrightarrow>
     (let addr = (\<lambda>s. the (parse_socket_addr s));
          parsed = default_config
            \<lparr>cfg_server := default_server\<lparr>http_bind := addr ''127.0.0.1:8080'', https_bind := addr ''127.0.0.1:8443''\<rparr>,
             cfg_security := default_security\<lparr>enable_defense := True, server_banner := ''Test-Proxy''\<rparr>,
             cfg_routes := [\<lparr>rc_domains = [''example.com'', ''www.example.com''], rc_upstream = Some (addr ''127.0.0.1:3000''),
               rc_upstreams = None, rc_cert = ''/tmp/cert.pem'', rc_key = ''/tmp/key.pem'', rc_websocket = True,
               rc_hedged_racing = None\<rparr>]\<rparr>
      in case config_from_str (\<lambda>_. Inr parsed) [] of
           Inr config \<Rightarrow>
             sa_port (http_bind (cfg_server config)) = 8080 \<and> sa_port (https_bind (cfg_server config)) = 8443 \<and>
             length (cfg_routes config) = 1 \<and>
             rc_domains (cfg_routes config ! 0) = [''example.com'', ''www.example.com''] \<and>
             sa_port (primary_upstream (cfg_routes config ! 0)) = 3000 \<and> rc_websocket (cfg_routes config ! 0)
         | Inl _ \<Rightarrow> False)"

lemma passes_config [simp]: "test_valid_config_parsing"
  by code_simp

definition test_empty_routes_fails_validation :: bool where
  "test_empty_routes_fails_validation \<longleftrightarrow>
     (let addr = (\<lambda>s. the (parse_socket_addr s));
          parsed = default_config
            \<lparr>cfg_server := default_server\<lparr>http_bind := addr ''127.0.0.1:80'', https_bind := addr ''127.0.0.1:443''\<rparr>,
             cfg_routes := []\<rparr>
      in case config_from_str (\<lambda>_. Inr parsed) [] of Inl (ConfigValidation _) \<Rightarrow> True | _ \<Rightarrow> False)"

lemma passes_empty_routes [simp]: "test_empty_routes_fails_validation"
  by code_simp

definition test_load_certs_and_key :: bool where
  "test_load_certs_and_key \<longleftrightarrow>
     (let routes = [single_route [''example.com'', ''www.example.com''] (the (parse_socket_addr ''127.0.0.1:8080''))
            ''/tmp/cert.pem'' ''/tmp/key.pem'' True]
      in (case load_certs map_tls ''/tmp/cert.pem'' of Inr certs \<Rightarrow> length certs = 1 | Inl _ \<Rightarrow> False) \<and>
         (case load_private_key map_tls ''/tmp/key.pem'' of Inr (Pkcs8 _) \<Rightarrow> True | _ \<Rightarrow> False) \<and>
         (case build_sni_tls_acceptor map_tls routes of Inr acceptor \<Rightarrow> True | Inl _ \<Rightarrow> False))"

lemma passes_tls [simp]: "test_load_certs_and_key"
  by code_simp

text \<open>
  The trusted networks are passed before phylax is asked; that it blocks a client without a user agent
  is its part of the last assertion.
\<close>

definition test_trusted_cidrs_allowlist_bypass :: "('s, 'c) phylax_lib \<Rightarrow> bool" where
  "test_trusted_cidrs_allowlist_bypass P \<longleftrightarrow>
     (let config = default_security\<lparr>trusted_cidrs := [''198.51.100.0/24'', ''203.0.113.42'']\<rparr>;
          defense = (new_edge_defense P cidr_lib config :: ('s, cidr, unit) edge_defense);
          evaluate = (\<lambda>ip path. evaluate_request assoc_http P cidr_lib 0 (the (parse_ip ip)) ''GET'' path None);
          (products, defense1) = evaluate ''198.51.100.77'' ''/products'' defense;
          (env, defense2) = evaluate ''198.51.100.77'' ''/.env'' defense1
      in products = None \<and> env = None \<and> fst (evaluate ''192.0.2.10'' ''/products'' defense2) \<noteq> None)"

lemma passes_trusted:
  fixes P :: "('s, 'c) phylax_lib"
  assumes "\<forall>s path. \<exists>category token. px_bot P s None path = BotBlocked category token"
  shows "test_trusted_cidrs_allowlist_bypass P"
proof -
  let ?nets = "trusted_subnets cidr_lib [''198.51.100.0/24'', ''203.0.113.42'']"
  have ips: "parse_ip ''198.51.100.77'' = Some (V4 198 51 100 77)" "parse_ip ''192.0.2.10'' = Some (V4 192 0 2 10)"
    by code_simp+
  have nets: "in_subnets cidr_lib ?nets (V4 198 51 100 77)" "\<not> in_subnets cidr_lib ?nets (V4 192 0 2 10)"
    by code_simp+
  have blocked: "fst (evaluate_request assoc_http P cidr_lib 0 (V4 192 0 2 10) ''GET'' ''/products'' None ed) \<noteq> None"
    if "\<not> is_trusted cidr_lib ed (V4 192 0 2 10)" for ed :: "('s, cidr, unit) edge_defense"
  proof -
    have "bot_verdict_for P s (V4 192 0 2 10) None path \<noteq> BotAllowed c" for s path c
    proof -
      obtain category token where "px_bot P s None path = BotBlocked category token" using assms by blast
      then show ?thesis by (simp add: bot_verdict_for_def)
    qed
    then show ?thesis using that
      by (auto simp: evaluate_request_def evaluate_request_full_def Let_def split: sum.split option.split prod.split bot_verdict.split)
  qed
  show ?thesis unfolding test_trusted_cidrs_allowlist_bypass_def
    using nets blocked
    by (simp add: ips evaluate_request_def evaluate_request_full_def is_trusted_def new_edge_defense_def)
qed

end
