(* ===== verification/Spec2Isabelle.thy ===== *)
theory Spec2Isabelle
  imports
    Framing_Guard Config Router Headers Sanitize Telemetry Tls_Fingerprint Governor Acme Redirect Tls
    Store Store_Props Store_Queries Manager Ipc Cli_Parsers Export_Props Quarantine_Cli_Props
    Defense_Props Proxy_Props Crucible Startup_Props Daemon Tasks Server Server_Props Server_Bans
    Server_Hello Server_Exchange Server_Boot Hello_Cut Listeners
    Server_Log Server_Causes Fairness Server_Fair Lifetimes Entry Unit_Tests
begin

text \<open>
  Propylea, a reverse proxy with TLS termination and a perimeter defence (\<open>src/src\<close>, Rust), modelled in
  HOL and verified. Every theory models the source files its introduction names; a definition has the
  name of the function or type it translates. A Rust string is a \<open>string\<close> of its UTF-8 bytes, an integer
  a word of its width, a \<open>Result\<close> a sum whose left side is the error, a panic the value \<open>None\<close>. Shared
  state behind locks and atomics is a record, and an operation returns it updated.

  The parts and how they interact.

  A request arrives on a connection that \<open>Governor\<close> counts (\<open>maintenance.rs\<close>, and the accept loop of
  \<open>proxy/mod.rs\<close>), whose ClientHello \<open>Tls_Fingerprint\<close> parses (\<open>tls_fingerprint.rs\<close>) and for which \<open>Tls\<close>
  picks a certificate (\<open>tls.rs\<close>). The handler in \<open>Proxy\<close> (\<open>proxy/mod.rs\<close>, \<open>forward.rs\<close>, \<open>websocket.rs\<close>) runs
  in this order: the framing guard and the sanitisation of the identity headers (\<open>Framing_Guard\<close>,
  \<open>framing_guard/mod.rs\<close>), the ACME responder (\<open>Acme\<close>, \<open>acme.rs\<close>), the perimeter defence (\<open>Defense\<close>,
  \<open>defense.rs\<close>), the router (\<open>Router\<close>, \<open>router.rs\<close>) and the upstream, with the header passes of \<open>Headers\<close>
  (\<open>headers.rs\<close>) on the way there and back and a record in the log of \<open>Telemetry\<close> (\<open>telemetry.rs\<close>). Port 80
  is \<open>Redirect\<close> (\<open>http_redirect.rs\<close>).

  The handler runs as a task among others: \<open>Tasks\<close> cuts it into steps, one call on the shared state each,
  and \<open>Server\<close> is the listener (\<open>run_https_proxy_listener\<close>) as a step relation: connections are accepted,
  peeked at, shaken hands with, served and ended, their requests take turns step by step, and the worker
  and the control socket run beside them (\<open>Daemon\<close>). \<open>Server_Boot\<close> starts it as the program does. The loops
  of the other three ports are in \<open>Listeners\<close>.

  A client that trips a trap is banned: the defence queues a record, the worker of \<open>Manager\<close>
  (\<open>quarantine/mod.rs\<close>) writes it to the tables of \<open>Store\<close> (\<open>quarantine/store.rs\<close>), and the next start restores
  it. Operators act through the control socket (\<open>Ipc\<close>, \<open>quarantine/ipc.rs\<close>) and the commands of
  \<open>Quarantine_Cli\<close> with the parsers of \<open>Cli_Parsers\<close> (\<open>quarantine/cli\<close>), which fall back to the database
  file when no daemon answers; \<open>Export\<close> with the texts of \<open>Export_Text\<close> prints the records
  (\<open>quarantine/export\<close>), on \<open>Sanitize\<close> (\<open>sanitize.rs\<close>). \<open>Config\<close> (\<open>config\<close>) loads and validates the settings;
  \<open>Startup\<close> is the program's commands and the construction of the daemon (\<open>cli.rs\<close>, \<open>build_edge_defense\<close>);
  \<open>Crucible\<close> is the test ingress that bans every attacker (\<open>crucible.rs\<close>). \<open>Daemon\<close> puts the operations on the
  shared state together as one step relation, in which a request is one step; \<open>Server\<close> refines it.

  The program as a whole: \<open>Entry\<close> is the two \<open>main\<close> functions (\<open>main.rs\<close>, \<open>bin/crucible_gate.rs\<close>) up to the
  status of their processes; \<open>Lifetimes\<close> follows a database file through the daemons that are started on
  it and stopped or crash, and the commands between them. \<open>Unit_Tests\<close> evaluates the tests of the
  repository on the model.

  \<open>Prelude\<close>, \<open>Rust_Str\<close> and \<open>Net_Addr\<close> model what the code uses of the language and its standard
  library: results, checked arithmetic, UTF-8, string methods, the parsers and printers of addresses.

  What the lemmas show.

  \<^item> Requests: an accepted request has no ambiguous length; every rejection has a cause that is a fact of the
    request, and canonical requests pass; an upstream gets only such requests, with the identity of the
    socket peer; each exchange is logged and counted once; every response but one kind is hardened; the
    telemetry records hold no value of a query parameter whose key names a secret (a log line of a hostile
    request does: it has the raw query).
  \<^item> The handshake: the parser never panics, reads an encoded hello back whatever follows it, and the
    certificate of a host is that of the route its requests take.
  \<^item> Bans: the store refines a set of networks and its audit log explains every row; a ban that is in the
    store stays there unless an operator lifts it; a trapped client's ban is stored, waits for the worker, or
    is one whose write the store has refused, in every interleaving of requests, worker and control socket;
    a stored ban survives a restart, and the commands do the same with and without a daemon.
  \<^item> Exports: the CSV reads back as the table of the records and holds no formula; no value adds markup
    to the HTML page.
  \<^item> The server, in every interleaving of the steps of its tasks: the shared state stays well formed and
    the counters exact (\<open>Server_Props\<close>); a request run alone, in nine steps, is the handler (\<open>Tasks\<close>);
    a request is judged by the address and the hello of its own connection, and a
    client that pretends to be a browser is banned (\<open>Server_Hello\<close>); a record of the telemetry is that of a
    request which arrived, with its peer and with its query blinded (\<open>Server_Log\<close>); the ban comes before the answer
    (\<open>Server_Bans\<close>), from the start of the program on (\<open>Server_Boot\<close>), and every ban has a cause, a trap
    that was tripped or an order (\<open>Server_Causes\<close>); the answers are independent of the other tasks but for
    the verdicts of phylax, and the guarantee for the upstreams holds (\<open>Server_Exchange\<close>); what a cut of
    the hello can change is in \<open>Hello_Cut\<close>.
  \<^item> Endless runs, with a fair schedule (\<open>Server_Fair\<close>, on the rule of \<open>Fairness\<close>): a trapped client is
    answered with a denial and its ban reaches the store, whatever the others do, if the store works. Without
    fairness a request may wait for ever: its upstream may never answer (\<open>upstream_may_hang\<close>).
  \<^item> The lives of the program (\<open>Lifetimes\<close>): however daemons and commands follow one another on a file, its
    tables are those of a history of the store's operations, and a ban outlives the daemon that made it,
    unless its record was still queued when the daemon stopped or its write failed; both happen.
  \<^item> The daemon: a configuration starts exactly when it passes the check, its keys can sign and the certificate
    resolver accepts its domains; what a running proxy serves has an upstream and a certificate.

  Several theorems state where the code falls short: the bans of the crucible gate have expired when they
  are written, the HTML export panics on some user agents, an exclusion does not carry over to a derived
  network, a hello that arrives in two pieces is not checked or is checked in part, a daemon that is
  stopped before its worker's turn loses the bans of the queue, a ban whose write fails is dropped, an
    upstream that never answers is waited for without a limit, and others.

  Interfaces. \<open>text_scrubber\<close> (\<open>Sanitize\<close>), \<open>host_resolver\<close> (\<open>Router\<close>), \<open>ring_log\<close> (\<open>Telemetry\<close>) and
  \<open>ban_registry\<close> (\<open>Store_Props\<close>) state what a client relies on, and \<open>trace_invariant\<close> (\<open>Prelude\<close>) what a
  step relation preserves; they are interpreted on the model's definitions, the last for the
  connections (\<open>Governor\<close>), for the daemon (\<open>Daemon\<close>), for the listener with each of the properties above
  (\<open>Server_Props\<close> to \<open>Server_Boot\<close>, \<open>Server_Log\<close>), for the loops of \<open>Listeners\<close> and for the lives of a database.
  \<open>fair_progress\<close> (\<open>Fairness\<close>) says when a goal is reached in an endless run, for the requests and for the
  worker (\<open>Server_Fair\<close>).

  What is a parameter: code that is not in the repository, with what the code relies on as hypotheses.
  The HTTP library is \<open>http_lib\<close> with \<open>http_laws\<close>; the TLS library \<open>tls_lib\<close> with \<open>sni_laws\<close> and \<open>registration_law\<close>; networks are
  \<open>ipnet_lib\<close>; phylax is \<open>phylax_lib\<close>, \<open>phylax_quarantine\<close> and \<open>crucible_lib\<close>, with \<open>memory_law\<close>; the SQL engine
  is \<open>sql_engine\<close>, any of whose statements may fail, with \<open>engine_laws\<close> and \<open>engine_works\<close>; the JSON codec is
  \<open>ipc_codec\<close> with \<open>carries_request\<close> and \<open>carries_response\<close>; the racer of upstreams is a field of \<open>proxy_env\<close>
  with \<open>race_law\<close>. Each has a concrete instance (\<open>assoc_http\<close>, \<open>map_tls\<close>, \<open>cidr_lib\<close>, \<open>word_guard\<close>,
  \<open>list_quarantine\<close>, \<open>decoy_lib\<close>, \<open>plain_engine\<close>) on which the witnesses evaluate. Clocks, files, sockets and upstreams
  are arguments too. In a run of the listener every request brings its own surroundings: what the shield
  answers to it is arbitrary, so that the statements hold also when phylax shares the memory of its
  quarantine with the pipeline it was cloned from, which its source would have to tell.

  Bounds. No definition uses fuel: all loops of the source are structural or have a measure; a run of a
  step relation is finite and of any length, or endless in \<open>Server_Fair\<close>. Nine steps are enough for a
  request, the bound being a measure that each step lowers (\<open>Tasks\<close>); that it gets them is not assumed but in
  \<open>Server_Fair\<close>, and a request that waits for an upstream gets none until the upstream answers or fails. Statements on times ask for a clock below
  \<open>2 ^ 63\<close> milliseconds, the range of the store's integers; the rows a restart reads have counts below
  \<open>2 ^ 32\<close>, the others being left out by the code.

  Not modelled. The bytes on the sockets beyond the peek (TLS records, the HTTP codec of hyper, the joining
  of the two streams of an upgraded connection) are I/O; their outcomes are the events of the step
  relations. The scheduler may run the steps in any order; that it is fair is assumed in \<open>Server_Fair\<close>
  only. The composite relations and functions that no single function of the source contains are not
  translations but statements about the translated ones: \<open>daemon_step\<close> (the parts that share the state),
  \<open>life_step\<close> (the lives on a file) and \<open>remote_call\<close> (a client and the handler at the other end). Log lines, the parsing of command-line options by clap, and \<open>malloc_trim\<close> have no effect on the
  state. The scope of an IPv6 address is not represented. Of the unit tests \<open>test_edge_defense_suite\<close> is
  left out, which tests the detectors of phylax; \<open>lib.rs\<close> only re-exports.
\<close>

end
